(* ===== verification/Prelude.thy ===== *)
theory Prelude
  imports "HOL-Library.Word" "HOL-Library.AList" "HOL-Library.Sublist"
    "HOL-Library.List_Lexorder" "HOL-Library.Char_ord"
begin

text \<open>
  Shared vocabulary of the development: the machine integer types of the Rust sources, the
  saturating operations they use, hash maps as association lists whose order stands for the
  iteration order (which Rust leaves open), the ``best score so far'' scan that three
  components run over such a map, and the locale by which a component lifts a property of
  one operation to every sequence of operations.
\<close>

named_theorems run \<open>definitions unfolded to evaluate the model on a concrete input\<close>
named_theorems norm_idem \<open>idempotence of the normalisation functions\<close>

type_synonym u8 = "8 word"
type_synonym u16 = "16 word"
type_synonym u32 = "32 word"
type_synonym u64 = "64 word"
type_synonym u128 = "128 word"
type_synonym i32 = "32 word"
type_synonym bytes = "8 word list"
type_synonym ('k, 'v) hmap = "('k \<times> 'v) list"

section \<open>Saturating machine arithmetic\<close>

definition saturating_add :: "'a::len word \<Rightarrow> 'a word \<Rightarrow> 'a word" where
  "saturating_add a b = (if unat a + unat b < 2 ^ LENGTH('a) then a + b else - 1)"

definition saturating_sub :: "'a::len word \<Rightarrow> 'a word \<Rightarrow> 'a word" where
  "saturating_sub a b = (if a < b then 0 else a - b)"

definition saturating_mul :: "'a::len word \<Rightarrow> 'a word \<Rightarrow> 'a word" where
  "saturating_mul a b = (if unat a * unat b < 2 ^ LENGTH('a) then a * b else - 1)"

section \<open>Hash maps and the scans over them\<close>

definition get_or :: "'v \<Rightarrow> 'v option \<Rightarrow> 'v" where
  "get_or d m = (case m of None \<Rightarrow> d | Some v \<Rightarrow> v)"

definition filter_opt :: "('a \<Rightarrow> bool) \<Rightarrow> 'a option \<Rightarrow> 'a option" where
  "filter_opt P m = (case m of None \<Rightarrow> None | Some v \<Rightarrow> if P v then Some v else None)"

definition or_else :: "'a option \<Rightarrow> 'a option \<Rightarrow> 'a option" where
  "or_else m n = (case m of None \<Rightarrow> n | Some v \<Rightarrow> Some v)"

definition hm_extend :: "'k \<Rightarrow> 'v list \<Rightarrow> ('k, 'v list) hmap \<Rightarrow> ('k, 'v list) hmap" where
  "hm_extend k vs m = AList.update k (get_or [] (map_of m k) @ vs) m"

definition hm_push :: "'k \<Rightarrow> 'v \<Rightarrow> ('k, 'v list) hmap \<Rightarrow> ('k, 'v list) hmap" where
  "hm_push k v m = hm_extend k [v] m"

definition sort_dedup :: "'a::linorder list \<Rightarrow> 'a list" where
  "sort_dedup xs = remdups_adj (sort xs)"

definition best_step :: "('k \<Rightarrow> bool) \<Rightarrow> ('k \<Rightarrow> nat) \<Rightarrow> 'k \<times> 'v \<Rightarrow> (nat \<times> 'v) option \<Rightarrow> (nat \<times> 'v) option" where
  "best_step covers score kv best =
     (if covers (fst kv) \<and> get_or 0 (map_option fst best) < score (fst kv)
      then Some (score (fst kv), snd kv) else best)"

definition best_scan :: "('k \<Rightarrow> bool) \<Rightarrow> ('k \<Rightarrow> nat) \<Rightarrow> ('k, 'v) hmap \<Rightarrow> (nat \<times> 'v) option" where
  "best_scan covers score m = fold (best_step covers score) m None"

section \<open>Lemmas on saturating arithmetic\<close>

lemma unat_saturating_add:
  "unat (saturating_add a b) = min (unat a + unat b) (2 ^ LENGTH('a) - 1)"
  for a b :: "'a::len word"
proof (cases "unat a + unat b < 2 ^ LENGTH('a)")
  case True
  then show ?thesis
    by (simp add: saturating_add_def unat_add_lem [THEN iffD1])
next
  case False
  then have "2 ^ LENGTH('a) - 1 \<le> unat a + unat b"
    by linarith
  with False show ?thesis
    by (simp add: saturating_add_def unsigned_minus_1_eq_mask mask_eq_exp_minus_1 min_absorb2)
qed

lemma saturating_add_mono: "a \<le> saturating_add a b"
  for a b :: "'a::len word"
proof -
  have "unat a \<le> 2 ^ LENGTH('a) - 1"
    using unsigned_less [of a, where ?'a = nat] by linarith
  then show ?thesis
    by (simp add: word_le_nat_alt unat_saturating_add)
qed

lemma unat_saturating_sub: "unat (saturating_sub a b) = unat a - unat b"
  by (auto simp: saturating_sub_def word_less_nat_alt unat_sub_if_size)

section \<open>Lemmas on options and hash maps\<close>

lemma get_or_simps [simp]: "get_or d None = d" "get_or d (Some v) = v"
  by (simp_all add: get_or_def)

lemma filter_opt_simps [simp]:
  "filter_opt P None = None" "filter_opt P (Some v) = (if P v then Some v else None)"
  by (simp_all add: filter_opt_def)

lemma filter_opt_eq_Some [simp]: "filter_opt P m = Some v \<longleftrightarrow> m = Some v \<and> P v"
  by (auto simp: filter_opt_def split: option.splits)

lemma or_else_simps [simp]: "or_else None n = n" "or_else (Some v) n = Some v"
  by (simp_all add: or_else_def)

lemma map_of_hm_extend:
  "map_of (hm_extend k vs m) = (map_of m)(k \<mapsto> get_or [] (map_of m k) @ vs)"
  by (simp add: hm_extend_def update_conv')

lemma distinct_hm_extend: "distinct (map fst m) \<Longrightarrow> distinct (map fst (hm_extend k vs m))"
  by (simp add: hm_extend_def distinct_update)

lemma fst_set_hm_extend: "fst ` set (hm_extend k vs m) = insert k (fst ` set m)"
  by (simp add: hm_extend_def dom_update)

lemma replicate_numeral [run]: "replicate (numeral k) x = x # replicate (pred_numeral k) x"
  by (simp add: numeral_eq_Suc)

lemma sorted_remdups_adj_distinct: "sorted xs \<Longrightarrow> distinct (remdups_adj xs)"
  by (induction xs rule: remdups_adj.induct) (auto simp: less_le)

lemma sort_dedup_canonical: "sort_dedup xs = sorted_list_of_set (set xs)"
  unfolding sort_dedup_def
  by (rule sorted_distinct_set_unique)
    (simp_all add: sorted_remdups_adj sorted_remdups_adj_distinct)

lemma set_sort_dedup [simp]: "set (sort_dedup xs) = set xs"
  by (simp add: sort_dedup_canonical)

lemma sort_dedup_idem [simp]: "sort_dedup (sort_dedup xs) = sort_dedup xs"
  by (simp add: sort_dedup_canonical)

lemma sort_dedup_Nil_iff [simp]: "sort_dedup xs = [] \<longleftrightarrow> xs = []"
  by (metis set_empty set_sort_dedup)

section \<open>The best-score scan\<close>

lemma best_scan_snoc:
  "best_scan covers score (m @ [kv]) = best_step covers score kv (best_scan covers score m)"
  by (simp add: best_scan_def)

lemma best_scan_None:
  assumes "\<And>k. covers k \<Longrightarrow> 0 < score k"
  shows "best_scan covers score m = None \<longleftrightarrow> (\<forall>k \<in> fst ` set m. \<not> covers k)"
proof (induction m rule: rev_induct)
  case Nil
  then show ?case by (simp add: best_scan_def)
next
  case (snoc kv m)
  then show ?case
    using assms [of "fst kv"] by (auto simp: best_scan_snoc best_step_def)
qed

lemma best_scan_Some:
  "best_scan covers score m = Some (s, v) \<Longrightarrow>
   \<exists>k. (k, v) \<in> set m \<and> covers k \<and> score k = s \<and> (\<forall>k' \<in> fst ` set m. covers k' \<longrightarrow> score k' \<le> s)"
proof (induction m arbitrary: s v rule: rev_induct)
  case Nil
  then show ?case by (simp add: best_scan_def)
next
  case (snoc kv m)
  show ?case
  proof (cases "covers (fst kv) \<and> get_or 0 (map_option fst (best_scan covers score m)) < score (fst kv)")
    case True
    with snoc.prems have sv: "s = score (fst kv)" "v = snd kv"
      by (auto simp: best_scan_snoc best_step_def)
    have "score k' \<le> s" if "k' \<in> fst ` set m" "covers k'" for k'
    proof (cases "best_scan covers score m")
      case None
      have "score k' = 0"
      proof (rule ccontr)
        assume pos: "score k' \<noteq> 0"
        from that(1) obtain xs ys w where m: "m = xs @ (k', w) # ys"
          by (force simp: in_set_conv_decomp)
        have mono: "fold (best_step covers score) zs (Some p) \<noteq> None" for zs p
          by (induction zs arbitrary: p) (auto simp: best_step_def)
        have "best_step covers score (k', w) b \<noteq> None" for b
          using that(2) pos by (cases b) (auto simp: best_step_def)
        then obtain p where "best_step covers score (k', w) (fold (best_step covers score) xs None) = Some p"
          by blast
        with None mono [of ys p] show False
          by (simp add: m best_scan_def)
      qed
      then show ?thesis by simp
    next
      case (Some p)
      then obtain s' v' where p: "best_scan covers score m = Some (s', v')"
        by (cases p) auto
      from snoc.IH [OF p] that have "score k' \<le> s'" by blast
      with True p sv show ?thesis by simp
    qed
    with True sv show ?thesis
      by (cases kv) auto
  next
    case False
    with snoc.prems have eq: "best_scan covers score m = Some (s, v)"
      by (auto simp: best_scan_snoc best_step_def)
    from snoc.IH [OF eq] obtain k where k: "(k, v) \<in> set m" "covers k" "score k = s"
      "\<forall>k' \<in> fst ` set m. covers k' \<longrightarrow> score k' \<le> s"
      by blast
    from False eq have "covers (fst kv) \<longrightarrow> score (fst kv) \<le> s"
      by auto
    with k show ?thesis by auto
  qed
qed

text \<open>
  The interface of a wildcard index: patterns that may cover a host, each with a score.  The
  provider promises that a covering pattern has a positive score and that two well-formed
  patterns which cover the same host with the same score are the same pattern.  Then the
  result of the scan does not depend on the order in which the hash map is traversed.
\<close>

locale wildcard_index =
  fixes covers :: "'k \<Rightarrow> 'h \<Rightarrow> bool" and score :: "'k \<Rightarrow> nat" and wf_key :: "'k \<Rightarrow> bool"
  assumes score_pos: "covers k h \<Longrightarrow> 0 < score k"
    and score_inj: "wf_key k \<Longrightarrow> wf_key k' \<Longrightarrow> covers k h \<Longrightarrow> covers k' h \<Longrightarrow> score k = score k' \<Longrightarrow> k = k'"
begin

lemma scan_None: "best_scan (\<lambda>k. covers k h) score m = None \<longleftrightarrow> (\<forall>k \<in> fst ` set m. \<not> covers k h)"
  by (rule best_scan_None) (rule score_pos)

lemma scan_hit:
  assumes "distinct (map fst m)" and "\<forall>k \<in> fst ` set m. wf_key k"
    and "(k, v) \<in> set m" and "covers k h" and "\<forall>k' \<in> fst ` set m. covers k' h \<longrightarrow> score k' \<le> score k"
  shows "best_scan (\<lambda>k. covers k h) score m = Some (score k, v)"
proof -
  have kin: "k \<in> fst ` set m"
    using assms(3) by (rule image_eqI [rotated]) simp
  then have "best_scan (\<lambda>k. covers k h) score m \<noteq> None"
    using assms(4) unfolding scan_None by blast
  then obtain s w where sw: "best_scan (\<lambda>k. covers k h) score m = Some (s, w)"
    by auto
  from best_scan_Some [OF sw] obtain k' where k': "(k', w) \<in> set m" "covers k' h" "score k' = s"
    "\<forall>j \<in> fst ` set m. covers j h \<longrightarrow> score j \<le> s"
    by blast
  have k'in: "k' \<in> fst ` set m"
    using k'(1) by (rule image_eqI [rotated]) simp
  have "score k = score k'"
    using assms(4,5) kin k' k'in by (metis antisym)
  with assms(2,4) k'(2) kin k'in have "k = k'"
    by (blast intro: score_inj)
  with assms(1,3) k'(1) have "v = w"
    by (metis map_of_is_SomeI option.inject)
  with sw k' \<open>k = k'\<close> show ?thesis by simp
qed

lemma scan_order_irrelevant:
  assumes "distinct (map fst m)" and "\<forall>k \<in> fst ` set m. wf_key k"
    and "distinct (map fst m')" and "set m' = set m"
  shows "best_scan (\<lambda>k. covers k h) score m' = best_scan (\<lambda>k. covers k h) score m"
proof (cases "best_scan (\<lambda>k. covers k h) score m")
  case None
  then have "best_scan (\<lambda>k. covers k h) score m' = None"
    using assms(4) by (simp add: scan_None)
  with None show ?thesis by simp
next
  case (Some p)
  obtain s v where p: "best_scan (\<lambda>k. covers k h) score m = Some (s, v)"
    using Some by (cases p) auto
  from best_scan_Some [OF p] obtain k where "(k, v) \<in> set m" "covers k h" "score k = s"
    "\<forall>j \<in> fst ` set m. covers j h \<longrightarrow> score j \<le> s"
    by blast
  then have "best_scan (\<lambda>k. covers k h) score m' = Some (score k, v)"
    using assms by (intro scan_hit) auto
  with p \<open>score k = s\<close> show ?thesis by simp
qed

end

section \<open>Operations and the invariants they keep\<close>

text \<open>
  A component with state: one operation step and an invariant it keeps.  Every sequence of
  operations then keeps the invariant.
\<close>

locale invariant_system =
  fixes step :: "'s \<Rightarrow> 'e \<Rightarrow> 's" and inv :: "'s \<Rightarrow> bool"
  assumes step_inv: "inv s \<Longrightarrow> inv (step s e)"
begin

lemma run_inv: "inv s \<Longrightarrow> inv (foldl step s es)"
  by (induction es arbitrary: s) (simp_all add: step_inv)

end

text \<open>
  A policy kept in the annotations of a Kubernetes object: writing a policy replaces the keys
  it owns, and a policy the writer can represent is read back in normal form.  Saving what was
  read is then stable and the last writer wins.
\<close>

locale annotation_codec =
  fixes store :: "('a \<Rightarrow> 'b option) \<Rightarrow> 'p \<Rightarrow> ('a \<Rightarrow> 'b option)"
    and load :: "('a \<Rightarrow> 'b option) \<Rightarrow> 'p"
    and norm :: "'p \<Rightarrow> 'p" and representable :: "'p \<Rightarrow> bool" and exempt :: "('a \<Rightarrow> 'b option) \<Rightarrow> bool"
    and keys :: "'a set"
  assumes read_write: "representable p \<Longrightarrow> \<not> exempt m \<Longrightarrow> load (store m p) = norm p"
    and write_norm: "store m (norm p) = store m p"
    and write_other: "k \<notin> keys \<Longrightarrow> store m p k = m k"
    and write_write: "store (store m p) q = store m q"
    and exempt_write: "exempt (store m p) = exempt m"
begin

lemma save_read_stable:
  assumes "representable p" and "\<not> exempt m"
  shows "store (store m p) (load (store m p)) = store m p"
  using assms by (simp add: read_write write_write write_norm)

lemma last_writer_wins:
  assumes "representable q" and "\<not> exempt m"
  shows "load (store (store m p) q) = norm q"
  using assms by (simp add: read_write write_write)

end

text \<open>A normalisation function: applying it twice is applying it once.\<close>

locale normaliser =
  fixes norm :: "'a \<Rightarrow> 'a"
  assumes norm_norm: "norm (norm x) = norm x"
begin

lemma norm_range: "x \<in> range norm \<longleftrightarrow> norm x = x"
  using norm_norm by (metis imageE rangeI)

end

end
