(* ===== verification/Rust_Str.thy ===== *)
theory Rust_Str
  imports Prelude
begin

text \<open>
  The operations of Rust's \<^verbatim>\<open>str\<close> and \<^verbatim>\<open>String\<close> that the sources call.  A string is the list of its
  UTF-8 bytes as characters; \<^verbatim>\<open>trim\<close> therefore removes the multi-byte encodings of the Unicode
  white-space characters as well.  The lower-case mapping is written out for ASCII; for other
  strings it is the Unicode table \<^verbatim>\<open>u\<close>, a parameter of the definitions that use it.  Decimal
  parsing and printing follow \<^verbatim>\<open>uN::from_str\<close> and \<^verbatim>\<open>Display\<close>, and byte strings are lists of
  8-bit words with the UTF-8 validity check of \<^verbatim>\<open>std::str::from_utf8\<close>.
\<close>

abbreviation code :: "char \<Rightarrow> nat" where
  "code c \<equiv> of_char c"

section \<open>Character classes and ASCII case\<close>

definition is_ascii_char :: "char \<Rightarrow> bool" where
  "is_ascii_char c \<longleftrightarrow> code c < 128"

definition is_ascii :: "string \<Rightarrow> bool" where
  "is_ascii s \<longleftrightarrow> list_all is_ascii_char s"

definition is_upper :: "char \<Rightarrow> bool" where
  "is_upper c \<longleftrightarrow> 65 \<le> code c \<and> code c \<le> 90"

definition is_lower :: "char \<Rightarrow> bool" where
  "is_lower c \<longleftrightarrow> 97 \<le> code c \<and> code c \<le> 122"

definition is_digit :: "char \<Rightarrow> bool" where
  "is_digit c \<longleftrightarrow> 48 \<le> code c \<and> code c \<le> 57"

definition is_alphanumeric :: "char \<Rightarrow> bool" where
  "is_alphanumeric c \<longleftrightarrow> is_upper c \<or> is_lower c \<or> is_digit c"

fun set_bit5 :: "bool \<Rightarrow> char \<Rightarrow> char" where
  "set_bit5 b (Char b0 b1 b2 b3 b4 b5 b6 b7) = Char b0 b1 b2 b3 b4 b b6 b7"

definition lower_char :: "char \<Rightarrow> char" where
  "lower_char c = (if is_upper c then set_bit5 True c else c)"

definition upper_char :: "char \<Rightarrow> char" where
  "upper_char c = (if is_lower c then set_bit5 False c else c)"

definition to_ascii_lowercase :: "string \<Rightarrow> string" where
  "to_ascii_lowercase s = map lower_char s"

definition to_ascii_uppercase :: "string \<Rightarrow> string" where
  "to_ascii_uppercase s = map upper_char s"

definition eq_ignore_ascii_case :: "string \<Rightarrow> string \<Rightarrow> bool" where
  "eq_ignore_ascii_case s t \<longleftrightarrow> to_ascii_lowercase s = to_ascii_lowercase t"

definition to_lowercase :: "(string \<Rightarrow> string) \<Rightarrow> string \<Rightarrow> string" where
  "to_lowercase u s = (if is_ascii s then to_ascii_lowercase s else u s)"

section \<open>White space\<close>

definition ws1 :: "char \<Rightarrow> bool" where
  "ws1 c \<longleftrightarrow> 9 \<le> code c \<and> code c \<le> 13 \<or> code c = 32"

definition ws2 :: "char \<Rightarrow> char \<Rightarrow> bool" where
  "ws2 a b \<longleftrightarrow> code a = 194 \<and> (code b = 133 \<or> code b = 160)"

definition ws3 :: "char \<Rightarrow> char \<Rightarrow> char \<Rightarrow> bool" where
  "ws3 a b c \<longleftrightarrow>
     code a = 225 \<and> code b = 154 \<and> code c = 128 \<or>
     code a = 226 \<and> code b = 128 \<and> (128 \<le> code c \<and> code c \<le> 138 \<or> code c \<in> {168, 169, 175}) \<or>
     code a = 226 \<and> code b = 129 \<and> code c = 159 \<or>
     code a = 227 \<and> code b = 128 \<and> code c = 128"

fun trim_start :: "string \<Rightarrow> string" where
  "trim_start [] = []"
| "trim_start [a] = (if ws1 a then [] else [a])"
| "trim_start [a, b] = (if ws1 a then trim_start [b] else if ws2 a b then [] else [a, b])"
| "trim_start (a # b # c # s) =
     (if ws1 a then trim_start (b # c # s)
      else if ws2 a b then trim_start (c # s)
      else if ws3 a b c then trim_start s
      else a # b # c # s)"

fun trim_rev :: "string \<Rightarrow> string" where
  "trim_rev [] = []"
| "trim_rev [a] = (if ws1 a then [] else [a])"
| "trim_rev [a, b] = (if ws1 a then trim_rev [b] else if ws2 b a then [] else [a, b])"
| "trim_rev (a # b # c # s) =
     (if ws1 a then trim_rev (b # c # s)
      else if ws2 b a then trim_rev (c # s)
      else if ws3 c b a then trim_rev s
      else a # b # c # s)"

definition trim_end :: "string \<Rightarrow> string" where
  "trim_end s = rev (trim_rev (rev s))"

definition trim :: "string \<Rightarrow> string" where
  "trim s = trim_end (trim_start s)"

definition trim_matches :: "(char \<Rightarrow> bool) \<Rightarrow> string \<Rightarrow> string" where
  "trim_matches P s = rev (dropWhile P (rev (dropWhile P s)))"

definition trim_start_matches :: "char \<Rightarrow> string \<Rightarrow> string" where
  "trim_start_matches c s = dropWhile (\<lambda>d. d = c) s"

definition trim_end_matches :: "char \<Rightarrow> string \<Rightarrow> string" where
  "trim_end_matches c s = rev (dropWhile (\<lambda>d. d = c) (rev s))"

section \<open>Searching and splitting\<close>

definition starts_with :: "string \<Rightarrow> string \<Rightarrow> bool" where
  "starts_with s p \<longleftrightarrow> take (length p) s = p"

definition ends_with :: "string \<Rightarrow> string \<Rightarrow> bool" where
  "ends_with s p \<longleftrightarrow> length p \<le> length s \<and> drop (length s - length p) s = p"

definition strip_prefix :: "string \<Rightarrow> string \<Rightarrow> string option" where
  "strip_prefix p s = (if starts_with s p then Some (drop (length p) s) else None)"

definition strip_suffix :: "string \<Rightarrow> string \<Rightarrow> string option" where
  "strip_suffix p s = (if ends_with s p then Some (take (length s - length p) s) else None)"

fun find_str :: "string \<Rightarrow> string \<Rightarrow> nat option" where
  "find_str p [] = (if p = [] then Some 0 else None)"
| "find_str p (c # s) =
     (if starts_with (c # s) p then Some 0 else map_option Suc (find_str p s))"

definition contains_str :: "string \<Rightarrow> string \<Rightarrow> bool" where
  "contains_str s p \<longleftrightarrow> find_str p s \<noteq> None"

definition split_once_str :: "string \<Rightarrow> string \<Rightarrow> (string \<times> string) option" where
  "split_once_str p s = map_option (\<lambda>i. (take i s, drop (i + length p) s)) (find_str p s)"

fun split_on :: "(char \<Rightarrow> bool) \<Rightarrow> string \<Rightarrow> string list" where
  "split_on P [] = [[]]"
| "split_on P (c # s) =
     (if P c then [] # split_on P s
      else (case split_on P s of [] \<Rightarrow> [[c]] | w # ws \<Rightarrow> (c # w) # ws))"

definition before :: "char \<Rightarrow> string \<Rightarrow> string" where
  "before c s = takeWhile (\<lambda>d. d \<noteq> c) s"

definition split_once :: "char \<Rightarrow> string \<Rightarrow> (string \<times> string) option" where
  "split_once c s = (if c \<in> set s then Some (before c s, drop (Suc (length (before c s))) s) else None)"

definition rsplit_once :: "char \<Rightarrow> string \<Rightarrow> (string \<times> string) option" where
  "rsplit_once c s = map_option (\<lambda>(r, l). (rev l, rev r)) (split_once c (rev s))"

definition strip_cr :: "string \<Rightarrow> string" where
  "strip_cr w = (if ends_with w [CHR 0x0D] then butlast w else w)"

definition str_lines :: "string \<Rightarrow> string list" where
  "str_lines s =
     (let ws = split_on (\<lambda>c. c = CHR 0x0A) s
      in map strip_cr (butlast ws) @ (if last ws = [] then [] else [last ws]))"

definition path_file_name :: "string \<Rightarrow> string option" where
  "path_file_name s =
     (let comps = filter (\<lambda>c. c \<noteq> [] \<and> c \<noteq> ''.'') (split_on (\<lambda>c. c = CHR ''/'') s)
      in if comps = [] \<or> last comps = ''..'' then None else Some (last comps))"

definition replace_char :: "char \<Rightarrow> char \<Rightarrow> string \<Rightarrow> string" where
  "replace_char c d s = map (\<lambda>x. if x = c then d else x) s"

fun join :: "string \<Rightarrow> string list \<Rightarrow> string" where
  "join sep [] = []"
| "join sep [w] = w"
| "join sep (w # v # ws) = w @ sep @ join sep (v # ws)"

section \<open>Decimal numbers\<close>

definition digit_char :: "nat \<Rightarrow> char" where
  "digit_char d = ''0123456789abcdef'' ! d"

definition digit_val :: "char \<Rightarrow> nat" where
  "digit_val c = code c - 48"

fun show_nat :: "nat \<Rightarrow> string" where
  "show_nat n = (if n < 10 then [digit_char n] else show_nat (n div 10) @ [digit_char (n mod 10)])"

declare show_nat.simps [simp del]

definition digits_val :: "string \<Rightarrow> nat" where
  "digits_val s = foldl (\<lambda>n c. 10 * n + digit_val c) 0 s"

definition parse_digits :: "string \<Rightarrow> nat option" where
  "parse_digits s = (if s \<noteq> [] \<and> list_all is_digit s then Some (digits_val s) else None)"

definition parse_bounded :: "nat \<Rightarrow> string \<Rightarrow> nat option" where
  "parse_bounded bound s =
     filter_opt (\<lambda>n. n < bound)
       (parse_digits (case s of c # t \<Rightarrow> if c = CHR ''+'' then t else s | [] \<Rightarrow> []))"

definition parse_word :: "string \<Rightarrow> 'a::len word option" where
  "parse_word s = map_option of_nat (parse_bounded (2 ^ LENGTH('a)) s)"

definition show_word :: "'a::len word \<Rightarrow> string" where
  "show_word w = show_nat (unat w)"

section \<open>Byte strings\<close>

definition as_bytes :: "string \<Rightarrow> bytes" where
  "as_bytes s = map of_char s"

definition bytes_str :: "bytes \<Rightarrow> string" where
  "bytes_str bs = map (\<lambda>b. char_of (unat b)) bs"

definition cont_byte :: "char \<Rightarrow> bool" where
  "cont_byte c \<longleftrightarrow> 128 \<le> code c \<and> code c \<le> 191"

definition second_3 :: "char \<Rightarrow> char \<Rightarrow> bool" where
  "second_3 a b \<longleftrightarrow> cont_byte b \<and>
     (code a = 224 \<and> 160 \<le> code b \<or> 225 \<le> code a \<and> code a \<le> 236 \<or>
      code a = 237 \<and> code b \<le> 159 \<or> 238 \<le> code a \<and> code a \<le> 239)"

definition second_4 :: "char \<Rightarrow> char \<Rightarrow> bool" where
  "second_4 a b \<longleftrightarrow> cont_byte b \<and>
     (code a = 240 \<and> 144 \<le> code b \<or> 241 \<le> code a \<and> code a \<le> 243 \<or>
      code a = 244 \<and> code b \<le> 143)"

definition replacement :: string where
  "replacement = [CHR 0xEF, CHR 0xBF, CHR 0xBD]"

definition holds_at :: "(char \<Rightarrow> bool) \<Rightarrow> nat \<Rightarrow> string \<Rightarrow> bool" where
  "holds_at P i s \<longleftrightarrow> i < length s \<and> P (s ! i)"

definition utf8_step :: "string \<Rightarrow> bool \<times> nat" where
  "utf8_step s =
     (let a = hd s in
      if code a < 128 then (True, 1)
      else if 194 \<le> code a \<and> code a \<le> 223 then
        (if holds_at cont_byte 1 s then (True, 2) else (False, 1))
      else if 224 \<le> code a \<and> code a \<le> 239 then
        (if \<not> holds_at (second_3 a) 1 s then (False, 1)
         else if holds_at cont_byte 2 s then (True, 3) else (False, 2))
      else if 240 \<le> code a \<and> code a \<le> 244 then
        (if \<not> holds_at (second_4 a) 1 s then (False, 1)
         else if \<not> holds_at cont_byte 2 s then (False, 2)
         else if holds_at cont_byte 3 s then (True, 4) else (False, 3))
      else (False, 1))"

lemma utf8_step_pos: "0 < snd (utf8_step s)"
  by (simp add: utf8_step_def Let_def)

function utf8_ok :: "string \<Rightarrow> bool" where
  "utf8_ok s = (if s = [] then True else fst (utf8_step s) \<and> utf8_ok (drop (snd (utf8_step s)) s))"
  by pat_completeness auto
termination
  by (relation "measure length") (simp_all add: utf8_step_pos)

function utf8_lossy :: "string \<Rightarrow> string" where
  "utf8_lossy s =
     (if s = [] then []
      else (if fst (utf8_step s) then take (snd (utf8_step s)) s else replacement)
             @ utf8_lossy (drop (snd (utf8_step s)) s))"
  by pat_completeness auto
termination
  by (relation "measure length") (simp_all add: utf8_step_pos)

declare utf8_ok.simps [simp del] utf8_lossy.simps [simp del]

definition from_utf8 :: "bytes \<Rightarrow> string option" where
  "from_utf8 bs = (if utf8_ok (bytes_str bs) then Some (bytes_str bs) else None)"

section \<open>Lemmas on characters\<close>

lemmas char_class_defs [run] =
  is_ascii_char_def is_upper_def is_lower_def is_digit_def is_alphanumeric_def ws1_def ws2_def ws3_def
  lower_char_def upper_char_def

lemmas string_op_defs [run] =
  to_ascii_lowercase_def to_ascii_uppercase_def eq_ignore_ascii_case_def trim_end_def trim_def
  trim_matches_def trim_start_matches_def trim_end_matches_def starts_with_def ends_with_def
  strip_prefix_def strip_suffix_def contains_str_def split_once_str_def before_def split_once_def
  rsplit_once_def strip_cr_def str_lines_def path_file_name_def replace_char_def digit_char_def
  digit_val_def show_nat.simps digits_val_def parse_digits_def parse_bounded_def parse_word_def
  show_word_def

lemma code_Char:
  "code (Char b0 b1 b2 b3 b4 b5 b6 b7) = of_bool b0 + 2 * of_bool b1 + 4 * of_bool b2 + 8 * of_bool b3
     + 16 * of_bool b4 + 32 * of_bool b5 + 64 * of_bool b6 + 128 * of_bool b7"
  by (simp add: of_char_def)

lemma of_bool_le_1: "of_bool b \<le> (1::nat)"
  by simp

lemma code_lower_char: "code (lower_char c) = (if is_upper c then code c + 32 else code c)"
proof (cases c)
  case (Char b0 b1 b2 b3 b4 b5 b6 b7)
  show ?thesis
    using of_bool_le_1 [of b0] of_bool_le_1 [of b1] of_bool_le_1 [of b2] of_bool_le_1 [of b3] of_bool_le_1 [of b4]
    unfolding Char lower_char_def is_upper_def code_Char
    by (cases b5; cases b6; cases b7) (simp_all only: set_bit5.simps code_Char of_bool_eq split: if_split, linarith+)
qed

lemma code_upper_char: "code (upper_char c) = (if is_lower c then code c - 32 else code c)"
proof (cases c)
  case (Char b0 b1 b2 b3 b4 b5 b6 b7)
  show ?thesis
    using of_bool_le_1 [of b0] of_bool_le_1 [of b1] of_bool_le_1 [of b2] of_bool_le_1 [of b3] of_bool_le_1 [of b4]
    unfolding Char upper_char_def is_lower_def code_Char
    by (cases b5; cases b6; cases b7) (simp_all only: set_bit5.simps code_Char of_bool_eq split: if_split, linarith+)
qed

lemma code_inj: "code c = code d \<Longrightarrow> c = d"
  by simp

lemma code_less_256: "code c < 256"
  by (rule nat_of_char_less_256)

lemma lower_char_idem [simp]: "lower_char (lower_char c) = lower_char c"
  by (rule code_inj) (auto simp: code_lower_char is_upper_def)

lemma lower_char_not_upper [simp]: "\<not> is_upper (lower_char c)"
  by (auto simp: is_upper_def code_lower_char)

lemma upper_char_idem [simp]: "upper_char (upper_char c) = upper_char c"
  by (rule code_inj) (auto simp: code_upper_char is_lower_def)

lemma lower_upper_char [simp]: "lower_char (upper_char c) = lower_char c"
  by (rule code_inj) (auto simp: code_upper_char code_lower_char is_lower_def is_upper_def)

lemma lower_char_id: "\<not> is_upper c \<Longrightarrow> lower_char c = c"
  by (simp add: lower_char_def)

lemma lower_char_eq_iff: "\<not> is_lower d \<Longrightarrow> \<not> is_upper d \<Longrightarrow> lower_char c = d \<longleftrightarrow> c = d"
  using code_lower_char [of c] by (auto simp: is_lower_def is_upper_def lower_char_def)

lemma is_ascii_char_lower [simp]: "is_ascii_char (lower_char c) = is_ascii_char c"
  by (auto simp: is_ascii_char_def code_lower_char is_upper_def)

lemma ws_lower_char [simp]:
  "ws1 (lower_char a) = ws1 a"
  "ws2 (lower_char a) (lower_char b) = ws2 a b"
  "ws3 (lower_char a) (lower_char b) (lower_char c) = ws3 a b c"
  by (auto simp: ws1_def ws2_def ws3_def code_lower_char is_upper_def)

lemma is_ascii_simps [simp]:
  "is_ascii []" "is_ascii (c # s) \<longleftrightarrow> is_ascii_char c \<and> is_ascii s"
  "is_ascii (s @ t) \<longleftrightarrow> is_ascii s \<and> is_ascii t"
  by (simp_all add: is_ascii_def)

lemma is_ascii_lower [simp]: "is_ascii (to_ascii_lowercase s) = is_ascii s"
  by (induction s) (simp_all add: to_ascii_lowercase_def)

lemma to_ascii_lowercase_idem [simp]:
  "to_ascii_lowercase (to_ascii_lowercase s) = to_ascii_lowercase s"
  by (simp add: to_ascii_lowercase_def)

lemma to_ascii_lowercase_simps [simp]:
  "to_ascii_lowercase [] = []"
  "to_ascii_lowercase (c # s) = lower_char c # to_ascii_lowercase s"
  "to_ascii_lowercase (s @ t) = to_ascii_lowercase s @ to_ascii_lowercase t"
  "length (to_ascii_lowercase s) = length s"
  "to_ascii_lowercase s = [] \<longleftrightarrow> s = []"
  by (simp_all add: to_ascii_lowercase_def)

lemma to_ascii_lowercase_id: "list_all (\<lambda>c. \<not> is_upper c) s \<Longrightarrow> to_ascii_lowercase s = s"
  by (induction s) (simp_all add: lower_char_id)

lemma to_ascii_lowercase_fix: "to_ascii_lowercase s = s \<longleftrightarrow> list_all (\<lambda>c. \<not> is_upper c) s"
  by (induction s) (auto simp: lower_char_id dest: arg_cong [where f = is_upper])

lemma to_lowercase_ascii [simp]: "is_ascii s \<Longrightarrow> to_lowercase u s = to_ascii_lowercase s"
  by (simp add: to_lowercase_def)

section \<open>Lemmas on white space\<close>

definition ws_head :: "string \<Rightarrow> bool" where
  "ws_head s = (case s of [] \<Rightarrow> False | [a] \<Rightarrow> ws1 a | [a, b] \<Rightarrow> ws1 a \<or> ws2 a b
     | a # b # c # t \<Rightarrow> ws1 a \<or> ws2 a b \<or> ws3 a b c)"

definition ws_last :: "string \<Rightarrow> bool" where
  "ws_last s = (case rev s of [] \<Rightarrow> False | [a] \<Rightarrow> ws1 a | [a, b] \<Rightarrow> ws1 a \<or> ws2 b a
     | a # b # c # t \<Rightarrow> ws1 a \<or> ws2 b a \<or> ws3 c b a)"

lemma suffix_trim_start: "suffix (trim_start s) s"
  by (induction s rule: trim_start.induct) (auto intro: suffix_ConsI)

lemma suffix_trim_rev: "suffix (trim_rev s) s"
  by (induction s rule: trim_rev.induct) (auto intro: suffix_ConsI)

lemma prefix_trim_end: "prefix (trim_end s) s"
  using suffix_trim_rev [of "rev s"] by (simp add: trim_end_def suffix_to_prefix)

lemma trim_start_clean: "\<not> ws_head (trim_start s)"
  by (induction s rule: trim_start.induct) (auto simp: ws_head_def)

lemma trim_start_id: "\<not> ws_head s \<Longrightarrow> trim_start s = s"
  by (cases s rule: trim_start.cases) (auto simp: ws_head_def)

lemma trim_end_clean: "\<not> ws_last (trim_end s)"
proof -
  have "\<not> ws_last (rev (trim_rev t))" for t
    by (induction t rule: trim_rev.induct) (auto simp: ws_last_def)
  then show ?thesis by (simp add: trim_end_def)
qed

lemma trim_end_id: "\<not> ws_last s \<Longrightarrow> trim_end s = s"
proof -
  have "\<not> ws_last (rev t) \<Longrightarrow> trim_rev t = t" for t
    by (cases t rule: trim_rev.cases) (auto simp: ws_last_def)
  from this [of "rev s"] show "\<not> ws_last s \<Longrightarrow> trim_end s = s"
    by (simp add: trim_end_def)
qed

lemma ws_head_prefix: "prefix t s \<Longrightarrow> ws_head t \<Longrightarrow> ws_head s"
  by (cases t rule: trim_start.cases; cases s rule: trim_start.cases) (auto simp: ws_head_def)

lemma trim_idem [simp]: "trim (trim s) = trim s"
proof -
  have "\<not> ws_head (trim s)"
    unfolding trim_def using prefix_trim_end trim_start_clean ws_head_prefix by blast
  moreover have "\<not> ws_last (trim s)"
    unfolding trim_def by (rule trim_end_clean)
  ultimately show ?thesis
    by (simp add: trim_def [of "trim s"] trim_start_id trim_end_id)
qed

lemma trim_id: "\<not> ws_head s \<Longrightarrow> \<not> ws_last s \<Longrightarrow> trim s = s"
  by (simp add: trim_def trim_start_id trim_end_id)

lemma visible_trim: "(\<And>c. c \<in> set s \<Longrightarrow> 33 \<le> code c \<and> code c < 128) \<Longrightarrow> trim s = s"
proof (rule trim_id)
  assume vis: "\<And>c. c \<in> set s \<Longrightarrow> 33 \<le> code c \<and> code c < 128"
  then show "\<not> ws_head s"
    by (cases s rule: trim_start.cases) (fastforce simp: ws_head_def ws1_def ws2_def ws3_def)+
  have "\<And>c. c \<in> set (rev s) \<Longrightarrow> 33 \<le> code c \<and> code c < 128"
    using vis by simp
  then show "\<not> ws_last s"
    unfolding ws_last_def
    by (cases "rev s" rule: trim_start.cases) (fastforce simp: ws1_def ws2_def ws3_def)+
qed

lemma trim_fix: "trim s = s \<longleftrightarrow> \<not> ws_head s \<and> \<not> ws_last s"
proof
  assume "trim s = s"
  then have "prefix s (trim_start s)"
    using prefix_trim_end [of "trim_start s"] by (simp add: trim_def)
  then show "\<not> ws_head s \<and> \<not> ws_last s"
    using \<open>trim s = s\<close> trim_start_clean ws_head_prefix trim_end_clean
    unfolding trim_def by metis
qed (simp add: trim_id)

lemma trim_Nil [simp]: "trim [] = []"
  by (simp add: trim_def trim_end_def)

lemma trim_lower [simp]: "trim (to_ascii_lowercase s) = to_ascii_lowercase (trim s)"
proof -
  have 1: "trim_start (map lower_char t) = map lower_char (trim_start t)" for t
    by (induction t rule: trim_start.induct) auto
  have 2: "trim_rev (map lower_char t) = map lower_char (trim_rev t)" for t
    by (induction t rule: trim_rev.induct) auto
  show ?thesis
    by (simp add: trim_def trim_end_def to_ascii_lowercase_def 1 2 rev_map)
qed

lemma code_upper_char_ws [simp]:
  "ws1 (upper_char a) = ws1 a"
  "ws2 (upper_char a) (upper_char b) = ws2 a b"
  "ws3 (upper_char a) (upper_char b) (upper_char c) = ws3 a b c"
  by (auto simp: ws1_def ws2_def ws3_def code_upper_char is_lower_def)

lemma to_ascii_uppercase_simps [simp]:
  "to_ascii_uppercase [] = []"
  "to_ascii_uppercase (to_ascii_uppercase s) = to_ascii_uppercase s"
  "to_ascii_uppercase s = [] \<longleftrightarrow> s = []"
  by (simp_all add: to_ascii_uppercase_def)

lemma trim_upper [simp]: "trim (to_ascii_uppercase s) = to_ascii_uppercase (trim s)"
proof -
  have 1: "trim_start (map upper_char t) = map upper_char (trim_start t)" for t
    by (induction t rule: trim_start.induct) auto
  have 2: "trim_rev (map upper_char t) = map upper_char (trim_rev t)" for t
    by (induction t rule: trim_rev.induct) auto
  show ?thesis
    by (simp add: trim_def trim_end_def to_ascii_uppercase_def 1 2 rev_map)
qed

lemma sublist_trim: "sublist (trim s) s"
  unfolding trim_def
  by (meson prefix_imp_sublist prefix_trim_end sublist_order.order_trans suffix_imp_sublist suffix_trim_start)

lemma is_ascii_trim: "is_ascii s \<Longrightarrow> is_ascii (trim s)"
  using set_mono_sublist [OF sublist_trim [of s]] by (auto simp: is_ascii_def list_all_iff)

section \<open>Lemmas on searching and splitting\<close>

lemma starts_with_prefix: "starts_with s p \<longleftrightarrow> prefix p s"
  by (metis append_eq_conv_conj prefix_def starts_with_def take_is_prefix)

lemma starts_with_code [simp]:
  "starts_with s []" "\<not> starts_with [] (c # p)"
  "starts_with (d # s) (c # p) \<longleftrightarrow> d = c \<and> starts_with s p"
  by (auto simp: starts_with_prefix)

lemma starts_with_append [simp]: "starts_with (p @ s) p"
  by (simp add: starts_with_prefix)

lemma ends_with_suffix: "ends_with s p \<longleftrightarrow> suffix p s"
proof
  assume "ends_with s p"
  then have "s = take (length s - length p) s @ p"
    unfolding ends_with_def by (metis append_take_drop_id)
  then show "suffix p s" unfolding suffix_def ..
qed (auto simp: ends_with_def suffix_def)

lemma ends_with_append [simp]: "ends_with (s @ p) p"
  by (simp add: ends_with_suffix suffix_def)

lemma strip_prefix_Some: "strip_prefix p s = Some t \<longleftrightarrow> s = p @ t"
  by (auto simp: strip_prefix_def starts_with_prefix prefix_def)

lemma strip_prefix_append [simp]: "strip_prefix p (p @ t) = Some t"
  by (simp add: strip_prefix_Some)

lemma strip_suffix_Some: "strip_suffix p s = Some t \<longleftrightarrow> s = t @ p"
  by (auto simp: strip_suffix_def ends_with_suffix suffix_def)

lemma find_str_Some:
  "find_str p s = Some i \<Longrightarrow> s = take i s @ p @ drop (i + length p) s"
proof (induction s arbitrary: i)
  case (Cons c s)
  then show ?case
    by (auto simp: starts_with_prefix prefix_def split: if_splits)
qed (auto split: if_splits)

lemma contains_str_sublist: "contains_str s p \<longleftrightarrow> sublist p s"
proof (induction s)
  case (Cons c s)
  then show ?case
    by (auto simp: contains_str_def starts_with_prefix sublist_Cons_right)
qed (simp add: contains_str_def)

lemma contains_str_append: "contains_str (a @ p @ b) p"
  by (auto simp: contains_str_sublist sublist_def)

lemma split_on_not_Nil [simp]: "split_on P s \<noteq> []"
  by (induction s) (auto split: list.splits)

lemma split_on_none: "\<forall>c \<in> set s. \<not> P c \<Longrightarrow> split_on P s = [s]"
  by (induction s) auto

lemma split_on_append:
  "\<forall>c \<in> set a. \<not> P c \<Longrightarrow> P d \<Longrightarrow> split_on P (a @ d # s) = a # split_on P s"
  by (induction a) auto

lemma split_on_clean: "w \<in> set (split_on P s) \<Longrightarrow> c \<in> set w \<Longrightarrow> \<not> P c"
proof (induction s arbitrary: w)
  case (Cons d s)
  then show ?case
    by (fastforce split: if_splits list.splits)
qed simp

lemma split_on_subset: "w \<in> set (split_on P s) \<Longrightarrow> set w \<subseteq> set s"
proof (induction s arbitrary: w)
  case (Cons d s)
  then show ?case
    by (fastforce split: if_splits list.splits)
qed simp

lemma split_on_join:
  assumes "P c" and "ws \<noteq> []" and "\<forall>w \<in> set ws. \<forall>d \<in> set w. \<not> P d"
  shows "split_on P (join [c] ws) = ws"
  using assms(2,3)
proof (induction ws rule: induct_list012)
  case (2 w)
  then show ?case by (simp add: split_on_none)
next
  case (3 w v ws)
  then show ?case by (simp add: split_on_append assms(1))
qed simp

lemma join_Cons_Cons: "join [c] ((d # w) # ws) = d # join [c] (w # ws)"
  by (cases ws) simp_all

lemma join_split_on: "join [c] (split_on (\<lambda>d. d = c) s) = s"
proof (induction s)
  case (Cons d s)
  obtain w ws where "split_on (\<lambda>d. d = c) s = w # ws"
    by (cases "split_on (\<lambda>d. d = c) s") auto
  with Cons show ?case
    by (auto simp: join_Cons_Cons)
qed simp

lemma before_notin: "c \<notin> set (before c s)"
  by (auto simp: before_def dest: set_takeWhileD)

lemma before_append: "c \<notin> set a \<Longrightarrow> before c (a @ c # b) = a"
  by (auto simp: before_def takeWhile_append)

lemma before_none: "c \<notin> set a \<Longrightarrow> before c a = a"
  by (auto simp: before_def takeWhile_eq_all_conv)

lemma before_split_on: "before c s = hd (split_on (\<lambda>d. d = c) s)"
  by (induction s) (auto simp: before_def split: list.splits)

lemma split_once_Some: "split_once c s = Some (a, b) \<longleftrightarrow> s = a @ c # b \<and> c \<notin> set a"
proof
  assume "split_once c s = Some (a, b)"
  then have c: "c \<in> set s" and a: "a = before c s" and b: "b = drop (Suc (length a)) s"
    by (auto simp: split_once_def split: if_splits)
  from c obtain xs ys where s: "s = xs @ c # ys" "c \<notin> set xs"
    by (metis split_list_first)
  then have "a = xs" "b = ys"
    by (simp_all add: a b before_append)
  with s show "s = a @ c # b \<and> c \<notin> set a" by simp
qed (auto simp: split_once_def before_append)

lemma split_once_None: "split_once c s = None \<longleftrightarrow> c \<notin> set s"
  by (simp add: split_once_def)

lemma rsplit_once_Some: "rsplit_once c s = Some (a, b) \<longleftrightarrow> s = a @ c # b \<and> c \<notin> set b"
proof -
  have "rsplit_once c s = Some (a, b) \<longleftrightarrow> split_once c (rev s) = Some (rev b, rev a)"
    by (auto simp: rsplit_once_def)
  also have "\<dots> \<longleftrightarrow> s = a @ c # b \<and> c \<notin> set b"
    by (auto simp: split_once_Some rev_swap)
  finally show ?thesis .
qed

lemma rsplit_once_None: "rsplit_once c s = None \<longleftrightarrow> c \<notin> set s"
  by (simp add: rsplit_once_def split_once_None)

section \<open>Lemmas on decimal numbers\<close>

lemma digit_cases: "(d::nat) < 10 \<Longrightarrow> d \<in> {0, 1, 2, 3, 4, 5, 6, 7, 8, 9}"
  by auto

lemma digit_char_props:
  "d < 10 \<Longrightarrow> is_digit (digit_char d) \<and> digit_val (digit_char d) = d"
  using digit_cases [of d] by (auto simp: digit_char_def is_digit_def digit_val_def)

lemma show_nat_digits: "list_all is_digit (show_nat n) \<and> show_nat n \<noteq> []"
proof (induction n rule: show_nat.induct)
  case (1 n)
  then show ?case
    by (subst (1 2) show_nat.simps) (simp add: digit_char_props)
qed

lemma digits_val_show_nat: "digits_val (show_nat n) = n"
proof (induction n rule: show_nat.induct)
  case (1 n)
  then show ?case
    by (subst show_nat.simps) (auto simp: digits_val_def digit_char_props)
qed

lemma parse_digits_show_nat [simp]: "parse_digits (show_nat n) = Some n"
  by (simp add: parse_digits_def show_nat_digits digits_val_show_nat)

lemma show_nat_inj: "show_nat m = show_nat n \<longleftrightarrow> m = n"
  by (metis digits_val_show_nat)

lemma parse_bounded_show_nat: "parse_bounded b (show_nat n) = (if n < b then Some n else None)"
proof -
  obtain c t where ct: "show_nat n = c # t" and d: "is_digit c"
    using show_nat_digits [of n] by (cases "show_nat n") auto
  have "c \<noteq> CHR ''+''"
    using d by (auto simp: is_digit_def)
  then have "(case show_nat n of c # t \<Rightarrow> if c = CHR ''+'' then t else show_nat n | [] \<Rightarrow> []) = show_nat n"
    by (simp add: ct)
  then show ?thesis
    unfolding parse_bounded_def by simp
qed

lemma parse_bounded_less: "parse_bounded b s = Some n \<Longrightarrow> n < b"
  by (simp add: parse_bounded_def)

lemma parse_word_show_word [simp]: "parse_word (show_word w) = Some w"
  for w :: "'a::len word"
  using unsigned_less [of w, where ?'a = nat]
  by (simp add: parse_word_def show_word_def parse_bounded_show_nat)

lemma show_word_digits: "list_all is_digit (show_word w)" "show_word w \<noteq> []"
  by (simp_all add: show_word_def show_nat_digits)

lemma digit_notin_show_word: "\<not> is_digit c \<Longrightarrow> c \<notin> set (show_word w)"
  using show_word_digits(1) [of w] by (auto simp: list_all_iff)

section \<open>Lemmas on byte strings\<close>

lemma unat_of_char: "unat (of_char c :: 8 word) = code c"
proof -
  have "(of_char c :: 8 word) = of_nat (code c)"
    by (cases c) (simp add: of_char_def)
  then show ?thesis
    using code_less_256 [of c] by (simp add: unat_of_nat)
qed

lemma bytes_str_as_bytes [simp]: "bytes_str (as_bytes s) = s"
  by (induction s) (simp_all add: bytes_str_def as_bytes_def unat_of_char)

lemma as_bytes_simps [simp]:
  "as_bytes [] = []" "as_bytes (c # s) = of_char c # as_bytes s"
  "as_bytes (s @ t) = as_bytes s @ as_bytes t" "length (as_bytes s) = length s"
  by (simp_all add: as_bytes_def)

lemma as_bytes_inj: "as_bytes s = as_bytes t \<longleftrightarrow> s = t"
  by (metis bytes_str_as_bytes)

lemma utf8_step_ascii: "code a < 128 \<Longrightarrow> utf8_step (a # s) = (True, 1)"
  by (simp add: utf8_step_def)

lemma utf8_Nil [simp]: "utf8_ok []" "utf8_lossy [] = []"
  by (simp_all add: utf8_ok.simps [of "[]"] utf8_lossy.simps [of "[]"])

lemma utf8_ascii_Cons:
  assumes "code a < 128"
  shows "utf8_ok (a # s) = utf8_ok s" and "utf8_lossy (a # s) = a # utf8_lossy s"
  using assms
  by (simp_all add: utf8_ok.simps [of "a # s"] utf8_lossy.simps [of "a # s"] utf8_step_ascii)

lemma utf8_ok_ascii: "is_ascii s \<Longrightarrow> utf8_ok s"
  by (induction s) (simp_all add: is_ascii_char_def utf8_ascii_Cons)

lemma from_utf8_as_bytes: "utf8_ok s \<Longrightarrow> from_utf8 (as_bytes s) = Some s"
  by (simp add: from_utf8_def)

lemma utf8_ok_lossy: "utf8_ok s \<Longrightarrow> utf8_lossy s = s"
proof (induction s rule: utf8_lossy.induct)
  case (1 s)
  then show ?case
    by (subst utf8_lossy.simps) (auto simp: utf8_ok.simps [of s])
qed

lemma utf8_step_append_ascii:
  assumes "s \<noteq> []" and "code c < 128"
  shows "utf8_step (s @ c # t) = utf8_step s \<and> snd (utf8_step s) \<le> length s"
proof -
  have at: "holds_at P i (s @ c # t) = holds_at P i s" if "\<not> P c" "i \<le> length s" for P i
    using that by (cases "i = length s") (auto simp: holds_at_def nth_append)
  have nc: "\<not> cont_byte c" "\<not> second_3 a c" "\<not> second_4 a c" for a
    using assms(2) by (simp_all add: cont_byte_def second_3_def second_4_def)
  have hd: "hd (s @ c # t) = hd s"
    using assms(1) by simp
  have lt: "holds_at P i s \<Longrightarrow> j \<le> i \<Longrightarrow> j < length s" for P i j
    by (simp add: holds_at_def)
  have 1: "holds_at P 1 (s @ c # t) = holds_at P 1 s" if "\<not> P c" for P
    using at [of P 1] that assms(1) by (simp add: Suc_le_eq)
  have 2: "holds_at Q 1 s \<Longrightarrow> holds_at cont_byte 2 (s @ c # t) = holds_at cont_byte 2 s" for Q
    using at [of cont_byte 2] nc lt [of Q 1 1] by simp
  have 3: "holds_at cont_byte 2 s \<Longrightarrow> holds_at cont_byte 3 (s @ c # t) = holds_at cont_byte 3 s"
    using at [of cont_byte 3] nc lt [of cont_byte 2 2] by simp
  show ?thesis
    unfolding utf8_step_def Let_def hd
    using 1 [of cont_byte] 1 [of "second_3 (hd s)"] 1 [of "second_4 (hd s)"] nc 2 [of "second_3 (hd s)"] 2 [of "second_4 (hd s)"] 3 assms(1)
      lt [of "second_3 (hd s)" 1 1] lt [of "second_4 (hd s)" 1 1]
      lt [of cont_byte 1 1] lt [of cont_byte 2 2] lt [of cont_byte 3 3]
    by (auto simp: Suc_le_eq)
qed

lemma utf8_lossy_ascii_split:
  "code c < 128 \<Longrightarrow> utf8_lossy (s @ c # t) = utf8_lossy s @ c # utf8_lossy t"
proof (induction s rule: utf8_lossy.induct)
  case (1 s)
  show ?case
  proof (cases "s = []")
    case True
    then show ?thesis by (simp add: utf8_ascii_Cons "1.prems")
  next
    case False
    from utf8_step_append_ascii [OF False "1.prems"] "1.IH" [OF False "1.prems"] False show ?thesis
      by (simp add: utf8_lossy.simps [of "s @ c # t"] utf8_lossy.simps [of s])
  qed
qed

end
