(* ===== verification/Ip.thy ===== *)
theory Ip
  imports Rust_Str
begin

text \<open>
  \<^verbatim>\<open>std::net::IpAddr\<close>: the parser behind \<^verbatim>\<open>str::parse::<IpAddr>\<close> (dotted quads without leading
  zeros; eight hexadecimal groups, one \<^verbatim>\<open>::\<close>, an embedded dotted quad), the \<^verbatim>\<open>Display\<close> output
  (lower-case groups, the first longest run of at least two zero groups compressed, IPv4-mapped
  addresses with a dotted quad), and the address classes the proxy tests.  The lemmas show that
  printing and parsing are inverse.
\<close>

datatype ip_addr = V4 u8 u8 u8 u8 | V6 "u16 list"

section \<open>Parser\<close>

definition hex_val :: "char \<Rightarrow> nat option" where
  "hex_val c =
     (if is_digit c then Some (code c - 48)
      else if 97 \<le> code c \<and> code c \<le> 102 then Some (code c - 87)
      else if 65 \<le> code c \<and> code c \<le> 70 then Some (code c - 55)
      else None)"

definition to_digit :: "nat \<Rightarrow> char \<Rightarrow> nat option" where
  "to_digit radix c = filter_opt (\<lambda>d. d < radix) (hex_val c)"

definition is_radix :: "nat \<Rightarrow> char \<Rightarrow> bool" where
  "is_radix radix c \<longleftrightarrow> to_digit radix c \<noteq> None"

definition radix_val :: "nat \<Rightarrow> string \<Rightarrow> nat" where
  "radix_val radix s = foldl (\<lambda>n c. radix * n + get_or 0 (to_digit radix c)) 0 s"

definition read_number :: "nat \<Rightarrow> nat \<Rightarrow> bool \<Rightarrow> nat \<Rightarrow> string \<Rightarrow> (nat \<times> string) option" where
  "read_number radix max_digits allow_zero_prefix bound s =
     (let ds = takeWhile (is_radix radix) s; rest = dropWhile (is_radix radix) s in
      if ds = [] \<or> max_digits < length ds then None
      else if \<not> allow_zero_prefix \<and> hd ds = CHR ''0'' \<and> 1 < length ds then None
      else if radix_val radix ds < bound then Some (radix_val radix ds, rest) else None)"

definition read_char :: "char \<Rightarrow> string \<Rightarrow> string option" where
  "read_char c s = (case s of d # t \<Rightarrow> if d = c then Some t else None | [] \<Rightarrow> None)"

definition read_octet :: "string \<Rightarrow> (u8 \<times> string) option" where
  "read_octet s = map_option (\<lambda>(n, t). (of_nat n, t)) (read_number 10 3 False 256 s)"

definition read_ipv4_addr :: "string \<Rightarrow> ((u8 \<times> u8 \<times> u8 \<times> u8) \<times> string) option" where
  "read_ipv4_addr s =
     Option.bind (read_octet s) (\<lambda>(a, s).
     Option.bind (read_char CHR ''.'' s) (\<lambda>s.
     Option.bind (read_octet s) (\<lambda>(b, s).
     Option.bind (read_char CHR ''.'' s) (\<lambda>s.
     Option.bind (read_octet s) (\<lambda>(c, s).
     Option.bind (read_char CHR ''.'' s) (\<lambda>s.
     Option.bind (read_octet s) (\<lambda>(d, s). Some ((a, b, c, d), s))))))))"

definition read_separator :: "nat \<Rightarrow> (string \<Rightarrow> 'a option) \<Rightarrow> string \<Rightarrow> 'a option" where
  "read_separator i inner s = (if 0 < i then Option.bind (read_char CHR '':'' s) inner else inner s)"

definition read_group :: "string \<Rightarrow> (u16 \<times> string) option" where
  "read_group s = map_option (\<lambda>(n, t). (of_nat n, t)) (read_number 16 4 True 65536 s)"

definition quad_groups :: "u8 \<times> u8 \<times> u8 \<times> u8 \<Rightarrow> u16 list" where
  "quad_groups q = (case q of (a, b, c, d) \<Rightarrow> [ucast a * 256 + ucast b, ucast c * 256 + ucast d])"

function read_groups :: "nat \<Rightarrow> nat \<Rightarrow> string \<Rightarrow> u16 list \<times> bool \<times> string" where
  "read_groups limit i s =
     (if limit \<le> i then ([], False, s)
      else
        (case (if i < limit - 1 then read_separator i read_ipv4_addr s else None) of
           Some (q, t) \<Rightarrow> (quad_groups q, True, t)
         | None \<Rightarrow>
             (case read_separator i read_group s of
                None \<Rightarrow> ([], False, s)
              | Some (g, t) \<Rightarrow>
                  (case read_groups limit (Suc i) t of (gs, v4, t') \<Rightarrow> (g # gs, v4, t')))))"
  by pat_completeness auto
termination by (relation "measure (\<lambda>(limit, i, _). limit - i)") auto

declare read_groups.simps [simp del]

definition read_ipv6_addr :: "string \<Rightarrow> (u16 list \<times> string) option" where
  "read_ipv6_addr s =
     (case read_groups 8 0 s of (hd_groups, head_ipv4, t) \<Rightarrow>
        if length hd_groups = 8 then Some (hd_groups, t)
        else if head_ipv4 then None
        else
          Option.bind (Option.bind (read_char CHR '':'' t) (read_char CHR '':'')) (\<lambda>t.
            (case read_groups (8 - (length hd_groups + 1)) 0 t of (tl_groups, _, t) \<Rightarrow>
               Some (hd_groups @ replicate (8 - length tl_groups - length hd_groups) 0 @ tl_groups, t))))"

definition parse_ip :: "string \<Rightarrow> ip_addr option" where
  "parse_ip s =
     (case read_ipv4_addr s of
        Some ((a, b, c, d), t) \<Rightarrow> if t = [] then Some (V4 a b c d) else None
      | None \<Rightarrow>
          (case read_ipv6_addr s of
             Some (gs, t) \<Rightarrow> if t = [] then Some (V6 gs) else None
           | None \<Rightarrow> None))"

section \<open>Printer\<close>

fun show_hex :: "nat \<Rightarrow> string" where
  "show_hex n = (if n < 16 then [digit_char n] else show_hex (n div 16) @ [digit_char (n mod 16)])"

declare show_hex.simps [simp del]

definition show_ipv4 :: "u8 \<Rightarrow> u8 \<Rightarrow> u8 \<Rightarrow> u8 \<Rightarrow> string" where
  "show_ipv4 a b c d = join ''.'' [show_word a, show_word b, show_word c, show_word d]"

fun zero_span :: "nat \<Rightarrow> nat \<times> nat \<Rightarrow> nat \<times> nat \<Rightarrow> u16 list \<Rightarrow> nat \<times> nat" where
  "zero_span i current longest [] = longest"
| "zero_span i current longest (g # gs) =
     (if g = 0 then
        let current = (if snd current = 0 then i else fst current, snd current + 1) in
        zero_span (i + 1) current (if snd longest < snd current then current else longest) gs
      else zero_span (i + 1) (0, 0) longest gs)"

definition show_groups :: "u16 list \<Rightarrow> string" where
  "show_groups gs = join '':'' (map (\<lambda>g. show_hex (unat g)) gs)"

definition to_ipv4_mapped :: "u16 list \<Rightarrow> (u8 \<times> u8 \<times> u8 \<times> u8) option" where
  "to_ipv4_mapped gs =
     (case gs of
        [g0, g1, g2, g3, g4, g5, g6, g7] \<Rightarrow>
          if g0 = 0 \<and> g1 = 0 \<and> g2 = 0 \<and> g3 = 0 \<and> g4 = 0 \<and> g5 = 65535
          then Some (ucast (drop_bit 8 g6), ucast g6, ucast (drop_bit 8 g7), ucast g7) else None
      | _ \<Rightarrow> None)"

definition show_ipv6 :: "u16 list \<Rightarrow> string" where
  "show_ipv6 gs =
     (case to_ipv4_mapped gs of
        Some (a, b, c, d) \<Rightarrow> ''::ffff:'' @ show_ipv4 a b c d
      | None \<Rightarrow>
          (case zero_span 0 (0, 0) (0, 0) gs of (start, len) \<Rightarrow>
             if 1 < len
             then show_groups (take start gs) @ ''::'' @ show_groups (drop (start + len) gs)
             else show_groups gs))"

definition show_ip :: "ip_addr \<Rightarrow> string" where
  "show_ip ip = (case ip of V4 a b c d \<Rightarrow> show_ipv4 a b c d | V6 gs \<Rightarrow> show_ipv6 gs)"

section \<open>Values and classes\<close>

definition v4_u32 :: "u8 \<Rightarrow> u8 \<Rightarrow> u8 \<Rightarrow> u8 \<Rightarrow> u32" where
  "v4_u32 a b c d = ((ucast a * 256 + ucast b) * 256 + ucast c) * 256 + ucast d"

definition v6_u128 :: "u16 list \<Rightarrow> u128" where
  "v6_u128 gs = foldl (\<lambda>n g. n * 65536 + ucast g) 0 gs"

fun v4_private :: "ip_addr \<Rightarrow> bool" where
  "v4_private (V4 a b c d) \<longleftrightarrow> a = 10 \<or> a = 172 \<and> 16 \<le> b \<and> b \<le> 31 \<or> a = 192 \<and> b = 168"
| "v4_private (V6 _) \<longleftrightarrow> False"

fun ip_loopback :: "ip_addr \<Rightarrow> bool" where
  "ip_loopback (V4 a b c d) \<longleftrightarrow> a = 127"
| "ip_loopback (V6 gs) \<longleftrightarrow> gs = [0, 0, 0, 0, 0, 0, 0, 1]"

fun ip_link_local :: "ip_addr \<Rightarrow> bool" where
  "ip_link_local (V4 a b c d) \<longleftrightarrow> a = 169 \<and> b = 254"
| "ip_link_local (V6 gs) \<longleftrightarrow> and (hd gs) 0xffc0 = 0xfe80"

fun ip_unspecified :: "ip_addr \<Rightarrow> bool" where
  "ip_unspecified (V4 a b c d) \<longleftrightarrow> a = 0 \<and> b = 0 \<and> c = 0 \<and> d = 0"
| "ip_unspecified (V6 gs) \<longleftrightarrow> gs = [0, 0, 0, 0, 0, 0, 0, 0]"

fun v4_broadcast :: "ip_addr \<Rightarrow> bool" where
  "v4_broadcast (V4 a b c d) \<longleftrightarrow> a = 255 \<and> b = 255 \<and> c = 255 \<and> d = 255"
| "v4_broadcast (V6 _) \<longleftrightarrow> False"

fun v6_unique_local :: "ip_addr \<Rightarrow> bool" where
  "v6_unique_local (V4 _ _ _ _) \<longleftrightarrow> False"
| "v6_unique_local (V6 gs) \<longleftrightarrow> and (hd gs) 0xfe00 = 0xfc00"

fun wf_ip :: "ip_addr \<Rightarrow> bool" where
  "wf_ip (V4 _ _ _ _) \<longleftrightarrow> True"
| "wf_ip (V6 gs) \<longleftrightarrow> length gs = 8"

section \<open>Numbers: printing then reading\<close>

lemmas ip_defs [run] =
  hex_val_def to_digit_def is_radix_def radix_val_def read_number_def read_char_def read_octet_def
  read_ipv4_addr_def read_separator_def read_group_def quad_groups_def read_groups.simps
  read_ipv6_addr_def parse_ip_def show_hex.simps show_ipv4_def show_groups_def to_ipv4_mapped_def
  show_ipv6_def show_ip_def v4_u32_def v6_u128_def

lemma is_radix_10: "is_radix 10 c \<longleftrightarrow> is_digit c"
  by (auto simp: is_radix_def to_digit_def hex_val_def is_digit_def filter_opt_def)

lemma to_digit_10: "is_digit c \<Longrightarrow> to_digit 10 c = Some (digit_val c)"
  by (auto simp: to_digit_def hex_val_def is_digit_def digit_val_def)

lemma hex_digit_cases: "(d::nat) < 16 \<Longrightarrow> d \<in> {0, 1, 2, 3, 4, 5, 6, 7, 8, 9, 10, 11, 12, 13, 14, 15}"
  unfolding insert_iff empty_iff by presburger

lemma to_digit_16: "d < 16 \<Longrightarrow> to_digit 16 (digit_char d) = Some d"
proof -
  have "list_all (\<lambda>d. to_digit 16 (digit_char d) = Some d) [0, 1, 2, 3, 4, 5, 6, 7, 8, 9, 10, 11, 12, 13, 14, 15]"
    by code_simp
  then show "d < 16 \<Longrightarrow> ?thesis"
    using hex_digit_cases [of d] by (simp only: list_all_iff list.set)
qed

lemma radix_val_snoc: "radix_val r (s @ [c]) = r * radix_val r s + get_or 0 (to_digit r c)"
  by (simp add: radix_val_def)

lemma show_nat_radix: "list_all (is_radix 10) (show_nat n) \<and> radix_val 10 (show_nat n) = n"
proof (induction n rule: show_nat.induct)
  case (1 n)
  show ?case
  proof (cases "n < 10")
    case True
    then show ?thesis
      by (simp add: show_nat.simps [of n] is_radix_10 to_digit_10 digit_char_props radix_val_def)
  next
    case False
    with 1 show ?thesis
      by (simp add: show_nat.simps [of n] radix_val_snoc is_radix_10 to_digit_10 digit_char_props)
  qed
qed

lemma show_hex_radix: "list_all (is_radix 16) (show_hex n) \<and> radix_val 16 (show_hex n) = n \<and> show_hex n \<noteq> []"
proof (induction n rule: show_hex.induct)
  case (1 n)
  show ?case
  proof (cases "n < 16")
    case True
    then show ?thesis
      by (simp add: show_hex.simps [of n] is_radix_def to_digit_16 radix_val_def)
  next
    case False
    with 1 show ?thesis
      by (simp add: show_hex.simps [of n] radix_val_snoc is_radix_def to_digit_16)
  qed
qed

lemma length_show_nat: "n < 10 ^ Suc k \<Longrightarrow> length (show_nat n) \<le> Suc k"
proof (induction k arbitrary: n)
  case 0
  then show ?case by (simp add: show_nat.simps [of n])
next
  case (Suc k)
  then have "n div 10 < 10 ^ Suc k"
    by (simp add: less_mult_imp_div_less)
  with Suc.IH [of "n div 10"] show ?case
    by (simp add: show_nat.simps [of n])
qed

lemma length_show_hex: "n < 16 ^ Suc k \<Longrightarrow> length (show_hex n) \<le> Suc k"
proof (induction k arbitrary: n)
  case 0
  then show ?case by (simp add: show_hex.simps [of n])
next
  case (Suc k)
  then have "n div 16 < 16 ^ Suc k"
    by (simp add: less_mult_imp_div_less)
  with Suc.IH [of "n div 16"] show ?case
    by (simp add: show_hex.simps [of n])
qed

lemma show_nat_lead: "0 < n \<Longrightarrow> hd (show_nat n) \<noteq> CHR ''0''"
proof (induction n rule: show_nat.induct)
  case (1 n)
  show ?case
  proof (cases "n < 10")
    case True
    with 1(2) digit_cases [of n] show ?thesis
      by (auto simp: show_nat.simps [of n] digit_char_def)
  next
    case False
    with 1(1) show ?thesis
      using show_nat_digits [of "n div 10"] by (simp add: show_nat.simps [of n] hd_append)
  qed
qed

lemma show_nat_no_lead: "hd (show_nat n) = CHR ''0'' \<Longrightarrow> length (show_nat n) = 1"
  using show_nat_lead [of n] by (cases "n = 0") (simp_all add: show_nat.simps [of 0])

definition stops :: "(char \<Rightarrow> bool) \<Rightarrow> string \<Rightarrow> bool" where
  "stops P s \<longleftrightarrow> s = [] \<or> \<not> P (hd s)"

lemma stops_simps [simp]: "stops P []" "stops P (c # s) \<longleftrightarrow> \<not> P c"
  by (simp_all add: stops_def)

lemma while_stops:
  assumes "list_all P s" and "stops P t"
  shows "takeWhile P (s @ t) = s" and "dropWhile P (s @ t) = t"
  using assms by (cases t; simp add: list_all_iff takeWhile_append2 dropWhile_append2; fail)+

lemma read_octet_show:
  assumes "stops is_digit t"
  shows "read_octet (show_word w @ t) = Some (w, t)"
proof -
  have r: "list_all (is_radix 10) (show_nat (unat w))" "radix_val 10 (show_nat (unat w)) = unat w"
    using show_nat_radix by blast+
  have s: "stops (is_radix 10) t"
    using assms by (auto simp: stops_def is_radix_10)
  have u: "unat w < 256"
    using unsigned_less [of w, where ?'a = nat] by simp
  then have l: "length (show_nat (unat w)) \<le> 3"
    using length_show_nat [of "unat w" 2] by simp
  from show_nat_no_lead [of "unat w"] show_nat_digits [of "unat w"] u l show ?thesis
    by (auto simp: read_octet_def read_number_def show_word_def Let_def while_stops [OF r(1) s] r(2))
qed

lemma read_group_show:
  assumes "stops (is_radix 16) t"
  shows "read_group (show_hex (unat g) @ t) = Some (g, t)"
proof -
  have r: "list_all (is_radix 16) (show_hex (unat g))" "radix_val 16 (show_hex (unat g)) = unat g"
    "show_hex (unat g) \<noteq> []"
    using show_hex_radix by blast+
  have u: "unat g < 65536"
    using unsigned_less [of g, where ?'a = nat] by simp
  then have l: "length (show_hex (unat g)) \<le> 4"
    using length_show_hex [of "unat g" 3] by simp
  from u l show ?thesis
    by (simp add: read_group_def read_number_def while_stops [OF r(1) assms] r)
qed

section \<open>Addresses: printing then parsing\<close>

lemma read_ipv4_show:
  "stops is_digit t \<Longrightarrow> read_ipv4_addr (show_ipv4 a b c d @ t) = Some ((a, b, c, d), t)"
  by (simp add: read_ipv4_addr_def show_ipv4_def read_octet_show read_char_def is_digit_def)

lemma read_octet_subset: "read_octet s = Some (a, t) \<Longrightarrow> set t \<subseteq> set s"
  by (auto simp: read_octet_def read_number_def Let_def dest: set_dropWhileD split: if_splits)

lemma read_ipv4_no_dot: "CHR ''.'' \<notin> set s \<Longrightarrow> read_ipv4_addr s = None"
proof (cases "read_octet s")
  case (Some p)
  obtain a t where p: "p = (a, t)" by (cases p)
  moreover assume "CHR ''.'' \<notin> set s"
  ultimately have "CHR ''.'' \<notin> set t"
    using read_octet_subset Some by blast
  then have "read_char CHR ''.'' t = None"
    by (auto simp: read_char_def split: list.splits)
  with Some p show ?thesis
    by (simp add: read_ipv4_addr_def)
qed (simp add: read_ipv4_addr_def)

lemma read_separator_no_dot: "CHR ''.'' \<notin> set s \<Longrightarrow> read_separator i read_ipv4_addr s = None"
  by (auto simp: read_separator_def read_char_def read_ipv4_no_dot split: list.splits)

fun groups_text :: "bool \<Rightarrow> u16 list \<Rightarrow> string" where
  "groups_text sep [] = []"
| "groups_text sep (g # gs) = (if sep then '':'' else []) @ show_hex (unat g) @ groups_text True gs"

lemma show_groups_text: "show_groups gs = groups_text False gs"
proof -
  have "gs \<noteq> [] \<Longrightarrow> groups_text True gs = CHR '':'' # groups_text False gs" for gs
    by (cases gs) auto
  then show ?thesis
    unfolding show_groups_def by (induction gs rule: induct_list012) simp_all
qed

lemma groups_text_chars: "c \<in> set (groups_text sep gs) \<Longrightarrow> is_radix 16 c \<or> c = CHR '':''"
proof (induction gs arbitrary: sep)
  case (Cons g gs)
  then show ?case
    using show_hex_radix [of "unat g"] by (auto simp: list_all_iff split: if_splits)
qed simp

lemma radix_facts: "\<not> is_radix 16 CHR ''.''" "\<not> is_radix 16 CHR '':''"
  by (simp_all add: is_radix_def to_digit_def hex_val_def is_digit_def)

lemma read_groups_text:
  assumes "i + length gs \<le> limit" and "CHR ''.'' \<notin> set t" and "stops (is_radix 16) t"
    and "i + length gs < limit \<Longrightarrow> read_separator (i + length gs) read_group t = None"
  shows "read_groups limit i (groups_text (0 < i) gs @ t) = (gs, False, t)"
  using assms
proof (induction gs arbitrary: i)
  case Nil
  then show ?case
    by (simp add: read_groups.simps [of limit i] read_separator_no_dot)
next
  case (Cons g gs)
  let ?s = "groups_text (0 < i) (g # gs) @ t"
  have "CHR ''.'' \<notin> set ?s"
    using Cons.prems(2) groups_text_chars [of "CHR ''.''" "0 < i" "g # gs"] radix_facts by auto
  then have v4: "read_separator i read_ipv4_addr ?s = None"
    by (rule read_separator_no_dot)
  have "stops (is_radix 16) (groups_text True gs @ t)"
    using Cons.prems(3) radix_facts by (cases gs) auto
  then have g: "read_separator i read_group ?s = Some (g, groups_text True gs @ t)"
    by (simp add: read_separator_def read_char_def read_group_show)
  have "read_groups limit (Suc i) (groups_text True gs @ t) = (gs, False, t)"
    using Cons.IH [of "Suc i"] Cons.prems by simp
  with v4 g Cons.prems(1) show ?case
    by (subst read_groups.simps) simp
qed

definition span_ok :: "u16 list \<Rightarrow> nat \<times> nat \<Rightarrow> bool" where
  "span_ok gs sp \<longleftrightarrow> fst sp + snd sp \<le> length gs \<and> (\<forall>j. fst sp \<le> j \<and> j < fst sp + snd sp \<longrightarrow> gs ! j = 0)"

lemma zero_span_ok:
  assumes "span_ok pre longest" and "span_ok pre current" and "0 < snd current \<Longrightarrow> fst current + snd current = length pre"
  shows "span_ok (pre @ gs) (zero_span (length pre) current longest gs)"
  using assms
proof (induction gs arbitrary: pre current longest)
  case Nil
  then show ?case by simp
next
  case (Cons g gs)
  have ext: "span_ok (pre @ [g]) sp" if "span_ok pre sp" for sp
    using that by (auto simp: span_ok_def nth_append)
  show ?case
  proof (cases "g = 0")
    case True
    let ?cur = "(if snd current = 0 then length pre else fst current, snd current + 1)"
    let ?lon = "if snd longest < snd ?cur then ?cur else longest"
    have cur: "span_ok (pre @ [g]) ?cur"
      using Cons.prems(2,3) True by (auto simp: span_ok_def nth_append)
    then have "span_ok (pre @ [g]) ?lon"
      using ext [OF Cons.prems(1)] by simp
    moreover have "fst ?cur + snd ?cur = length (pre @ [g])"
      using Cons.prems(3) by simp
    ultimately have "span_ok ((pre @ [g]) @ gs) (zero_span (length (pre @ [g])) ?cur ?lon gs)"
      using cur by (intro Cons.IH)
    with True show ?thesis
      by (simp only: zero_span.simps Let_def if_True append.assoc append.simps length_append list.size) simp
  next
    case False
    have "span_ok (pre @ [g]) (0, 0)"
      by (simp add: span_ok_def)
    then show ?thesis
      using Cons.IH [of "pre @ [g]" longest "(0, 0)"] Cons.prems ext False by simp
  qed
qed

lemma span_split:
  assumes "span_ok gs (st, len)"
  shows "gs = take st gs @ replicate len 0 @ drop (st + len) gs"
proof -
  have "take len (drop st gs) = replicate len 0"
    using assms by (auto simp: span_ok_def intro!: nth_equalityI)
  then show ?thesis
    by (metis add.commute append_take_drop_id drop_drop)
qed

lemma read_char_same [simp]: "read_char c (c # s) = Some s"
  by (simp add: read_char_def)

lemma read_group_colon: "read_group (CHR '':'' # s) = None" "read_group [] = None"
  by (simp_all add: read_group_def read_number_def radix_facts)

lemma read_ipv6_plain: "length gs = 8 \<Longrightarrow> read_ipv6_addr (show_groups gs) = Some (gs, [])"
  using read_groups_text [of 0 gs 8 "[]"]
  by (simp add: read_ipv6_addr_def show_groups_text)

lemma read_ipv6_compressed:
  assumes "length hs + length ts < 7"
  shows "read_ipv6_addr (show_groups hs @ ''::'' @ show_groups ts) =
    Some (hs @ replicate (8 - length ts - length hs) 0 @ ts, [])"
proof -
  let ?t = "''::'' @ show_groups ts"
  have dot: "CHR ''.'' \<notin> set ?t"
    using groups_text_chars [of "CHR ''.''" False ts] radix_facts by (auto simp: show_groups_text)
  have "read_groups 8 0 (groups_text False hs @ ?t) = (hs, False, ?t)"
    using read_groups_text [of 0 hs 8 ?t] assms dot radix_facts
    by (simp add: read_separator_def read_group_colon)
  moreover have "read_groups (8 - (length hs + 1)) 0 (groups_text False ts @ []) = (ts, False, [])"
    using read_groups_text [of 0 ts "8 - (length hs + 1)" "[]"] assms
    by (simp add: read_separator_def read_char_def read_group_colon)
  ultimately show ?thesis
    using assms by (simp add: read_ipv6_addr_def show_groups_text)
qed

lemma show_groups_no_dot: "CHR ''.'' \<notin> set (show_groups gs)"
  using groups_text_chars [of "CHR ''.''" False gs] radix_facts by (auto simp: show_groups_text)

lemma parse_show_v6_plain:
  assumes "length gs = 8" and "to_ipv4_mapped gs = None"
  shows "parse_ip (show_ipv6 gs) = Some (V6 gs)"
proof -
  obtain st len where sp: "zero_span 0 (0, 0) (0, 0) gs = (st, len)"
    by fastforce
  have ok: "span_ok gs (st, len)"
    using zero_span_ok [of "[]" "(0, 0)" "(0, 0)" gs] sp by (simp add: span_ok_def)
  have "read_ipv6_addr (show_ipv6 gs) = Some (gs, [])"
  proof (cases "1 < len")
    case True
    have le: "st + len \<le> 8"
      using ok assms(1) by (simp add: span_ok_def)
    have "8 - length (drop (st + len) gs) - length (take st gs) = len"
      using le assms(1) by simp
    moreover have "length (take st gs) + length (drop (st + len) gs) < 7"
      using True le assms(1) by simp
    moreover note span_split [OF ok, symmetric]
    ultimately show ?thesis
      using read_ipv6_compressed [of "take st gs" "drop (st + len) gs"] True
      by (simp add: show_ipv6_def assms(2) sp)
  next
    case False
    then show ?thesis
      by (simp add: show_ipv6_def assms(2) sp read_ipv6_plain assms(1))
  qed
  moreover have "CHR ''.'' \<notin> set (show_ipv6 gs)"
    using assms(2) sp show_groups_no_dot by (auto simp: show_ipv6_def)
  ultimately show ?thesis
    by (simp add: parse_ip_def read_ipv4_no_dot)
qed

lemma group_bytes: "ucast (ucast (drop_bit 8 g) :: u8) * 256 + ucast (ucast g :: u8) = (g :: u16)"
proof -
  have "(push_bit 8 (ucast (ucast (drop_bit 8 g) :: u8)) :: u16) + ucast (ucast g :: u8) = g"
    by (subst disjunctive_add) (auto simp: bit_simps intro!: bit_eqI)
  then show ?thesis
    by (simp add: push_bit_eq_mult)
qed

lemma parse_show_mapped:
  assumes "to_ipv4_mapped gs = Some (a, b, c, d)"
  shows "parse_ip (''::ffff:'' @ show_ipv4 a b c d) = Some (V6 gs)"
proof -
  let ?q = "show_ipv4 a b c d"
  have gs: "gs = [0, 0, 0, 0, 0, 65535] @ quad_groups (a, b, c, d)"
    using assms by (auto simp: to_ipv4_mapped_def quad_groups_def group_bytes split: list.splits if_splits)
  have v4: "read_ipv4_addr (CHR '':'' # s) = None" "read_ipv4_addr (CHR ''f'' # s) = None" for s
    by (simp_all add: read_ipv4_addr_def read_octet_def read_number_def is_radix_10 is_digit_def)
  have head: "read_groups 8 0 (''::ffff:'' @ ?q) = ([], False, ''::ffff:'' @ ?q)"
    by (subst read_groups.simps) (simp add: read_separator_def v4 read_group_colon)
  have "stops (is_radix 16) ('':'' @ ?q)"
    by (simp add: radix_facts)
  from read_group_show [OF this, of 65535]
  have ffff: "read_group (''ffff:'' @ ?q) = Some (65535, '':'' @ ?q)"
    by (simp add: show_hex.simps digit_char_def)
  have one: "read_groups 7 (Suc 0) ('':'' @ ?q) = (quad_groups (a, b, c, d), True, [])"
    using read_ipv4_show [of "[]" a b c d]
    by (subst read_groups.simps) (simp add: read_separator_def)
  have "read_groups 7 0 (''ffff:'' @ ?q) = (65535 # quad_groups (a, b, c, d), True, [])"
    using ffff one by (subst read_groups.simps) (simp add: read_separator_def v4)
  then have "read_ipv6_addr (''::ffff:'' @ ?q) = Some (gs, [])"
    using head by (simp add: read_ipv6_addr_def gs quad_groups_def numeral_eq_Suc)
  then show ?thesis
    using v4(1) by (simp add: parse_ip_def)
qed

lemma parse_show_ip: "wf_ip ip \<Longrightarrow> parse_ip (show_ip ip) = Some ip"
proof (cases ip)
  case (V4 a b c d)
  then show ?thesis
    using read_ipv4_show [of "[]" a b c d] by (simp add: show_ip_def parse_ip_def)
next
  case (V6 gs)
  assume "wf_ip ip"
  then show ?thesis
    using parse_show_v6_plain [of gs] parse_show_mapped [of gs] V6
    by (cases "to_ipv4_mapped gs") (auto simp: show_ip_def show_ipv6_def)
qed

lemma read_groups_length:
  "read_groups limit i s = (gs, v4, t) \<Longrightarrow> length gs \<le> limit - i"
proof (induction limit i s arbitrary: gs v4 t rule: read_groups.induct)
  case (1 limit i s)
  show ?case
  proof (cases "limit \<le> i")
    case True
    with "1.prems" show ?thesis
      by (simp add: read_groups.simps [of limit i])
  next
    case False
    show ?thesis
    proof (cases "if i < limit - 1 then read_separator i read_ipv4_addr s else None")
      case (Some p)
      with "1.prems" False show ?thesis
        by (cases p) (auto simp: read_groups.simps [of limit i] quad_groups_def split: if_splits prod.splits)
    next
      case None
      show ?thesis
      proof (cases "read_separator i read_group s")
        case (Some p)
        obtain g u where p: "p = (g, u)" by (cases p)
        obtain gs' v' t' where r: "read_groups limit (Suc i) u = (gs', v', t')"
          by (cases "read_groups limit (Suc i) u") auto
        from "1.IH" [OF False None Some p [symmetric] r] "1.prems" False None Some p r show ?thesis
          by (simp add: read_groups.simps [of limit i s]) (auto split: if_splits)
      qed (use "1.prems" False None in \<open>simp add: read_groups.simps [of limit i]\<close>)
    qed
  qed
qed

lemma parse_ip_wf: "parse_ip s = Some ip \<Longrightarrow> wf_ip ip"
proof -
  have v6: "length gs = 8" if "read_ipv6_addr s = Some (gs, t)" for gs t
  proof -
    obtain hs v u where h: "read_groups 8 0 s = (hs, v, u)"
      by (cases "read_groups 8 0 s") auto
    show ?thesis
      using that h read_groups_length [OF h] read_groups_length [of "8 - (length hs + 1)" 0]
      by (fastforce simp: read_ipv6_addr_def split: if_splits prod.splits bind_splits)
  qed
  show "parse_ip s = Some ip \<Longrightarrow> wf_ip ip"
    using v6 by (auto simp: parse_ip_def split: option.splits prod.splits if_splits)
qed

section \<open>The characters of a printed address\<close>

definition ip_char :: "char \<Rightarrow> bool" where
  "ip_char c \<longleftrightarrow> is_radix 16 c \<or> c = CHR '':'' \<or> c = CHR ''.''"

lemma show_word_ip_char: "c \<in> set (show_word w) \<Longrightarrow> ip_char c"
  using show_word_digits(1) [of w]
  by (auto simp: list_all_iff ip_char_def is_radix_def to_digit_def hex_val_def is_digit_def)

lemma show_ipv4_chars: "c \<in> set (show_ipv4 a b e d) \<Longrightarrow> ip_char c"
  by (auto simp: show_ipv4_def dest: show_word_ip_char) (simp add: ip_char_def)

lemma show_groups_chars: "c \<in> set (show_groups gs) \<Longrightarrow> ip_char c"
  using groups_text_chars by (auto simp: show_groups_text ip_char_def)

lemma show_ip_chars: "c \<in> set (show_ip ip) \<Longrightarrow> ip_char c"
proof -
  have "ip_char CHR ''f''" "ip_char CHR '':''"
    by (simp_all add: ip_char_def is_radix_def to_digit_def hex_val_def is_digit_def)
  then show "c \<in> set (show_ip ip) \<Longrightarrow> ip_char c"
    by (auto simp: show_ip_def show_ipv6_def dest: show_ipv4_chars show_groups_chars
        split: ip_addr.splits option.splits prod.splits if_splits)
qed

lemma ip_char_code: "ip_char c \<Longrightarrow> 46 \<le> code c \<and> code c \<le> 102 \<and> code c \<noteq> 91 \<and> code c \<noteq> 93"
  by (auto simp: ip_char_def is_radix_def to_digit_def hex_val_def is_digit_def filter_opt_def split: if_splits)

lemma trim_visible: "list_all (\<lambda>c. 33 \<le> code c \<and> code c < 128) s \<Longrightarrow> trim s = s"
  by (rule visible_trim) (simp add: list_all_iff)

lemma show_ip_not_Nil: "wf_ip ip \<Longrightarrow> show_ip ip \<noteq> []"
proof
  assume "wf_ip ip" "show_ip ip = []"
  then have "parse_ip [] = Some ip"
    using parse_show_ip by force
  moreover have "read_ipv4_addr [] = None"
    by (simp add: read_ipv4_no_dot)
  moreover have "read_ipv6_addr [] = None"
    using read_groups_text [of 0 "[]" 8 "[]"]
    by (simp add: read_ipv6_addr_def read_separator_def read_group_colon) (simp add: read_char_def)
  ultimately show False
    by (simp add: parse_ip_def)
qed

end
