(* ===== verification/Client_Ip.thy ===== *)
theory Client_Ip
  imports Ip
begin

text \<open>
  The client-address part of src/src/proxy/forward.rs: normalising a textual address,
  deciding whether it is publicly routable, choosing the client address from the socket and
  the proxy headers, and the headers added for the upstream.  The header map of the
  \<^verbatim>\<open>http\<close> crate is a parameter: \<^verbatim>\<open>get\<close> is the textual value stored under a header name,
  \<^verbatim>\<open>valid_value\<close> is \<^verbatim>\<open>HeaderValue::from_str\<close> succeeding and \<^verbatim>\<open>insert\<close> replaces a header.
\<close>

definition forwarded_client_ip_header_pairs :: "string \<Rightarrow> string option \<Rightarrow> (string \<times> string) list" where
  "forwarded_client_ip_header_pairs client_ip existing_xff =
     (let xff = (case filter_opt (\<lambda>v. v \<noteq> []) (map_option trim existing_xff) of
                   Some existing \<Rightarrow> existing @ '', '' @ client_ip
                 | None \<Rightarrow> client_ip)
      in [(''X-Real-IP'', client_ip), (''X-Forwarded-For'', xff)])"

definition first_hop_from_xff :: "string option \<Rightarrow> string option" where
  "first_hop_from_xff xff =
     Option.bind xff (\<lambda>x.
       let ip = trim_matches (\<lambda>c. c = CHR 0x22) (trim (before CHR '','' x))
       in if ip = [] then None else Some ip)"

definition normalize_ip_str :: "string \<Rightarrow> string option" where
  "normalize_ip_str ip0 =
     (let ip1 = trim_matches (\<lambda>c. c = CHR ''['' \<or> c = CHR '']'') (trim ip0);
          ip = trim (before CHR ''%'' ip1)
      in if ip = [] then None
         else (case parse_ip ip of
             Some (V6 v6) \<Rightarrow>
               (case to_ipv4_mapped v6 of
                  Some (a, b, c, d) \<Rightarrow> Some (show_ipv4 a b c d)
                | None \<Rightarrow> Some (show_ipv6 v6))
           | Some (V4 a b c d) \<Rightarrow> Some (show_ipv4 a b c d)
           | None \<Rightarrow> None))"

definition is_public_routable_ip :: "string \<Rightarrow> bool" where
  "is_public_routable_ip ip =
     (case normalize_ip_str ip of
        None \<Rightarrow> False
      | Some normalized \<Rightarrow>
          (case parse_ip normalized of
             Some (V4 a b c d) \<Rightarrow>
               (let v4 = V4 a b c d in
                \<not> (v4_private v4 \<or> ip_loopback v4 \<or> ip_link_local v4 \<or> ip_unspecified v4 \<or> v4_broadcast v4))
           | Some (V6 gs) \<Rightarrow>
               (let v6 = V6 gs in
                \<not> (ip_loopback v6 \<or> v6_unique_local v6 \<or> ip_link_local v6 \<or> ip_unspecified v6))
           | None \<Rightarrow> False))"

definition resolve_client_ip :: "string option \<Rightarrow> string option \<Rightarrow> string option \<Rightarrow> string option" where
  "resolve_client_ip socket_ip xff x_real_ip =
     (case filter_opt is_public_routable_ip (Option.bind socket_ip normalize_ip_str) of
        Some ip \<Rightarrow> Some ip
      | None \<Rightarrow>
     (case filter_opt is_public_routable_ip (Option.bind x_real_ip normalize_ip_str) of
        Some ip \<Rightarrow> Some ip
      | None \<Rightarrow>
     (case Option.bind (first_hop_from_xff xff) normalize_ip_str of
        Some ip \<Rightarrow> Some ip
      | None \<Rightarrow>
     (case Option.bind x_real_ip normalize_ip_str of
        Some ip \<Rightarrow> Some ip
      | None \<Rightarrow> Option.bind socket_ip normalize_ip_str))))"

fun client_ip_from_names :: "(string \<Rightarrow> string option) \<Rightarrow> string list \<Rightarrow> string option" where
  "client_ip_from_names get [] = None"
| "client_ip_from_names get (name # names) =
     (case get name of
        None \<Rightarrow> client_ip_from_names get names
      | Some v \<Rightarrow>
          if name = ''x-forwarded-for'' then
            (case first_hop_from_xff (Some v) of
               Some ip \<Rightarrow> Some ip
             | None \<Rightarrow> client_ip_from_names get names)
          else if trim v \<noteq> [] then Some (trim v)
          else client_ip_from_names get names)"

definition client_ip_from_http_headers :: "(string \<Rightarrow> string option) \<Rightarrow> string option" where
  "client_ip_from_http_headers get =
     client_ip_from_names get
       [''cf-connecting-ip'', ''true-client-ip'', ''x-client-ip'', ''x-real-ip'', ''x-forwarded-for'']"

definition apply_forwarded_client_ip_headers ::
  "('h \<Rightarrow> string \<Rightarrow> string option) \<Rightarrow> (string \<Rightarrow> bool) \<Rightarrow> (string \<Rightarrow> string \<Rightarrow> 'h \<Rightarrow> 'h) \<Rightarrow> 'h \<Rightarrow> string \<Rightarrow> 'h" where
  "apply_forwarded_client_ip_headers get valid_value insert_hdr headers client_ip =
     (let existing = get headers ''x-forwarded-for''
      in fold (\<lambda>(name, v) h. if valid_value v then insert_hdr name v h else h)
           (forwarded_client_ip_header_pairs client_ip existing) headers)"

section \<open>Normalised addresses\<close>

definition canonical_ip :: "ip_addr \<Rightarrow> bool" where
  "canonical_ip ip \<longleftrightarrow> wf_ip ip \<and> (case ip of V4 _ _ _ _ \<Rightarrow> True | V6 gs \<Rightarrow> to_ipv4_mapped gs = None)"

lemma show_ip_plain:
  assumes "wf_ip ip"
  shows "trim (show_ip ip) = show_ip ip"
    and "trim_matches (\<lambda>c. c = CHR ''['' \<or> c = CHR '']'') (show_ip ip) = show_ip ip"
    and "before CHR ''%'' (show_ip ip) = show_ip ip"
proof -
  have chars: "46 \<le> code c \<and> code c \<le> 102 \<and> code c \<noteq> 91 \<and> code c \<noteq> 93" if "c \<in> set (show_ip ip)" for c
    using show_ip_chars [OF that] by (rule ip_char_code)
  show "trim (show_ip ip) = show_ip ip"
    by (rule trim_visible) (use chars in \<open>force simp: list_all_iff\<close>)
  have br: "\<not> (c = CHR ''['' \<or> c = CHR '']'')" if "c \<in> set (show_ip ip)" for c
    using chars [OF that] by auto
  have dw: "dropWhile P s = s" if "s = [] \<or> \<not> P (hd s)" for P and s :: string
    using that by (cases s) auto
  show "trim_matches (\<lambda>c. c = CHR ''['' \<or> c = CHR '']'') (show_ip ip) = show_ip ip"
    unfolding trim_matches_def
    using br show_ip_not_Nil [OF assms]
    by (subst dw; (subst dw)?) (auto simp: hd_rev)
  show "before CHR ''%'' (show_ip ip) = show_ip ip"
    using chars by (intro before_none) fastforce
qed

lemma normalize_show_ip: "canonical_ip ip \<Longrightarrow> normalize_ip_str (show_ip ip) = Some (show_ip ip)"
  using parse_show_ip [of ip] show_ip_not_Nil [of ip] show_ip_plain [of ip]
  by (auto simp: normalize_ip_str_def canonical_ip_def Let_def show_ip_def split: ip_addr.splits)

lemma normalize_ip_str_Some:
  assumes "normalize_ip_str s = Some t"
  obtains ip where "canonical_ip ip" "t = show_ip ip" "parse_ip t = Some ip"
proof -
  let ?ip = "trim (before CHR ''%'' (trim_matches (\<lambda>c. c = CHR ''['' \<or> c = CHR '']'') (trim s)))"
  from assms obtain ip where ip: "parse_ip ?ip = Some ip"
    by (auto simp: normalize_ip_str_def Let_def split: if_splits option.splits)
  have wf: "wf_ip ip"
    using ip by (rule parse_ip_wf)
  have "\<exists>ip'. canonical_ip ip' \<and> t = show_ip ip'"
  proof (cases ip)
    case (V4 a b c d)
    then have "t = show_ip (V4 a b c d)"
      using assms ip by (auto simp: normalize_ip_str_def Let_def show_ip_def split: if_splits)
    then show ?thesis
      by (intro exI [of _ "V4 a b c d"]) (simp add: canonical_ip_def)
  next
    case (V6 gs)
    show ?thesis
    proof (cases "to_ipv4_mapped gs")
      case None
      then have "t = show_ip (V6 gs)"
        using assms ip V6 by (auto simp: normalize_ip_str_def Let_def show_ip_def split: if_splits)
      then show ?thesis
        using None V6 wf by (intro exI [of _ "V6 gs"]) (simp add: canonical_ip_def)
    next
      case (Some q)
      obtain a b c d where q: "q = (a, b, c, d)" by (cases q)
      then have "t = show_ip (V4 a b c d)"
        using assms ip V6 Some by (auto simp: normalize_ip_str_def Let_def show_ip_def split: if_splits)
      then show ?thesis
        by (intro exI [of _ "V4 a b c d"]) (simp add: canonical_ip_def)
    qed
  qed
  then show ?thesis
    using that parse_show_ip by (auto simp: canonical_ip_def)
qed

lemma normalize_ip_str_idem: "normalize_ip_str s = Some t \<Longrightarrow> normalize_ip_str t = Some t"
  by (elim normalize_ip_str_Some) (simp add: normalize_show_ip)

lemma is_public_normalized:
  "normalize_ip_str s = Some t \<Longrightarrow> is_public_routable_ip s = is_public_routable_ip t"
  by (simp add: is_public_routable_ip_def normalize_ip_str_idem)

lemma resolve_client_ip_Some:
  "resolve_client_ip sock xff xr = Some t \<Longrightarrow> \<exists>s. normalize_ip_str s = Some t"
  by (auto simp: resolve_client_ip_def bind_eq_Some_conv split: option.splits)

section \<open>Properties\<close>

text \<open>Address normalisation is canonical.  Whatever text is normalised (brackets, zone id, upper-case
  groups, an IPv4-mapped form), the result is the standard rendering of an address that is not
  IPv4-mapped; normalising it again changes nothing, and the public-address test gives the same
  answer before and after.\<close>
lemma normalize_ip_str_canonical:
  assumes "normalize_ip_str s = Some t"
  shows "normalize_ip_str t = Some t \<and> is_public_routable_ip s = is_public_routable_ip t \<and>
    (\<exists>ip. parse_ip t = Some ip \<and> show_ip ip = t \<and>
       (case ip of V6 gs \<Rightarrow> length gs = 8 \<and> to_ipv4_mapped gs = None | V4 _ _ _ _ \<Rightarrow> True))"
  using normalize_ip_str_idem [OF assms] is_public_normalized [OF assms]
  by (rule_tac normalize_ip_str_Some [OF assms]) (auto simp: canonical_ip_def split: ip_addr.splits)

lemma normalize_ip_str_canonical_example:
  "normalize_ip_str ''[::FFFF:10.0.0.1%eth0]'' = Some ''10.0.0.1'' \<and> normalize_ip_str ''10.0.0.1'' = Some ''10.0.0.1''"
proof -
  have "normalize_ip_str ''[::FFFF:10.0.0.1%eth0]'' = Some ''10.0.0.1''"
    by (simp add: run normalize_ip_str_def)
  from this normalize_ip_str_canonical [OF this] show ?thesis by blast
qed

text \<open>C25: The client address cannot be spoofed past a public peer.  The chosen address is always a
  normalised one; when the TCP peer has a publicly routable address that address is chosen
  whatever the X-Forwarded-For and X-Real-IP headers say; and an address is chosen whenever the
  peer has one at all.\<close>
theorem resolve_client_ip_peer_wins:
  shows "(\<forall>ip. resolve_client_ip peer xff xr = Some ip \<longrightarrow> normalize_ip_str ip = Some ip) \<and>
    (\<forall>s ip. peer = Some s \<and> normalize_ip_str s = Some ip \<longrightarrow>
       resolve_client_ip peer xff xr \<noteq> None \<and>
       (is_public_routable_ip s \<longrightarrow> resolve_client_ip peer xff xr = Some ip))"
proof (intro conjI allI impI)
  fix ip
  assume "resolve_client_ip peer xff xr = Some ip"
  then show "normalize_ip_str ip = Some ip"
    using resolve_client_ip_Some normalize_ip_str_idem by blast
next
  fix s ip
  assume *: "peer = Some s \<and> normalize_ip_str s = Some ip"
  then show "resolve_client_ip peer xff xr \<noteq> None"
    by (auto simp: resolve_client_ip_def split: option.splits)
  assume "is_public_routable_ip s"
  with * show "resolve_client_ip peer xff xr = Some ip"
    using is_public_normalized by (simp add: resolve_client_ip_def)
qed

theorem resolve_client_ip_peer_wins_witness:
  "resolve_client_ip (Some ''8.8.8.8'') (Some ''1.2.3.4'') None = Some ''8.8.8.8''"
proof -
  have "normalize_ip_str ''8.8.8.8'' = Some ''8.8.8.8''" and "is_public_routable_ip ''8.8.8.8''"
    by (simp_all add: run normalize_ip_str_def is_public_routable_ip_def)
  then show ?thesis
    using resolve_client_ip_peer_wins [of "Some ''8.8.8.8''" "Some ''1.2.3.4''" None] by blast
qed

end
