(* ===== verification/Geoip.thy ===== *)
theory Geoip
  imports Client_Ip
begin

text \<open>
  src/src/geoip.rs: the per-site country and ASN policy, its normal form, the ip2asn table and
  its lookup, the engine, the decision procedure, and the Kubernetes annotations a policy is
  kept in.  The MaxMind reader is a parameter: \<^verbatim>\<open>mm_country\<close> and \<^verbatim>\<open>mm_asn\<close> give the ISO code
  and the AS number a database of type \<^typ>\<open>'m\<close> holds for an address (None when the lookup
  or the decoding fails or finds nothing), \<^verbatim>\<open>open_mmdb\<close> opens a database file.  Reading a file
  and testing for its presence are parameters as well.
\<close>

section \<open>Policy\<close>

record GeoIpPolicy =
  gp_enabled :: bool
  allow_countries :: "string list"
  deny_countries :: "string list"
  allow_asns :: "u32 list"
  deny_asns :: "u32 list"

definition geoip_default :: GeoIpPolicy where
  "geoip_default = \<lparr>gp_enabled = False, allow_countries = [], deny_countries = [], allow_asns = [], deny_asns = []\<rparr>"

definition geoip_is_active :: "GeoIpPolicy \<Rightarrow> bool" where
  "geoip_is_active p \<longleftrightarrow> gp_enabled p \<and>
     (allow_countries p \<noteq> [] \<or> deny_countries p \<noteq> [] \<or> allow_asns p \<noteq> [] \<or> deny_asns p \<noteq> [])"

definition geoip_is_default :: "GeoIpPolicy \<Rightarrow> bool" where
  "geoip_is_default p \<longleftrightarrow> \<not> gp_enabled p \<and>
     allow_countries p = [] \<and> deny_countries p = [] \<and> allow_asns p = [] \<and> deny_asns p = []"

definition normalize_countries :: "string list \<Rightarrow> string list" where
  "normalize_countries xs = sort_dedup (filter (\<lambda>c. c \<noteq> []) (map (\<lambda>c. to_ascii_uppercase (trim c)) xs))"

definition geoip_normalized :: "GeoIpPolicy \<Rightarrow> GeoIpPolicy" where
  "geoip_normalized p = p\<lparr>
     allow_countries := normalize_countries (allow_countries p),
     deny_countries := normalize_countries (deny_countries p),
     allow_asns := sort_dedup (allow_asns p),
     deny_asns := sort_dedup (deny_asns p)\<rparr>"

record GeoInfo =
  gi_country :: "string option"
  gi_asn :: "u32 option"

datatype Decision = Allow | BlockCountry | BlockAsn

section \<open>The ASN table\<close>

record AsnTsvDb =
  tsv_v4 :: "(u32 \<times> u32 \<times> u32) list"
  tsv_v6 :: "(u128 \<times> u128 \<times> u32) list"

datatype tsv_error = ReadFailed | MissingStart nat | MissingEnd nat | BadStart nat | BadEnd nat

definition tsv_push :: "ip_addr \<Rightarrow> ip_addr \<Rightarrow> u32 \<Rightarrow> AsnTsvDb \<Rightarrow> AsnTsvDb" where
  "tsv_push start stop asn db =
     (case (start, stop) of
        (V4 a b c d, V4 e f g h) \<Rightarrow> db\<lparr>tsv_v4 := tsv_v4 db @ [(v4_u32 a b c d, v4_u32 e f g h, asn)]\<rparr>
      | (V6 gs, V6 hs) \<Rightarrow> db\<lparr>tsv_v6 := tsv_v6 db @ [(v6_u128 gs, v6_u128 hs, asn)]\<rparr>
      | _ \<Rightarrow> db)"

definition tsv_line :: "nat \<Rightarrow> string \<Rightarrow> AsnTsvDb \<Rightarrow> tsv_error + AsnTsvDb" where
  "tsv_line line_no raw_line db =
     (let line = trim raw_line in
      if line = [] \<or> starts_with line ''#'' then Inr db
      else
        (case split_on (\<lambda>c. c = CHR 0x09) line of
           [] \<Rightarrow> Inl (MissingStart (line_no + 1))
         | [_] \<Rightarrow> Inl (MissingEnd (line_no + 1))
         | start_s # end_s # cols \<Rightarrow>
             (let asn_s = (case cols of [] \<Rightarrow> ''0'' | a # _ \<Rightarrow> a);
                  asn = get_or 0 (parse_word asn_s) :: u32
              in if asn = 0 then Inr db
                 else (case parse_ip start_s of
                     None \<Rightarrow> Inl (BadStart (line_no + 1))
                   | Some start \<Rightarrow>
                       (case parse_ip end_s of
                          None \<Rightarrow> Inl (BadEnd (line_no + 1))
                        | Some stop \<Rightarrow> Inr (tsv_push start stop asn db))))))"

fun tsv_lines :: "nat \<Rightarrow> string list \<Rightarrow> AsnTsvDb \<Rightarrow> tsv_error + AsnTsvDb" where
  "tsv_lines n [] db = Inr db"
| "tsv_lines n (l # ls) db =
     (case tsv_line n l db of Inl e \<Rightarrow> Inl e | Inr db' \<Rightarrow> tsv_lines (n + 1) ls db')"

definition asn_tsv_load :: "string option \<Rightarrow> tsv_error + AsnTsvDb" where
  "asn_tsv_load raw =
     (case raw of
        None \<Rightarrow> Inl ReadFailed
      | Some text \<Rightarrow>
          (case tsv_lines 0 (str_lines text) \<lparr>tsv_v4 = [], tsv_v6 = []\<rparr> of
             Inl e \<Rightarrow> Inl e
           | Inr db \<Rightarrow> Inr \<lparr>tsv_v4 = sort_key fst (tsv_v4 db), tsv_v6 = sort_key fst (tsv_v6 db)\<rparr>))"

definition partition_point :: "('a \<Rightarrow> bool) \<Rightarrow> 'a list \<Rightarrow> nat" where
  "partition_point P xs = length (takeWhile P xs)"

definition range_lookup :: "('a::linorder \<times> 'a \<times> u32) list \<Rightarrow> 'a \<Rightarrow> u32 option" where
  "range_lookup rs key =
     (let idx = partition_point (\<lambda>r. fst r \<le> key) rs in
      if idx = 0 then None
      else (case rs ! (idx - 1) of (start, stop, asn) \<Rightarrow>
        if start \<le> key \<and> key \<le> stop then Some asn else None))"

definition asn_tsv_lookup :: "AsnTsvDb \<Rightarrow> ip_addr \<Rightarrow> u32 option" where
  "asn_tsv_lookup db addr =
     (case addr of
        V4 a b c d \<Rightarrow> range_lookup (tsv_v4 db) (v4_u32 a b c d)
      | V6 gs \<Rightarrow> range_lookup (tsv_v6 db) (v6_u128 gs))"

datatype 'm AsnDb = Mmdb 'm | Tsv AsnTsvDb

definition asn_db_lookup :: "('m \<Rightarrow> ip_addr \<Rightarrow> u32 option) \<Rightarrow> 'm AsnDb \<Rightarrow> ip_addr \<Rightarrow> u32 option" where
  "asn_db_lookup mm_asn db addr = (case db of Mmdb m \<Rightarrow> mm_asn m addr | Tsv t \<Rightarrow> asn_tsv_lookup t addr)"

definition is_tsv_name :: "string \<Rightarrow> bool" where
  "is_tsv_name name \<longleftrightarrow> ends_with name ''.tsv'' \<or> ends_with name ''.tsv.gz'' \<or>
     contains_str name ''ip2asn'' \<or> ends_with name ''.csv''"

definition load_asn_db :: "(string \<Rightarrow> string option) \<Rightarrow> (string \<Rightarrow> 'm option) \<Rightarrow> string \<Rightarrow> 'm AsnDb option" where
  "load_asn_db read_file open_mmdb path =
     (let name = to_ascii_lowercase (get_or [] (path_file_name path)) in
      if is_tsv_name name then
        (if ends_with name ''.gz'' then None
         else (case asn_tsv_load (read_file path) of Inr db \<Rightarrow> Some (Tsv db) | Inl _ \<Rightarrow> None))
      else map_option Mmdb (open_mmdb path))"

section \<open>The engine\<close>

record 'm GeoIpEngine =
  eng_country :: "'m option"
  eng_asn :: "'m AsnDb option"
  eng_country_path :: "string option"
  eng_asn_path :: "string option"

record GeoIpStatus =
  country_db_loaded :: bool
  asn_db_loaded :: bool
  country_db_path :: "string option"
  asn_db_path :: "string option"

definition engine_load :: "(string \<Rightarrow> string option) \<Rightarrow> (string \<Rightarrow> 'm option) \<Rightarrow>
    string option \<Rightarrow> string option \<Rightarrow> 'm GeoIpEngine" where
  "engine_load read_file open_mmdb country_path asn_path =
     \<lparr>eng_country = Option.bind country_path open_mmdb,
      eng_asn = Option.bind asn_path (load_asn_db read_file open_mmdb),
      eng_country_path = country_path, eng_asn_path = asn_path\<rparr>"

definition env_path :: "(string \<Rightarrow> string option) \<Rightarrow> string \<Rightarrow> string option" where
  "env_path env key = filter_opt (\<lambda>p. p \<noteq> []) (env key)"

definition default_country_path :: "(string \<Rightarrow> bool) \<Rightarrow> string option" where
  "default_country_path is_file = find is_file
     [''/var/lib/pertisk-proxy/geoip/GeoLite2-Country.mmdb'',
      ''/usr/share/GeoIP/GeoLite2-Country.mmdb'',
      ''/usr/share/GeoIP/GeoIP2-Country.mmdb'']"

definition default_asn_path :: "(string \<Rightarrow> bool) \<Rightarrow> string option" where
  "default_asn_path is_file = find is_file
     [''/var/lib/pertisk-proxy/geoip/GeoLite2-ASN.mmdb'',
      ''/var/lib/pertisk-proxy/geoip/ip2asn-combined.tsv'',
      ''/var/lib/pertisk-proxy/geoip/ip2asn-v4.tsv'',
      ''/usr/share/GeoIP/GeoLite2-ASN.mmdb'',
      ''/usr/share/GeoIP/GeoIP2-ASN.mmdb'',
      ''/usr/share/GeoIP/ip2asn-combined.tsv'']"

definition engine_from_env :: "(string \<Rightarrow> string option) \<Rightarrow> (string \<Rightarrow> bool) \<Rightarrow> (string \<Rightarrow> string option) \<Rightarrow>
    (string \<Rightarrow> 'm option) \<Rightarrow> 'm GeoIpEngine" where
  "engine_from_env env is_file read_file open_mmdb =
     engine_load read_file open_mmdb
       (or_else (env_path env ''PERTISK_GEOIP_COUNTRY_DB'') (default_country_path is_file))
       (or_else (env_path env ''PERTISK_GEOIP_ASN_DB'') (default_asn_path is_file))"

definition country_loaded :: "'m GeoIpEngine \<Rightarrow> bool" where
  "country_loaded e \<longleftrightarrow> eng_country e \<noteq> None"

definition asn_loaded :: "'m GeoIpEngine \<Rightarrow> bool" where
  "asn_loaded e \<longleftrightarrow> eng_asn e \<noteq> None"

definition engine_status :: "'m GeoIpEngine \<Rightarrow> GeoIpStatus" where
  "engine_status e = \<lparr>country_db_loaded = country_loaded e, asn_db_loaded = asn_loaded e,
     country_db_path = eng_country_path e, asn_db_path = eng_asn_path e\<rparr>"

definition engine_lookup :: "('m \<Rightarrow> ip_addr \<Rightarrow> string option) \<Rightarrow> ('m \<Rightarrow> ip_addr \<Rightarrow> u32 option) \<Rightarrow>
    'm GeoIpEngine \<Rightarrow> string \<Rightarrow> GeoInfo option" where
  "engine_lookup mm_country mm_asn e ip =
     Option.bind (parse_ip (trim ip)) (\<lambda>addr.
       let country = Option.bind (eng_country e) (\<lambda>r. map_option to_ascii_uppercase (mm_country r addr));
           asn = Option.bind (eng_asn e) (\<lambda>db. asn_db_lookup mm_asn db addr)
       in if country = None \<and> asn = None then None
          else Some \<lparr>gi_country = country, gi_asn = asn\<rparr>)"

definition geoip_lookup :: "('m \<Rightarrow> ip_addr \<Rightarrow> string option) \<Rightarrow> ('m \<Rightarrow> ip_addr \<Rightarrow> u32 option) \<Rightarrow>
    'm GeoIpEngine \<Rightarrow> string \<Rightarrow> GeoInfo option" where
  "geoip_lookup mm_country mm_asn e ip =
     Option.bind (normalize_ip_str ip) (engine_lookup mm_country mm_asn e)"

section \<open>The decision\<close>

definition geoip_evaluate :: "'m GeoIpEngine \<Rightarrow> GeoIpPolicy \<Rightarrow> GeoInfo option \<Rightarrow> Decision" where
  "geoip_evaluate e p info =
     (if \<not> geoip_is_active p then Allow
      else
        let country = Option.bind info gi_country; asn = Option.bind info gi_asn in
        if deny_countries p \<noteq> [] \<and> (case country of Some c \<Rightarrow> c \<in> set (deny_countries p) | None \<Rightarrow> False)
        then BlockCountry
        else if allow_countries p \<noteq> [] \<and>
          (case country of Some c \<Rightarrow> c \<notin> set (allow_countries p) | None \<Rightarrow> country_loaded e)
        then BlockCountry
        else if deny_asns p \<noteq> [] \<and> (case asn of Some n \<Rightarrow> n \<in> set (deny_asns p) | None \<Rightarrow> False)
        then BlockAsn
        else if allow_asns p \<noteq> [] \<and>
          (case asn of Some n \<Rightarrow> n \<notin> set (allow_asns p) | None \<Rightarrow> asn_loaded e)
        then BlockAsn
        else Allow)"

definition evaluate_ip :: "('m \<Rightarrow> ip_addr \<Rightarrow> string option) \<Rightarrow> ('m \<Rightarrow> ip_addr \<Rightarrow> u32 option) \<Rightarrow>
    'm GeoIpEngine \<Rightarrow> GeoIpPolicy \<Rightarrow> string option \<Rightarrow> Decision" where
  "evaluate_ip mm_country mm_asn e p ip =
     (if \<not> geoip_is_active p then Allow
      else
        let normalized = Option.bind ip normalize_ip_str in
        if (case normalized of Some n \<Rightarrow> \<not> is_public_routable_ip n | None \<Rightarrow> False) then Allow
        else geoip_evaluate e p (Option.bind normalized (geoip_lookup mm_country mm_asn e)))"

section \<open>Annotations\<close>

type_synonym annotations = "string \<rightharpoonup> string"

definition ann :: "string \<Rightarrow> string" where
  "ann key = ''proxy.pertisk.tech/'' @ key"

definition list_sep :: "char \<Rightarrow> bool" where
  "list_sep c \<longleftrightarrow> c = CHR '','' \<or> c = CHR '' '' \<or> c = CHR '';''"

definition parse_countries :: "string \<Rightarrow> string list" where
  "parse_countries raw = normalize_countries (split_on list_sep raw)"

definition parse_asns :: "string \<Rightarrow> u32 list" where
  "parse_asns raw = sort_dedup (List.map_filter
     (\<lambda>part. parse_word (dropWhile (\<lambda>c. c \<in> set ''ASas'') (trim part))) (split_on list_sep raw))"

definition truthy :: "string \<Rightarrow> bool" where
  "truthy v \<longleftrightarrow> to_ascii_lowercase (trim v) \<in> {''1'', ''true'', ''yes'', ''on''}"

definition flag_true :: "annotations \<Rightarrow> string \<Rightarrow> bool" where
  "flag_true m key = (case m key of Some v \<Rightarrow> truthy v | None \<Rightarrow> False)"

definition GEOIP_KEYS :: "string list" where
  "GEOIP_KEYS =
     [ann ''geoip-enabled'', ann ''geoip-allow-countries'',
      ann ''geoip-deny-countries'', ann ''geoip-allow-asns'',
      ann ''geoip-deny-asns'']"

definition remove_keys :: "string list \<Rightarrow> annotations \<Rightarrow> annotations" where
  "remove_keys ks m = fold (\<lambda>k a. a(k := None)) ks m"

definition insert_when :: "bool \<Rightarrow> string \<Rightarrow> string \<Rightarrow> annotations \<Rightarrow> annotations" where
  "insert_when b k v m = (if b then m(k \<mapsto> v) else m)"

definition geoip_policy_from_annotations :: "annotations option \<Rightarrow> GeoIpPolicy" where
  "geoip_policy_from_annotations annotations =
     (case annotations of
        None \<Rightarrow> geoip_default
      | Some m \<Rightarrow>
          if flag_true m (ann ''security-exempt'') \<or> flag_true m (ann ''geoip-exempt'')
          then geoip_default
          else
            let en = flag_true m (ann ''geoip-enabled'');
                ac = get_or [] (map_option parse_countries (m (ann ''geoip-allow-countries'')));
                dc = get_or [] (map_option parse_countries (m (ann ''geoip-deny-countries'')));
                aa = get_or [] (map_option parse_asns (m (ann ''geoip-allow-asns'')));
                da = get_or [] (map_option parse_asns (m (ann ''geoip-deny-asns'')))
            in geoip_normalized
                 \<lparr>gp_enabled = en \<or> ac \<noteq> [] \<or> dc \<noteq> [] \<or> aa \<noteq> [] \<or> da \<noteq> [],
                  allow_countries = ac, deny_countries = dc, allow_asns = aa, deny_asns = da\<rparr>)"

definition geoip_apply_annotations :: "annotations \<Rightarrow> GeoIpPolicy \<Rightarrow> annotations" where
  "geoip_apply_annotations annotations policy =
     (let m0 = remove_keys GEOIP_KEYS annotations; p = geoip_normalized policy in
      if geoip_is_default p then m0
      else
        let m1 = insert_when (gp_enabled p) (ann ''geoip-enabled'') ''true'' m0;
            m2 = insert_when (allow_countries p \<noteq> []) (ann ''geoip-allow-countries'')
                   (join '','' (allow_countries p)) m1;
            m3 = insert_when (deny_countries p \<noteq> []) (ann ''geoip-deny-countries'')
                   (join '','' (deny_countries p)) m2;
            m4 = insert_when (allow_asns p \<noteq> []) (ann ''geoip-allow-asns'')
                   (join '','' (map show_word (allow_asns p))) m3
        in insert_when (deny_asns p \<noteq> []) (ann ''geoip-deny-asns'')
             (join '','' (map show_word (deny_asns p))) m4)"

section \<open>Normal form\<close>

lemmas geoip_defs [run] =
  asn_tsv_load_def tsv_line_def tsv_push_def normalize_countries_def geoip_normalized_def sort_dedup_def
  geoip_is_default_def list_sep_def

lemma normalize_countries_elem:
  "c \<in> set (normalize_countries xs) \<Longrightarrow> c \<noteq> [] \<and> trim c = c \<and> to_ascii_uppercase c = c"
  by (auto simp: normalize_countries_def)

lemma normalize_countries_fix:
  "(\<And>c. c \<in> set xs \<Longrightarrow> c \<noteq> [] \<and> trim c = c \<and> to_ascii_uppercase c = c) \<Longrightarrow> normalize_countries xs = sort_dedup xs"
  unfolding normalize_countries_def by (subst map_idI; simp)

lemma normalize_countries_idem [norm_idem, simp]: "normalize_countries (normalize_countries xs) = normalize_countries xs"
proof -
  have "normalize_countries (normalize_countries xs) = sort_dedup (normalize_countries xs)"
    by (rule normalize_countries_fix) (rule normalize_countries_elem)
  then show ?thesis
    by (simp add: normalize_countries_def [of xs])
qed

lemma geoip_normalized_idem [norm_idem, simp]: "geoip_normalized (geoip_normalized p) = geoip_normalized p"
  by (simp add: geoip_normalized_def)

interpretation geoip_nf: normaliser geoip_normalized
  by unfold_locales (simp add: norm_idem)

lemma geoip_default_normal [simp]: "geoip_normalized geoip_default = geoip_default"
  by (simp add: geoip_normalized_def geoip_default_def normalize_countries_def sort_dedup_def)

section \<open>Range lookup\<close>

definition no_nested_start :: "('a::linorder \<times> 'a \<times> u32) list \<Rightarrow> bool" where
  "no_nested_start rs \<longleftrightarrow>
     list_all (\<lambda>r. list_all (\<lambda>r'. fst r \<le> fst r' \<and> fst r' \<le> fst (snd r) \<longrightarrow> r' = r) rs) rs"

lemma takeWhile_last_sorted:
  assumes "sorted (map fst rs)" and "r \<in> set rs" and "fst r \<le> key"
  shows "r \<in> set (takeWhile (\<lambda>r. fst r \<le> key) rs) \<and> fst r \<le> fst (last (takeWhile (\<lambda>r. fst r \<le> key) rs))"
proof -
  let ?P = "\<lambda>r. fst r \<le> key"
  have "r \<in> set (takeWhile ?P rs)"
    using assms
  proof (induction rs)
    case (Cons q rs)
    then have "fst q \<le> key"
      by (auto intro: order.trans)
    with Cons show ?case by auto
  qed simp
  moreover have "sorted (map fst (takeWhile ?P rs))"
    using assms(1) by (metis map_append sorted_append takeWhile_dropWhile_id)
  ultimately show ?thesis
    by (cases "takeWhile ?P rs" rule: rev_cases) (auto simp: sorted_append)
qed

lemma range_lookup_iff:
  assumes "sorted (map fst rs)" and "no_nested_start rs"
  shows "range_lookup rs key = Some n \<longleftrightarrow> (\<exists>s e. (s, e, n) \<in> set rs \<and> s \<le> key \<and> key \<le> e)"
proof (cases "takeWhile (\<lambda>r. fst r \<le> key) rs" rule: rev_cases)
  case Nil
  then have "\<not> s \<le> key" if "(s, e, n) \<in> set rs" for s e
    using takeWhile_last_sorted [OF assms(1) that, of key] by auto
  with Nil show ?thesis
    by (auto simp: range_lookup_def partition_point_def)
next
  case (snoc us l)
  obtain s0 e0 n0 where l: "l = (s0, e0, n0)" by (cases l)
  have "l \<in> set (takeWhile (\<lambda>r. fst r \<le> key) rs)"
    by (simp add: snoc)
  then have mem: "(s0, e0, n0) \<in> set rs" and le: "s0 \<le> key"
    using set_takeWhileD [of l "\<lambda>r. fst r \<le> key" rs] by (simp_all add: l)
  have "rs ! length us = l"
    using snoc takeWhile_nth [of "length us" "\<lambda>r. fst r \<le> key" rs] by simp
  then have look: "range_lookup rs key = Some n \<longleftrightarrow> key \<le> e0 \<and> n0 = n"
    using le by (simp add: range_lookup_def partition_point_def snoc l)
  have "(s, e, n) = (s0, e0, n0)" if "(s, e, n) \<in> set rs" "s \<le> key" "key \<le> e" for s e
  proof -
    have "s \<le> s0"
      using takeWhile_last_sorted [OF assms(1) that(1), of key] that(2) by (simp add: snoc l)
    moreover have "s0 \<le> e"
      using le that(3) by (rule order.trans)
    moreover have "\<forall>r \<in> set rs. \<forall>r' \<in> set rs. fst r \<le> fst r' \<and> fst r' \<le> fst (snd r) \<longrightarrow> r' = r"
      using assms(2) by (simp add: no_nested_start_def list_all_iff)
    note bspec [OF bspec [OF this that(1)] mem]
    ultimately show ?thesis by simp
  qed
  with look mem le show ?thesis by blast
qed

definition tsv_nonzero :: "AsnTsvDb \<Rightarrow> bool" where
  "tsv_nonzero db \<longleftrightarrow> list_all (\<lambda>r. snd (snd r) \<noteq> 0) (tsv_v4 db) \<and> list_all (\<lambda>r. snd (snd r) \<noteq> 0) (tsv_v6 db)"

lemma tsv_line_nonzero: "tsv_line n l db = Inr db' \<Longrightarrow> tsv_nonzero db \<Longrightarrow> tsv_nonzero db'"
  by (auto simp: tsv_line_def tsv_push_def tsv_nonzero_def Let_def
      split: if_splits list.splits option.splits ip_addr.splits)

lemma tsv_lines_nonzero: "tsv_lines n ls db = Inr db' \<Longrightarrow> tsv_nonzero db \<Longrightarrow> tsv_nonzero db'"
  by (induction n ls db rule: tsv_lines.induct) (auto split: sum.splits dest: tsv_line_nonzero)

lemma asn_tsv_load_wf:
  assumes "asn_tsv_load raw = Inr db"
  shows "sorted (map fst (tsv_v4 db)) \<and> sorted (map fst (tsv_v6 db)) \<and> tsv_nonzero db"
proof -
  from assms obtain raw_text db0 where t: "tsv_lines 0 (str_lines raw_text) \<lparr>tsv_v4 = [], tsv_v6 = []\<rparr> = Inr db0"
    and db: "db = \<lparr>tsv_v4 = sort_key fst (tsv_v4 db0), tsv_v6 = sort_key fst (tsv_v6 db0)\<rparr>"
    by (auto simp: asn_tsv_load_def split: option.splits sum.splits)
  have "tsv_nonzero db0"
    using tsv_lines_nonzero [OF t] by (simp add: tsv_nonzero_def)
  then show ?thesis
    by (simp add: db tsv_nonzero_def list_all_iff)
qed

section \<open>Annotation round trip\<close>

lemma ann_eq [simp]: "ann k = ann k' \<longleftrightarrow> k = k'"
  by (simp add: ann_def)

definition geoip_exempt :: "annotations \<Rightarrow> bool" where
  "geoip_exempt m \<longleftrightarrow>
     flag_true m (ann ''security-exempt'') \<or> flag_true m (ann ''geoip-exempt'')"

definition geoip_representable :: "GeoIpPolicy \<Rightarrow> bool" where
  "geoip_representable p \<longleftrightarrow>
     (gp_enabled p \<or> geoip_is_default (geoip_normalized p)) \<and>
     list_all (list_all (\<lambda>c. \<not> list_sep c)) (normalize_countries (allow_countries p)) \<and>
     list_all (list_all (\<lambda>c. \<not> list_sep c)) (normalize_countries (deny_countries p))"

lemmas geoip_codec_defs [run] = geoip_representable_def geoip_exempt_def flag_true_def truthy_def

lemma parse_countries_join:
  assumes "list_all (list_all (\<lambda>c. \<not> list_sep c)) (normalize_countries xs)" and "normalize_countries xs \<noteq> []"
  shows "parse_countries (join '','' (normalize_countries xs)) = normalize_countries xs"
  using assms by (simp add: parse_countries_def split_on_join list_all_iff list_sep_def)

lemma trim_show_word [simp]: "trim (show_word w) = show_word w"
  using show_word_digits(1) [of w] by (intro trim_visible) (auto simp: list_all_iff is_digit_def)

lemma strip_as_show_word: "dropWhile (\<lambda>c. c \<in> set ''ASas'') (show_word w) = show_word w"
  using show_word_digits [of w] by (cases "show_word w") (auto simp: is_digit_def)

lemma parse_asns_join: "xs \<noteq> [] \<Longrightarrow> parse_asns (join '','' (map show_word xs)) = sort_dedup xs"
proof -
  assume "xs \<noteq> []"
  moreover have "\<forall>w \<in> set (map show_word xs). \<forall>c \<in> set w. \<not> list_sep c"
    using show_word_digits(1) by (fastforce simp: list_all_iff list_sep_def is_digit_def)
  ultimately have "split_on list_sep (join '','' (map show_word xs)) = map show_word xs"
    by (intro split_on_join) (simp_all add: list_sep_def)
  then show ?thesis
    by (simp add: parse_asns_def strip_as_show_word [simplified] List.map_filter_def o_def)
qed

lemma remove_keys_apply: "remove_keys ks m k = (if k \<in> set ks then None else m k)"
  unfolding remove_keys_def by (induction ks arbitrary: m) auto

lemma insert_when_apply: "insert_when b k v m k' = (if b \<and> k' = k then Some v else m k')"
  by (simp add: insert_when_def)

lemma geoip_apply_other: "k \<notin> set GEOIP_KEYS \<Longrightarrow> geoip_apply_annotations m p k = m k"
  by (auto simp: geoip_apply_annotations_def Let_def insert_when_apply remove_keys_apply GEOIP_KEYS_def)

lemma geoip_apply_keys:
  defines "q \<equiv> \<lambda>p. geoip_normalized p"
  shows "geoip_apply_annotations m p (ann ''geoip-enabled'') = (if gp_enabled p then Some ''true'' else None)"
    and "geoip_apply_annotations m p (ann ''geoip-allow-countries'') =
      (if allow_countries (q p) \<noteq> [] then Some (join '','' (allow_countries (q p))) else None)"
    and "geoip_apply_annotations m p (ann ''geoip-deny-countries'') =
      (if deny_countries (q p) \<noteq> [] then Some (join '','' (deny_countries (q p))) else None)"
    and "geoip_apply_annotations m p (ann ''geoip-allow-asns'') =
      (if allow_asns (q p) \<noteq> [] then Some (join '','' (map show_word (allow_asns (q p)))) else None)"
    and "geoip_apply_annotations m p (ann ''geoip-deny-asns'') =
      (if deny_asns (q p) \<noteq> [] then Some (join '','' (map show_word (deny_asns (q p)))) else None)"
  by (simp_all add: q_def geoip_apply_annotations_def Let_def insert_when_apply remove_keys_apply GEOIP_KEYS_def
      geoip_is_default_def geoip_normalized_def)

lemma geoip_exempt_apply: "geoip_exempt (geoip_apply_annotations m p) = geoip_exempt m"
  by (simp add: geoip_exempt_def flag_true_def geoip_apply_other GEOIP_KEYS_def)

lemma geoip_load_apply:
  assumes "geoip_representable p" and "\<not> geoip_exempt m"
  shows "geoip_policy_from_annotations (Some (geoip_apply_annotations m p)) = geoip_normalized p"
proof -
  let ?m = "geoip_apply_annotations m p"
  have ex: "\<not> geoip_exempt ?m"
    using assms(2) by (simp add: geoip_exempt_apply)
  have ac: "get_or [] (map_option parse_countries (?m (ann ''geoip-allow-countries''))) = normalize_countries (allow_countries p)"
    using assms(1) parse_countries_join
    by (auto simp: geoip_apply_keys geoip_normalized_def geoip_representable_def)
  have dc: "get_or [] (map_option parse_countries (?m (ann ''geoip-deny-countries''))) = normalize_countries (deny_countries p)"
    using assms(1) parse_countries_join
    by (auto simp: geoip_apply_keys geoip_normalized_def geoip_representable_def)
  have aa: "get_or [] (map_option parse_asns (?m (ann ''geoip-allow-asns''))) = sort_dedup (allow_asns p)"
    by (auto simp: geoip_apply_keys geoip_normalized_def parse_asns_join) (simp add: sort_dedup_def)
  have da: "get_or [] (map_option parse_asns (?m (ann ''geoip-deny-asns''))) = sort_dedup (deny_asns p)"
    by (auto simp: geoip_apply_keys geoip_normalized_def parse_asns_join) (simp add: sort_dedup_def)
  have "truthy ''true''"
    by (simp add: truthy_def run)
  then have en: "flag_true ?m (ann ''geoip-enabled'') = gp_enabled p"
    by (simp add: flag_true_def geoip_apply_keys)
  show ?thesis
    using assms(1) ex
    by (simp add: geoip_policy_from_annotations_def geoip_exempt_def ac dc aa da en)
      (auto simp: geoip_normalized_def geoip_representable_def geoip_is_default_def)
qed

interpretation geoip_codec: annotation_codec geoip_apply_annotations "\<lambda>m. geoip_policy_from_annotations (Some m)"
  geoip_normalized geoip_representable geoip_exempt "set GEOIP_KEYS"
proof unfold_locales
  show "geoip_apply_annotations m (geoip_normalized p) = geoip_apply_annotations m p" for m p
    by (simp add: geoip_apply_annotations_def)
  show "geoip_apply_annotations (geoip_apply_annotations m p) q = geoip_apply_annotations m q" for m p q
  proof
    fix k
    show "geoip_apply_annotations (geoip_apply_annotations m p) q k = geoip_apply_annotations m q k"
    proof (cases "k \<in> set GEOIP_KEYS")
      case True
      then show ?thesis
        by (auto simp: GEOIP_KEYS_def geoip_apply_keys)
    qed (simp add: geoip_apply_other)
  qed
qed (simp_all add: geoip_load_apply geoip_apply_other geoip_exempt_apply)

section \<open>Properties\<close>





text \<open>A GeoIP policy stored in the annotations of a Kubernetes object is read back in normal form:
  for every policy that is enabled or empty and whose country codes contain no list separator,
  on every object without an exemption flag, whatever was stored there before; annotations of
  other features are left alone and storing what was read changes nothing.\<close>
lemma geoip_annotation_roundtrip:
  assumes "geoip_representable p" and "\<not> geoip_exempt m"
  shows "geoip_policy_from_annotations (Some (geoip_apply_annotations (geoip_apply_annotations m p0) p)) = geoip_normalized p \<and>
    geoip_apply_annotations (geoip_apply_annotations m p)
      (geoip_policy_from_annotations (Some (geoip_apply_annotations m p))) = geoip_apply_annotations m p \<and>
    (\<forall>k. k \<notin> set GEOIP_KEYS \<longrightarrow> geoip_apply_annotations m p k = m k)"
  using geoip_codec.last_writer_wins [OF assms] geoip_codec.save_read_stable [OF assms] geoip_apply_other
  by blast

lemma geoip_annotation_roundtrip_example:
  "geoip_policy_from_annotations (Some (geoip_apply_annotations (geoip_apply_annotations Map.empty geoip_default)
     \<lparr>gp_enabled = True, allow_countries = ['' th ''], deny_countries = [], allow_asns = [], deny_asns = [7, 7]\<rparr>)) =
   \<lparr>gp_enabled = True, allow_countries = [''TH''], deny_countries = [], allow_asns = [], deny_asns = [7]\<rparr>"
proof -
  let ?p = "\<lparr>gp_enabled = True, allow_countries = ['' th ''], deny_countries = [], allow_asns = [], deny_asns = [7, 7 :: u32]\<rparr>"
  have "geoip_normalized ?p = \<lparr>gp_enabled = True, allow_countries = [''TH''], deny_countries = [], allow_asns = [], deny_asns = [7]\<rparr>"
    by (simp add: run)
  moreover have "geoip_representable ?p"
    by (simp add: run)
  moreover have "\<not> geoip_exempt Map.empty"
    by (simp add: geoip_exempt_def flag_true_def)
  ultimately show ?thesis
    using geoip_annotation_roundtrip [of ?p Map.empty geoip_default] by simp
qed

text \<open>A disabled policy that still carries lists does not survive the annotations: it is stored
  without the enabled flag and comes back enabled, so saving a switched-off policy switches it
  on.\<close>
lemma geoip_disabled_policy_reenabled:
  assumes "\<not> geoip_exempt m" and "deny_asns p \<noteq> []"
  shows "gp_enabled (geoip_policy_from_annotations (Some (geoip_apply_annotations m p)))"
proof -
  have "get_or [] (map_option parse_asns (geoip_apply_annotations m p (ann ''geoip-deny-asns''))) \<noteq> []"
    using assms(2) by (simp add: geoip_apply_keys geoip_normalized_def parse_asns_join)
  moreover have "\<not> geoip_exempt (geoip_apply_annotations m p)"
    using assms(1) by (simp add: geoip_exempt_apply)
  ultimately show ?thesis
    by (simp add: geoip_policy_from_annotations_def geoip_exempt_def Let_def geoip_normalized_def)
qed

lemma geoip_disabled_policy_reenabled_example:
  "gp_enabled (geoip_policy_from_annotations (Some (geoip_apply_annotations Map.empty
     \<lparr>gp_enabled = False, allow_countries = [], deny_countries = [], allow_asns = [], deny_asns = [7]\<rparr>)))"
  by (rule geoip_disabled_policy_reenabled) (simp_all add: geoip_exempt_def flag_true_def)

end
