(* ===== verification/Waf.thy ===== *)
theory Waf
  imports Rust_Str
begin

text \<open>
  src/src/security/waf.rs: web application firewall rules, the built-in signatures, percent
  decoding and first-match evaluation, over the request view of src/src/security/mod.rs.
\<close>

record RequestView =
  rv_method :: string
  rv_path :: string
  rv_query :: string
  rv_user_agent :: "string option"
  rv_accept :: "string option"
  rv_accept_language :: "string option"
  rv_cookie :: "string option"
  rv_client_ip :: "string option"

datatype WafAction = WafBlock | WafLog | WafChallenge

record WafRule =
  wr_id :: string
  wr_enabled :: bool
  wr_action :: WafAction
  wr_methods :: "string list"
  wr_path_contains :: "string option"
  wr_query_contains :: "string option"
  wr_ua_contains :: "string option"

record WafPolicy =
  wp_enabled :: bool
  wp_use_builtin_rules :: bool
  wp_rules :: "WafRule list"

definition waf_default :: WafPolicy where
  "waf_default = \<lparr>wp_enabled = False, wp_use_builtin_rules = False, wp_rules = []\<rparr>"

definition waf_is_active :: "WafPolicy \<Rightarrow> bool" where
  "waf_is_active p \<longleftrightarrow> wp_enabled p \<and> (wp_use_builtin_rules p \<or> list_ex wr_enabled (wp_rules p))"

definition waf_is_default :: "WafPolicy \<Rightarrow> bool" where
  "waf_is_default p \<longleftrightarrow> \<not> wp_enabled p \<and> \<not> wp_use_builtin_rules p \<and> wp_rules p = []"

definition normalize_rule :: "WafRule \<Rightarrow> WafRule" where
  "normalize_rule r = r\<lparr>
     wr_id := trim (wr_id r),
     wr_methods := filter (\<lambda>m. m \<noteq> []) (map (\<lambda>m. to_ascii_uppercase (trim m)) (wr_methods r)),
     wr_path_contains := map_option trim (wr_path_contains r),
     wr_query_contains := map_option trim (wr_query_contains r),
     wr_ua_contains := map_option trim (wr_ua_contains r)\<rparr>"

definition waf_normalized :: "WafPolicy \<Rightarrow> WafPolicy" where
  "waf_normalized p = p\<lparr>wp_rules := filter (\<lambda>r. wr_id r \<noteq> []) (map normalize_rule (wp_rules p))\<rparr>"

record WafHit =
  wh_rule_id :: string
  wh_action :: WafAction

definition builtin_rule :: "string \<Rightarrow> string option \<Rightarrow> string option \<Rightarrow> WafRule" where
  "builtin_rule i p q = \<lparr>wr_id = i, wr_enabled = True, wr_action = WafBlock, wr_methods = [],
     wr_path_contains = p, wr_query_contains = q, wr_ua_contains = None\<rparr>"

definition builtin_rules :: "WafRule list" where
  "builtin_rules =
     [builtin_rule ''builtin-path-traversal'' (Some ''../'') None,
      builtin_rule ''builtin-path-traversal-encoded'' (Some ''..%2f'') None,
      builtin_rule ''builtin-null-byte-path'' (Some ''%00'') None,
      builtin_rule ''builtin-null-byte-query'' None (Some ''%00''),
      builtin_rule ''builtin-sqli-union'' None (Some ''union select''),
      builtin_rule ''builtin-sqli-or'' None (Some ([CHR 0x27] @ '' or '')),
      builtin_rule ''builtin-xss-script'' None (Some ''<script'')]"

definition contains_ci :: "string \<Rightarrow> string \<Rightarrow> bool" where
  "contains_ci haystack needle \<longleftrightarrow>
     needle \<noteq> [] \<and> contains_str (to_ascii_lowercase haystack) (to_ascii_lowercase needle)"

definition from_hex :: "char \<Rightarrow> nat option" where
  "from_hex b =
     (if is_digit b then Some (code b - 48)
      else if 97 \<le> code b \<and> code b \<le> 102 then Some (code b - 97 + 10)
      else if 65 \<le> code b \<and> code b \<le> 70 then Some (code b - 65 + 10)
      else None)"

definition nibbles :: "nat \<Rightarrow> nat \<Rightarrow> char" where
  "nibbles h l = Char (odd l) (odd (l div 2)) (odd (l div 4)) (odd (l div 8))
                      (odd h) (odd (h div 2)) (odd (h div 4)) (odd (h div 8))"

fun percent_decode :: "string \<Rightarrow> string" where
  "percent_decode [] = []"
| "percent_decode (c # s) =
     (if c = CHR ''+'' then CHR '' '' # percent_decode s
      else if c = CHR ''%'' then
        (case s of
           h1 # h2 # t \<Rightarrow>
             (case (from_hex h1, from_hex h2) of
                (Some a, Some b) \<Rightarrow> nibbles a b # percent_decode t
              | _ \<Rightarrow> c # percent_decode s)
         | _ \<Rightarrow> c # percent_decode s)
      else c # percent_decode s)"

definition percent_decode_lossy :: "string \<Rightarrow> string" where
  "percent_decode_lossy s = utf8_lossy (percent_decode s)"

definition needle :: "string option \<Rightarrow> string option" where
  "needle n = filter_opt (\<lambda>s. s \<noteq> []) n"

definition rule_matches :: "WafRule \<Rightarrow> RequestView \<Rightarrow> bool" where
  "rule_matches rule req =
     (let m = to_ascii_uppercase (rv_method req) in
      if wr_methods rule \<noteq> [] \<and> m \<notin> set (wr_methods rule) then False
      else
        let path_hit = (case needle (wr_path_contains rule) of
               Some n \<Rightarrow> contains_ci (rv_path req) n \<or> contains_ci (percent_decode_lossy (rv_path req)) n
             | None \<Rightarrow> False);
            query_hit = (case needle (wr_query_contains rule) of
               Some n \<Rightarrow> contains_ci (rv_query req) n \<or> contains_ci (percent_decode_lossy (rv_query req)) n
             | None \<Rightarrow> False);
            ua_hit = (case needle (wr_ua_contains rule) of
               Some n \<Rightarrow> contains_ci (get_or [] (rv_user_agent req)) n
             | None \<Rightarrow> False);
            any_constraint = needle (wr_path_contains rule) \<noteq> None \<or>
              needle (wr_query_contains rule) \<noteq> None \<or> needle (wr_ua_contains rule) \<noteq> None
        in any_constraint \<and> (path_hit \<or> query_hit \<or> ua_hit))"

definition hit_of :: "WafRule \<Rightarrow> WafHit" where
  "hit_of r = \<lparr>wh_rule_id = wr_id r, wh_action = wr_action r\<rparr>"

definition evaluate_waf :: "WafPolicy \<Rightarrow> RequestView \<Rightarrow> WafHit option" where
  "evaluate_waf p req =
     (if \<not> waf_is_active p then None
      else
        (case find (\<lambda>r. rule_matches r req) (filter wr_enabled (wp_rules p)) of
           Some r \<Rightarrow> Some (hit_of r)
         | None \<Rightarrow>
             if wp_use_builtin_rules p
             then map_option hit_of (find (\<lambda>r. wr_enabled r \<and> rule_matches r req) builtin_rules)
             else None))"

section \<open>Normal form\<close>

lemmas waf_defs [run] =
  waf_is_active_def normalize_rule_def waf_normalized_def builtin_rule_def builtin_rules_def contains_ci_def
  from_hex_def nibbles_def percent_decode_lossy_def needle_def rule_matches_def hit_of_def evaluate_waf_def

lemma normalize_rule_idem [norm_idem, simp]: "normalize_rule (normalize_rule r) = normalize_rule r"
proof -
  have "map (\<lambda>m. to_ascii_uppercase (trim m)) (filter (\<lambda>m. m \<noteq> []) (map (\<lambda>m. to_ascii_uppercase (trim m)) ms)) =
      filter (\<lambda>m. m \<noteq> []) (map (\<lambda>m. to_ascii_uppercase (trim m)) ms)" for ms
    by (induction ms) auto
  then show ?thesis
    by (simp add: normalize_rule_def option.map_comp o_def)
qed

lemma waf_normalized_idem [norm_idem, simp]: "waf_normalized (waf_normalized p) = waf_normalized p"
proof -
  have "map normalize_rule (filter (\<lambda>r. wr_id r \<noteq> []) (map normalize_rule rs)) =
      filter (\<lambda>r. wr_id r \<noteq> []) (map normalize_rule rs)" for rs
    by (induction rs) auto
  then show ?thesis
    by (simp add: waf_normalized_def)
qed

interpretation waf_nf: normaliser waf_normalized
  by unfold_locales (simp add: norm_idem)

section \<open>Percent decoding\<close>

lemma code_nibbles: "h < 16 \<Longrightarrow> l < 16 \<Longrightarrow> code (nibbles h l) = 16 * h + l"
proof -
  have "l = of_bool (odd l) + 2 * of_bool (odd (l div 2)) + 4 * of_bool (odd (l div 4)) + 8 * of_bool (odd (l div 8))"
    if "l < 16" for l :: nat
  proof -
    have "l \<in> {0, 1, 2, 3, 4, 5, 6, 7, 8, 9, 10, 11, 12, 13, 14, 15}"
      using that unfolding insert_iff empty_iff by presburger
    then show ?thesis by auto
  qed
  note dec = this
  assume "h < 16" "l < 16"
  from dec [OF this(1)] dec [OF this(2)] show ?thesis
    unfolding nibbles_def code_Char by linarith
qed

definition hex_of :: "char \<Rightarrow> char \<Rightarrow> char \<Rightarrow> bool" where
  "hex_of h1 h2 c = (case (from_hex h1, from_hex h2) of (Some a, Some b) \<Rightarrow> nibbles a b = c | _ \<Rightarrow> False)"

text \<open>
  The percent encodings of a text: every character is written either as itself (unless it is
  one of the two characters with a meaning of their own) or as \<^verbatim>\<open>%XX\<close> with hexadecimal digits
  of either case.
\<close>

inductive encodes :: "string \<Rightarrow> string \<Rightarrow> bool" where
  enc_Nil: "encodes [] []"
| enc_plain: "encodes e s \<Longrightarrow> c \<noteq> CHR ''+'' \<Longrightarrow> c \<noteq> CHR ''%'' \<Longrightarrow> encodes (c # e) (c # s)"
| enc_hex: "encodes e s \<Longrightarrow> hex_of h1 h2 c \<Longrightarrow> encodes (CHR ''%'' # h1 # h2 # e) (c # s)"

lemma percent_decode_encodes: "encodes e s \<Longrightarrow> percent_decode e = s"
  by (induction rule: encodes.induct) (auto simp: hex_of_def split: option.splits)

section \<open>Evaluation\<close>

lemma find_append: "find P (xs @ ys) = or_else (find P xs) (find P ys)"
  by (induction xs) auto

lemma find_filter: "find P (filter Q xs) = find (\<lambda>x. Q x \<and> P x) xs"
  by (induction xs) auto

lemma contains_ci_lower: "contains_str s n \<Longrightarrow> n \<noteq> [] \<Longrightarrow> contains_ci s n"
  by (auto simp: contains_ci_def contains_str_sublist sublist_def) blast

lemma lossy_contains_dotdot: "contains_str s ''../'' \<Longrightarrow> contains_str (utf8_lossy s) ''../''"
proof -
  assume "contains_str s ''../''"
  then obtain a b where "s = a @ ''../'' @ b"
    by (auto simp: contains_str_sublist sublist_def)
  then have "utf8_lossy s = utf8_lossy a @ ''../'' @ utf8_lossy b"
    by (simp add: utf8_lossy_ascii_split utf8_ascii_Cons)
  then show ?thesis
    by (auto simp: contains_str_sublist sublist_def)
qed

section \<open>Properties\<close>

text \<open>WAF evaluation is first match: an active policy reports the first enabled rule that matches,
  taking the site's own rules in order and then, when switched on, the built-in ones; an
  inactive policy reports nothing.\<close>
lemma evaluate_waf_first_match:
  "evaluate_waf p req =
     (if wp_enabled p
      then map_option hit_of (find (\<lambda>r. wr_enabled r \<and> rule_matches r req)
             (wp_rules p @ (if wp_use_builtin_rules p then builtin_rules else [])))
      else None)"
proof -
  have "find (\<lambda>r. wr_enabled r \<and> rule_matches r req) rs = None" if "\<not> list_ex wr_enabled rs" for rs
    using that by (induction rs) auto
  then show ?thesis
    by (auto simp: evaluate_waf_def waf_is_active_def find_append find_filter split: option.splits)
qed

text \<open>C24: Path traversal cannot be hidden by percent encoding.  With the built-in rules on and no
  earlier rule of the site matching, every request whose path is any percent encoding of a
  text that contains a parent-directory step is blocked by the traversal rule.\<close>
theorem waf_blocks_encoded_traversal:
  assumes "wp_enabled p" and "wp_use_builtin_rules p"
    and "\<forall>r \<in> set (wp_rules p). wr_enabled r \<longrightarrow> \<not> rule_matches r req"
    and "encodes (rv_path req) decoded" and "contains_str decoded ''../''"
  shows "evaluate_waf p req = Some \<lparr>wh_rule_id = ''builtin-path-traversal'', wh_action = WafBlock\<rparr>"
proof -
  let ?r = "builtin_rule ''builtin-path-traversal'' (Some ''../'') None"
  have "contains_ci (percent_decode_lossy (rv_path req)) ''../''"
    using assms(4,5) lossy_contains_dotdot
    by (intro contains_ci_lower) (simp_all add: percent_decode_lossy_def percent_decode_encodes)
  then have hit: "rule_matches ?r req"
    by (simp add: rule_matches_def builtin_rule_def needle_def)
  have none: "find (\<lambda>r. rule_matches r req) (filter wr_enabled (wp_rules p)) = None"
    using assms(3) by (auto simp: find_None_iff)
  have "wr_enabled ?r \<and> rule_matches ?r req" using hit by (simp add: builtin_rule_def)
  then have "find (\<lambda>r. wr_enabled r \<and> rule_matches r req) builtin_rules = Some ?r"
    unfolding builtin_rules_def by (simp only: find.simps if_True simp_thms)
  then show ?thesis
    using assms(1,2) by (simp add: evaluate_waf_def waf_is_active_def none hit_of_def) (simp add: builtin_rule_def)
qed

theorem waf_blocks_encoded_traversal_witness:
  "evaluate_waf \<lparr>wp_enabled = True, wp_use_builtin_rules = True, wp_rules = []\<rparr>
     \<lparr>rv_method = ''GET'', rv_path = ''/%2E./etc'', rv_query = [], rv_user_agent = None, rv_accept = None,
      rv_accept_language = None, rv_cookie = None, rv_client_ip = None\<rparr> =
   Some \<lparr>wh_rule_id = ''builtin-path-traversal'', wh_action = WafBlock\<rparr>"
  by (rule waf_blocks_encoded_traversal [where decoded = "''/../etc''"])
    (auto intro!: encodes.intros simp: hex_of_def run)

text \<open>A rule without any effective condition never fires: when all three of its patterns are absent
  or empty it matches no request, whatever its methods say, so a half-filled rule in the
  configuration cannot block a site.\<close>
lemma empty_rule_never_matches:
  assumes "\<forall>n \<in> {wr_path_contains r, wr_query_contains r, wr_ua_contains r}. n = None \<or> n = Some []"
  shows "\<not> rule_matches r req \<and> \<not> rule_matches (normalize_rule r) req"
proof -
  have "needle n = None \<and> needle (map_option trim n) = None" if "n = None \<or> n = Some []" for n
    using that by (auto simp: needle_def)
  then show ?thesis
    using assms by (simp add: rule_matches_def normalize_rule_def Let_def)
qed

end
