(* ===== verification/Bot.thy ===== *)
theory Bot
  imports Waf
begin

text \<open>
  src/src/security/bot.rs: the bot policy, the per-address request counter over one-minute
  windows, and the score.  Instants are counted in nanoseconds; \<^verbatim>\<open>duration_since\<close> saturates at
  zero as the standard library's does.  The process-wide rate table is passed explicitly.
\<close>

record BotPolicy =
  bp_enabled :: bool
  challenge_score :: u32
  block_score :: u32
  rate_limit_per_min :: u32

definition default_challenge_score :: u32 where
  "default_challenge_score = 40"

definition default_block_score :: u32 where
  "default_block_score = 80"

definition default_rate_limit :: u32 where
  "default_rate_limit = 120"

definition bot_default :: BotPolicy where
  "bot_default = \<lparr>bp_enabled = False, challenge_score = default_challenge_score,
     block_score = default_block_score, rate_limit_per_min = default_rate_limit\<rparr>"

definition bot_is_active :: "BotPolicy \<Rightarrow> bool" where
  "bot_is_active p \<longleftrightarrow> bp_enabled p"

definition bot_is_default :: "BotPolicy \<Rightarrow> bool" where
  "bot_is_default p \<longleftrightarrow> \<not> bp_enabled p \<and> challenge_score p = default_challenge_score \<and>
     block_score p = default_block_score \<and> rate_limit_per_min p = default_rate_limit"

definition bot_normalized :: "BotPolicy \<Rightarrow> BotPolicy" where
  "bot_normalized p =
     (let p1 = (if challenge_score p = 0 then p\<lparr>challenge_score := default_challenge_score\<rparr> else p);
          p2 = (if block_score p1 = 0 then p1\<lparr>block_score := default_block_score\<rparr> else p1);
          p3 = (if block_score p2 < challenge_score p2 then p2\<lparr>block_score := challenge_score p2\<rparr> else p2)
      in if rate_limit_per_min p3 = 0 then p3\<lparr>rate_limit_per_min := default_rate_limit\<rparr> else p3)"

datatype BotVerdict = BotAllow | BotChallenge | BotBlock

record BotScore =
  bs_score :: u32
  bs_verdict :: BotVerdict
  bs_reasons :: "string list"

definition AUTOMATION_UA :: "string list" where
  "AUTOMATION_UA =
     [''curl/'', ''wget/'', ''python-requests'', ''python-urllib'', ''go-http-client'', ''scrapy'',
      ''httpclient'', ''libwww-perl'', ''java/'', ''okhttp'', ''headlesschrome'', ''phantomjs'']"

record RateBucket =
  rb_window_start :: nat
  rb_count :: u32

type_synonym rate_map = "(string, RateBucket) hmap"

definition secs :: "nat \<Rightarrow> nat" where
  "secs n = n * 1000000000"

definition record_rate :: "nat \<Rightarrow> string \<Rightarrow> u32 \<Rightarrow> rate_map \<Rightarrow> u32 \<times> rate_map" where
  "record_rate now ip limit m0 =
     (let m = (if 10000 < length m0 then filter (\<lambda>(_, b). now - rb_window_start b < secs 120) m0 else m0);
          e0 = get_or \<lparr>rb_window_start = now, rb_count = 0\<rparr> (map_of m ip);
          e1 = (if secs 60 \<le> now - rb_window_start e0 then \<lparr>rb_window_start = now, rb_count = 0\<rparr> else e0);
          e2 = e1\<lparr>rb_count := saturating_add (rb_count e1) 1\<rparr>
      in (if limit < rb_count e2 then saturating_sub (rb_count e2) limit else 0, AList.update ip e2 m))"

definition present :: "string option \<Rightarrow> string option" where
  "present h = filter_opt (\<lambda>s. s \<noteq> []) (map_option trim h)"

definition ua_signals :: "string option \<Rightarrow> (u32 \<times> string) list" where
  "ua_signals ua =
     (case present ua of
        None \<Rightarrow> [(45, ''missing-ua'')]
      | Some u \<Rightarrow>
          let l = to_ascii_lowercase u in
          (if list_ex (contains_str l) AUTOMATION_UA then [(30, ''automation-ua'')] else []) @
          (if length l < 12 then [(15, ''short-ua'')] else []))"

definition header_signals :: "RequestView \<Rightarrow> (u32 \<times> string) list" where
  "header_signals req =
     (if present (rv_accept req) = None then [(15, ''missing-accept'')] else []) @
     (if present (rv_accept_language req) = None then [(10, ''missing-accept-language'')] else [])"

definition rate_signal :: "u32 \<Rightarrow> (u32 \<times> string) list" where
  "rate_signal over = (if 0 < over then [(saturating_add 25 (min (over div 10) 40), ''rate'')] else [])"

definition verdict_of :: "BotPolicy \<Rightarrow> u32 \<Rightarrow> BotVerdict" where
  "verdict_of p score =
     (if block_score p \<le> score then BotBlock else if challenge_score p \<le> score then BotChallenge else BotAllow)"

definition score_bot :: "nat \<Rightarrow> BotPolicy \<Rightarrow> RequestView \<Rightarrow> rate_map \<Rightarrow> BotScore \<times> rate_map" where
  "score_bot now p req m =
     (let (rate, m') = (case present (rv_client_ip req) of
               None \<Rightarrow> ([], m)
             | Some ip \<Rightarrow> (let (over, m') = record_rate now ip (rate_limit_per_min p) m in (rate_signal over, m')));
          signals = ua_signals (rv_user_agent req) @ header_signals req @ rate;
          score = foldl (\<lambda>s sig. s + fst sig) 0 signals
      in (\<lparr>bs_score = score, bs_verdict = verdict_of p score, bs_reasons = map snd signals\<rparr>, m'))"

section \<open>Normal form\<close>

lemma bot_normalized_idem [norm_idem, simp]: "bot_normalized (bot_normalized p) = bot_normalized p"
  by (cases "challenge_score p = 0"; cases "block_score p = 0"; cases "rate_limit_per_min p = 0")
    (simp_all add: bot_normalized_def Let_def default_challenge_score_def default_block_score_def default_rate_limit_def)

interpretation bot_nf: normaliser bot_normalized
  by unfold_locales (simp add: norm_idem)

lemma bot_normalized_order:
  "challenge_score (bot_normalized p) \<noteq> 0 \<and> challenge_score (bot_normalized p) \<le> block_score (bot_normalized p)"
  by (auto simp: bot_normalized_def Let_def default_challenge_score_def default_block_score_def)

section \<open>Score\<close>

lemma verdict_of_ordered:
  assumes "challenge_score p \<noteq> 0" and "challenge_score p \<le> block_score p"
  shows "(verdict_of p s \<noteq> BotAllow \<longleftrightarrow> challenge_score p \<le> s) \<and> (verdict_of p s \<noteq> BotAllow \<longrightarrow> 0 < s)"
proof -
  have "verdict_of p s \<noteq> BotAllow \<longleftrightarrow> challenge_score p \<le> s"
    using assms(2) by (auto simp: verdict_of_def intro: order.trans)
  moreover have "challenge_score p \<le> s \<Longrightarrow> 0 < s"
    using assms(1) by (metis word_gt_0 word_le_0_iff)
  ultimately show ?thesis by blast
qed

lemma foldl_score_nat:
  "sum_list (map (unat \<circ> fst) sigs) + unat s < 2 ^ 32 \<Longrightarrow>
   unat (foldl (\<lambda>s sig. s + fst sig) (s :: u32) sigs) = unat s + sum_list (map (unat \<circ> fst) sigs)"
proof (induction sigs arbitrary: s)
  case (Cons sig sigs)
  have "unat (s + fst sig) = unat s + unat (fst sig)"
    using Cons.prems by (intro unat_add_lem [THEN iffD1]) simp
  with Cons.IH [of "s + fst sig"] Cons.prems show ?case
    by simp
qed simp

lemma ua_signals_bound: "sum_list (map (unat \<circ> fst) (ua_signals ua)) \<le> 45"
  by (auto simp: ua_signals_def Let_def split: option.splits)

lemma header_signals_bound: "sum_list (map (unat \<circ> fst) (header_signals req)) \<le> 25"
  by (auto simp: header_signals_def)

lemma rate_signal_bound: "sum_list (map (unat \<circ> fst) (rate_signal over)) \<le> 65"
proof -
  have "unat (min (over div 10) 40) \<le> 40"
    by (simp add: min_def word_le_nat_alt)
  then show ?thesis
    by (simp add: rate_signal_def unat_saturating_add)
qed

section \<open>Rate counting\<close>

definition in_window :: "rate_map \<Rightarrow> string \<Rightarrow> nat \<Rightarrow> nat \<Rightarrow> bool" where
  "in_window m ip start n \<longleftrightarrow>
     (\<exists>b. map_of m ip = Some b \<and> rb_window_start b = start \<and> unat (rb_count b) = n)"

lemma map_of_filter_keep:
  "map_of m k = Some v \<Longrightarrow> distinct (map fst m) \<Longrightarrow> P (k, v) \<Longrightarrow> map_of (filter P m) k = Some v"
  by (induction m) (auto simp: image_iff dest: map_of_SomeD)

lemma record_rate_step:
  assumes "distinct (map fst m)" and "in_window m ip start n" and "start \<le> now" and "now < start + secs 60"
    and "n + 1 < 2 ^ 32"
  shows "in_window (snd (record_rate now ip limit m)) ip start (n + 1)"
    and "unat (fst (record_rate now ip limit m)) = n + 1 - unat limit"
proof -
  let ?m = "if 10000 < length m then filter (\<lambda>(_, b). now - rb_window_start b < secs 120) m else m"
  from assms(2) obtain b where b: "map_of m ip = Some b" "rb_window_start b = start" "unat (rb_count b) = n"
    by (auto simp: in_window_def)
  have "map_of ?m ip = Some b"
    using map_of_filter_keep [OF b(1) assms(1)] b assms(3,4) by (simp add: secs_def)
  moreover have "\<not> secs 60 \<le> now - start"
    using assms(3,4) by linarith
  ultimately have rec: "record_rate now ip limit m =
      (let c = saturating_add (rb_count b) 1 in
       (if limit < c then saturating_sub c limit else 0, AList.update ip (b\<lparr>rb_count := c\<rparr>) ?m))"
    using b(2) by (simp add: record_rate_def Let_def)
  have c: "unat (saturating_add (rb_count b) 1) = n + 1"
    using assms(5) b(3) by (simp add: unat_saturating_add)
  then show "in_window (snd (record_rate now ip limit m)) ip start (n + 1)"
    using b(2) by (simp add: rec in_window_def Let_def update_conv')
  show "unat (fst (record_rate now ip limit m)) = n + 1 - unat limit"
    using c by (auto simp: rec Let_def unat_saturating_sub word_less_nat_alt)
qed

lemma distinct_filter_keys: "distinct (map fst m) \<Longrightarrow> distinct (map fst (filter P m))"
  by (simp add: distinct_map_filter)

lemma record_rate_distinct: "distinct (map fst m) \<Longrightarrow> distinct (map fst (snd (record_rate now ip limit m)))"
  by (simp add: record_rate_def Let_def distinct_update distinct_filter_keys)

interpretation rate_table: invariant_system "\<lambda>m (now, ip, limit). snd (record_rate now ip limit m)"
  "\<lambda>m. distinct (map fst m)"
  by unfold_locales (auto simp: record_rate_distinct)

lemma record_rate_first:
  assumes "map_of m ip = None" and "distinct (map fst m)"
  shows "in_window (snd (record_rate now ip limit m)) ip now 1"
    and "unat (fst (record_rate now ip limit m)) = 1 - unat limit"
proof -
  let ?m = "if 10000 < length m then filter (\<lambda>(_, b). now - rb_window_start b < secs 120) m else m"
  have "map_of ?m ip = None"
    using assms(1) by (auto simp: map_of_eq_None_iff)
  then have rec: "record_rate now ip limit m =
      (if limit < 1 then saturating_sub 1 limit else 0, AList.update ip \<lparr>rb_window_start = now, rb_count = 1\<rparr> ?m)"
    by (simp add: record_rate_def Let_def secs_def saturating_add_def)
  show "in_window (snd (record_rate now ip limit m)) ip now 1"
    by (simp add: rec in_window_def update_conv')
  show "unat (fst (record_rate now ip limit m)) = 1 - unat limit"
    by (auto simp: rec unat_saturating_sub word_less_nat_alt)
qed

fun record_all :: "string \<Rightarrow> u32 \<Rightarrow> nat list \<Rightarrow> rate_map \<Rightarrow> u32 \<times> rate_map" where
  "record_all ip limit [] m = (0, m)"
| "record_all ip limit (t # ts) m =
     (case record_rate t ip limit m of (over, m') \<Rightarrow> if ts = [] then (over, m') else record_all ip limit ts m')"

lemma record_all_window:
  assumes "distinct (map fst m)" and "in_window m ip start n"
    and "\<forall>t \<in> set ts. start \<le> t \<and> t < start + secs 60" and "ts \<noteq> []" and "n + length ts < 2 ^ 32"
  shows "unat (fst (record_all ip limit ts m)) = n + length ts - unat limit"
  using assms
proof (induction ts arbitrary: m n)
  case (Cons t ts)
  let ?r = "record_rate t ip limit m"
  have step: "in_window (snd ?r) ip start (n + 1)" "unat (fst ?r) = n + 1 - unat limit"
    using record_rate_step [OF Cons.prems(1,2), of t limit] Cons.prems(3,5) by simp_all
  have "distinct (map fst (snd ?r))"
    using Cons.prems(1) by (rule record_rate_distinct)
  with Cons.IH [of "snd ?r" "n + 1"] step Cons.prems show ?case
    by (auto split: prod.splits)
qed simp

section \<open>Properties\<close>



text \<open>The request counter counts one minute exactly.  For an address not seen before, the last of n
  requests made within 60 seconds of the first reports precisely the number by which n exceeds
  the limit, whatever other addresses the table holds and even when the table is pruned on the
  way.\<close>
lemma record_rate_counts_window:
  assumes "distinct (map fst m)" and "map_of m ip = None"
    and "\<forall>t \<in> set ts. first \<le> t \<and> t < first + secs 60" and "Suc (length ts) < 2 ^ 32"
  shows "unat (fst (record_all ip limit (first # ts) m)) = Suc (length ts) - unat limit"
proof (cases "ts = []")
  case True
  then show ?thesis
    using record_rate_first(2) [OF assms(2,1)] by (auto split: prod.splits)
next
  case False
  let ?r = "record_rate first ip limit m"
  have "unat (fst (record_all ip limit ts (snd ?r))) = 1 + length ts - unat limit"
    using record_all_window [of "snd ?r" ip first 1 ts] record_rate_first(1) [OF assms(2,1)]
      record_rate_distinct [OF assms(1)] assms(3,4) False by simp
  with False show ?thesis
    by (auto split: prod.splits)
qed

lemma record_rate_counts_window_example:
  "unat (fst (record_all ''1.2.3.4'' 2 [0, secs 1, secs 59] [])) = 1"
  using record_rate_counts_window [of "[]" "''1.2.3.4''" "[secs 1, secs 59]" 0 2] by (simp add: secs_def)

end
