(* ===== verification/Captcha.thy ===== *)
theory Captcha
  imports Waf
begin

text \<open>
  src/src/security/captcha.rs: the arithmetic challenge, its signed token, the signed pass
  cookie and the redirect target.  HMAC-SHA256 and the hexadecimal encoding are a parameter:
  \<^verbatim>\<open>mac\<close> maps a message to the lower-case hexadecimal digest under the process secret, and what
  is relied on is that a digest is 64 hexadecimal characters (\<^verbatim>\<open>hex_mac\<close>).  The clock and the
  two random summands are arguments.  Of the challenge page the five substituted values are
  modelled, not the constant markup around them.
\<close>

definition CAPTCHA_PATH :: string where
  "CAPTCHA_PATH = ''/.pertisk/captcha''"

definition CAPTCHA_VERIFY_PATH :: string where
  "CAPTCHA_VERIFY_PATH = ''/.pertisk/captcha/verify''"

definition COOKIE_NAME :: string where
  "COOKIE_NAME = ''pertisk_captcha''"

definition CHALLENGE_TTL_SECS :: u64 where
  "CHALLENGE_TTL_SECS = 600"

record CaptchaPolicy =
  cp_enabled :: bool
  cookie_ttl_secs :: u64

definition default_cookie_ttl :: u64 where
  "default_cookie_ttl = 86400"

definition captcha_default :: CaptchaPolicy where
  "captcha_default = \<lparr>cp_enabled = False, cookie_ttl_secs = default_cookie_ttl\<rparr>"

definition captcha_is_default :: "CaptchaPolicy \<Rightarrow> bool" where
  "captcha_is_default p \<longleftrightarrow> \<not> cp_enabled p \<and> cookie_ttl_secs p = default_cookie_ttl"

definition captcha_normalized :: "CaptchaPolicy \<Rightarrow> CaptchaPolicy" where
  "captcha_normalized p = (if cookie_ttl_secs p = 0 then p\<lparr>cookie_ttl_secs := default_cookie_ttl\<rparr> else p)"

definition env_secret :: "(string \<Rightarrow> string option) \<Rightarrow> string \<Rightarrow> string option" where
  "env_secret env key = filter_opt (\<lambda>t. t \<noteq> []) (map_option trim (env key))"

definition captcha_secret :: "(string \<Rightarrow> string option) \<Rightarrow> string \<Rightarrow> string" where
  "captcha_secret env random_bytes =
     get_or random_bytes
       (or_else (env_secret env ''PERTISK_CAPTCHA_SECRET'') (env_secret env ''PERTISK_AUTH_SIGNING_SECRET''))"

definition verify_sig :: "(string \<Rightarrow> string) \<Rightarrow> string \<Rightarrow> string \<Rightarrow> bool" where
  "verify_sig mac payload sig = eq_ignore_ascii_case (mac payload) (trim sig)"

definition is_captcha_path :: "string \<Rightarrow> bool" where
  "is_captcha_path p = (let path = before CHR ''?'' p in path = CAPTCHA_PATH \<or> path = CAPTCHA_VERIFY_PATH)"

fun cookie_scan :: "string \<Rightarrow> string list \<Rightarrow> string option" where
  "cookie_scan name [] = None"
| "cookie_scan name (part # parts) =
     (case split_once CHR ''='' (trim part) of
        Some (k, v) \<Rightarrow> if trim k = name then Some (trim v) else cookie_scan name parts
      | None \<Rightarrow> cookie_scan name parts)"

definition parse_cookie_value :: "string \<Rightarrow> string \<Rightarrow> string option" where
  "parse_cookie_value cookie_header name = cookie_scan name (split_on (\<lambda>c. c = CHR '';'') cookie_header)"

definition short_ip_tag :: "(string \<Rightarrow> string) \<Rightarrow> string \<Rightarrow> string" where
  "short_ip_tag mac ip = take 16 (mac ip)"

definition has_valid_pass_cookie :: "(string \<Rightarrow> string) \<Rightarrow> u64 \<Rightarrow> string option \<Rightarrow> string option \<Rightarrow> bool" where
  "has_valid_pass_cookie mac now cookie_header client_ip =
     (case cookie_header of
        None \<Rightarrow> False
      | Some header \<Rightarrow>
          (case parse_cookie_value header COOKIE_NAME of
             None \<Rightarrow> False
           | Some raw \<Rightarrow>
               (case split_on (\<lambda>c. c = CHR ''.'') raw of
                  [p0, p1, p2, p3] \<Rightarrow>
                    if p0 \<noteq> ''v1'' then False
                    else (case (parse_word p1 :: u64 option) of
                        None \<Rightarrow> False
                      | Some exp \<Rightarrow>
                          if exp < now then False
                          else if \<not> verify_sig mac (''v1.'' @ p1 @ ''.'' @ p2) p3 then False
                          else if p2 \<noteq> ''-'' then
                            (case client_ip of Some ip \<Rightarrow> p2 = short_ip_tag mac ip | None \<Rightarrow> True)
                          else True)
                | _ \<Rightarrow> False)))"

definition mint_pass_cookie :: "(string \<Rightarrow> string) \<Rightarrow> u64 \<Rightarrow> string option \<Rightarrow> u64 \<Rightarrow> string" where
  "mint_pass_cookie mac now client_ip ttl_secs =
     (let exp = saturating_add now (max ttl_secs 60);
          ip_tag = (case client_ip of Some ip \<Rightarrow> short_ip_tag mac ip | None \<Rightarrow> ''-'');
          payload = ''v1.'' @ show_word exp @ ''.'' @ ip_tag;
          val = payload @ ''.'' @ mac payload
      in COOKIE_NAME @ ''='' @ val @ ''; Path=/; HttpOnly; SameSite=Lax; Max-Age='' @ show_word ttl_secs)"

record Challenge =
  ch_a :: u32
  ch_b :: u32
  ch_token :: string

definition mint_challenge :: "(string \<Rightarrow> string) \<Rightarrow> u64 \<Rightarrow> u32 \<Rightarrow> u32 \<Rightarrow> Challenge" where
  "mint_challenge mac now a b =
     (let exp = saturating_add now CHALLENGE_TTL_SECS;
          payload = ''c1.'' @ show_word a @ ''.'' @ show_word b @ ''.'' @ show_word exp
      in \<lparr>ch_a = a, ch_b = b, ch_token = payload @ ''.'' @ mac payload\<rparr>)"

definition verify_challenge_token :: "(string \<Rightarrow> string) \<Rightarrow> u64 \<Rightarrow> string \<Rightarrow> string \<Rightarrow> bool" where
  "verify_challenge_token mac now token answer =
     (case split_on (\<lambda>c. c = CHR ''.'') token of
        [p0, p1, p2, p3, p4] \<Rightarrow>
          if p0 \<noteq> ''c1'' then False
          else
            (case ((parse_word p1 :: u32 option), (parse_word p2 :: u32 option), (parse_word p3 :: u64 option)) of
               (Some a, Some b, Some exp) \<Rightarrow>
                 if exp < now then False
                 else if \<not> verify_sig mac
                     (''c1.'' @ show_word a @ ''.'' @ show_word b @ ''.'' @ show_word exp) p4 then False
                 else (case (parse_word (trim answer) :: u32 option) of
                     None \<Rightarrow> False
                   | Some ans \<Rightarrow> ans = saturating_add a b)
             | _ \<Rightarrow> False)
      | _ \<Rightarrow> False)"

definition replace_with :: "char \<Rightarrow> string \<Rightarrow> string \<Rightarrow> string" where
  "replace_with c t s = concat (map (\<lambda>x. if x = c then t else [x]) s)"

definition html_escape :: "string \<Rightarrow> string" where
  "html_escape s =
     replace_with CHR 0x22 ''&quot;'' (replace_with CHR ''>'' ''&gt;''
       (replace_with CHR ''<'' ''&lt;'' (replace_with CHR ''&'' ''&amp;'' s)))"

record challenge_fields =
  cf_reason :: string
  cf_a :: u32
  cf_b :: u32
  cf_token :: string
  cf_next :: string

definition challenge_page :: "(string \<Rightarrow> string) \<Rightarrow> u64 \<Rightarrow> u32 \<Rightarrow> u32 \<Rightarrow> string \<Rightarrow> string \<Rightarrow> challenge_fields" where
  "challenge_page mac now a b next_path reason =
     (let c = mint_challenge mac now a b in
      \<lparr>cf_reason = html_escape reason, cf_a = ch_a c, cf_b = ch_b c, cf_token = html_escape (ch_token c),
       cf_next = html_escape (if next_path = [] then ''/'' else next_path)\<rparr>)"

datatype captcha_error = MissingToken | MissingAnswer | IncorrectAnswer

definition verify_and_pass_cookie :: "(string \<Rightarrow> string) \<Rightarrow> u64 \<Rightarrow> string option \<Rightarrow> string option \<Rightarrow>
    string option \<Rightarrow> string option \<Rightarrow> u64 \<Rightarrow> captcha_error + (string \<times> string)" where
  "verify_and_pass_cookie mac now token answer next_path client_ip ttl_secs =
     (case token of
        None \<Rightarrow> Inl MissingToken
      | Some t \<Rightarrow>
          (case answer of
             None \<Rightarrow> Inl MissingAnswer
           | Some a \<Rightarrow>
               if \<not> verify_challenge_token mac now t a then Inl IncorrectAnswer
               else
                 let nx = get_or ''/'' next_path;
                     nx' = (if starts_with nx ''/'' \<and> \<not> starts_with nx ''//'' then nx else ''/'')
                 in Inr (mint_pass_cookie mac now client_ip ttl_secs, nx')))"

section \<open>What is relied on of the digest\<close>

definition lower_hex :: "char \<Rightarrow> bool" where
  "lower_hex c \<longleftrightarrow> is_digit c \<or> 97 \<le> code c \<and> code c \<le> 102"

definition hex_mac :: "(string \<Rightarrow> string) \<Rightarrow> bool" where
  "hex_mac mac \<longleftrightarrow> (\<forall>s. length (mac s) = 64 \<and> list_all lower_hex (mac s))"

definition plain :: "string \<Rightarrow> bool" where
  "plain s \<longleftrightarrow> list_all (\<lambda>c. lower_hex c \<or> c = CHR ''-'' \<or> c = CHR ''v'') s"

lemma plain_chars:
  "plain s \<Longrightarrow> c \<in> set s \<Longrightarrow> 45 \<le> code c \<and> code c < 128 \<and> c \<noteq> CHR ''.'' \<and> c \<noteq> CHR '';'' \<and> c \<noteq> CHR ''=''"
  by (auto simp: plain_def list_all_iff lower_hex_def is_digit_def)

lemma hex_mac_plain: "hex_mac mac \<Longrightarrow> plain (mac s)"
  by (auto simp: hex_mac_def plain_def list_all_iff)

lemma show_word_plain: "plain (show_word w)"
  using show_word_digits(1) [of w] by (auto simp: plain_def list_all_iff lower_hex_def)

lemma short_ip_tag_plain: "hex_mac mac \<Longrightarrow> plain (short_ip_tag mac ip)"
  using hex_mac_plain [of mac ip] by (auto simp: short_ip_tag_def plain_def list_all_iff dest: in_set_takeD)

lemma plain_trim: "plain s \<Longrightarrow> trim s = s"
  using plain_chars by (intro visible_trim) fastforce

lemma split_dots:
  "ws \<noteq> [] \<Longrightarrow> list_all plain ws \<Longrightarrow> split_on (\<lambda>c. c = CHR ''.'') (join ''.'' ws) = ws"
  using plain_chars by (intro split_on_join) (fastforce simp: list_all_iff)+

section \<open>Cookies\<close>

definition pass_value :: "(string \<Rightarrow> string) \<Rightarrow> u64 \<Rightarrow> string \<Rightarrow> string" where
  "pass_value mac exp tag = join ''.'' [''v1'', show_word exp, tag, mac (''v1.'' @ show_word exp @ ''.'' @ tag)]"

definition pass_header :: "(string \<Rightarrow> string) \<Rightarrow> u64 \<Rightarrow> string \<Rightarrow> string" where
  "pass_header mac exp tag = COOKIE_NAME @ ''='' @ pass_value mac exp tag"

definition tag_of :: "(string \<Rightarrow> string) \<Rightarrow> string option \<Rightarrow> string" where
  "tag_of mac ip = (case ip of Some i \<Rightarrow> short_ip_tag mac i | None \<Rightarrow> ''-'')"

lemma tag_of_plain: "hex_mac mac \<Longrightarrow> plain (tag_of mac ip)"
  by (auto simp: tag_of_def short_ip_tag_plain split: option.splits) (simp add: plain_def)

lemma pass_value_chars:
  assumes "hex_mac mac" and "plain tag" and "c \<in> set (pass_value mac exp tag)"
  shows "45 \<le> code c \<and> code c < 128 \<and> c \<noteq> CHR '';''"
proof -
  have "c \<in> set (show_word exp) \<or> c \<in> set tag \<or> c \<in> set (mac (''v1.'' @ show_word exp @ ''.'' @ tag))
      \<or> c \<in> {CHR ''v'', CHR ''1'', CHR ''.''}"
    using assms(3) by (auto simp: pass_value_def)
  moreover have "45 \<le> code d \<and> code d < 128 \<and> d \<noteq> CHR '';''" if "plain s" "d \<in> set s" for d s
    using plain_chars [OF that] by blast
  note this [OF show_word_plain] this [OF assms(2)] this [OF hex_mac_plain [OF assms(1)]]
  moreover have "45 \<le> code d \<and> code d < 128 \<and> d \<noteq> CHR '';''" if "d \<in> {CHR ''v'', CHR ''1'', CHR ''.''}" for d
    using that by auto
  ultimately show ?thesis
    by blast
qed

lemma mint_pass_cookie_value:
  assumes "hex_mac mac"
  shows "before CHR '';'' (mint_pass_cookie mac now ip ttl) =
    pass_header mac (saturating_add now (max ttl 60)) (tag_of mac ip)"
proof -
  let ?v = "pass_value mac (saturating_add now (max ttl 60)) (tag_of mac ip)"
    and ?h = "pass_header mac (saturating_add now (max ttl 60)) (tag_of mac ip)"
  have "mint_pass_cookie mac now ip ttl = ?h @ CHR '';'' # '' Path=/; HttpOnly; SameSite=Lax; Max-Age='' @ show_word ttl"
    by (simp add: mint_pass_cookie_def pass_value_def pass_header_def tag_of_def Let_def)
  moreover have "CHR '';'' \<notin> set ?h"
    using pass_value_chars [OF assms tag_of_plain [OF assms]] by (auto simp: COOKIE_NAME_def pass_header_def)
  ultimately show ?thesis
    by (simp add: before_append)
qed

lemma parse_pass_cookie:
  assumes "hex_mac mac" and "plain tag"
  shows "parse_cookie_value (pass_header mac exp tag) COOKIE_NAME = Some (pass_value mac exp tag)"
proof -
  let ?v = "pass_value mac exp tag" and ?h = "pass_header mac exp tag"
  have v: "45 \<le> code c \<and> code c < 128 \<and> c \<noteq> CHR '';''" if "c \<in> set ?v" for c
    using pass_value_chars [OF assms that] .
  have n: "33 \<le> code c \<and> code c < 128 \<and> c \<noteq> CHR '';'' \<and> c \<noteq> CHR ''=''" if "c \<in> set COOKIE_NAME" for c
    using that by (auto simp: COOKIE_NAME_def)
  have "split_on (\<lambda>c. c = CHR '';'') ?h = [?h]"
    using v n by (intro split_on_none) (auto simp: pass_header_def)
  moreover have "trim ?h = ?h" "trim ?v = ?v" "trim COOKIE_NAME = COOKIE_NAME"
    using v n by (fastforce intro!: visible_trim simp: pass_header_def)+
  moreover have "split_once CHR ''='' ?h = Some (COOKIE_NAME, ?v)"
    using n by (auto simp: split_once_Some pass_header_def)
  ultimately show ?thesis
    by (simp add: parse_cookie_value_def)
qed

lemma verify_own_sig: "hex_mac mac \<Longrightarrow> verify_sig mac p (mac p)"
  by (simp add: verify_sig_def plain_trim hex_mac_plain eq_ignore_ascii_case_def)

lemma pass_value_accepted:
  assumes "hex_mac mac" and "plain tag"
  shows "has_valid_pass_cookie mac now (Some (pass_header mac exp tag)) ip \<longleftrightarrow>
    now \<le> exp \<and> (tag = ''-'' \<or> ip = None \<or> ip \<noteq> None \<and> tag = tag_of mac ip)"
proof -
  have "split_on (\<lambda>c. c = CHR ''.'') (pass_value mac exp tag) =
      [''v1'', show_word exp, tag, mac (''v1.'' @ show_word exp @ ''.'' @ tag)]"
    unfolding pass_value_def
    by (rule split_dots) (simp_all add: show_word_plain assms hex_mac_plain, simp add: plain_def lower_hex_def is_digit_def)
  then show ?thesis
    by (auto simp: has_valid_pass_cookie_def parse_pass_cookie [OF assms] verify_own_sig [OF assms(1)]
        tag_of_def not_less [symmetric] split: option.splits)
qed

section \<open>Challenges\<close>

lemma verify_minted:
  assumes "hex_mac mac"
  shows "verify_challenge_token mac now' (ch_token (mint_challenge mac now a b)) answer \<longleftrightarrow>
    now' \<le> saturating_add now CHALLENGE_TTL_SECS \<and> parse_word (trim answer) = Some (saturating_add a b)"
proof -
  let ?exp = "saturating_add now CHALLENGE_TTL_SECS"
  let ?p = "''c1.'' @ show_word a @ ''.'' @ show_word b @ ''.'' @ show_word ?exp"
  have "split_on (\<lambda>c. c = CHR ''.'') (join ''.'' [''c1'', show_word a, show_word b, show_word ?exp, mac ?p]) =
      [''c1'', show_word a, show_word b, show_word ?exp, mac ?p]"
    by (rule split_dots) (simp_all add: show_word_plain assms hex_mac_plain, simp add: plain_def lower_hex_def is_digit_def)
  then have "split_on (\<lambda>c. c = CHR ''.'') (ch_token (mint_challenge mac now a b)) =
      [''c1'', show_word a, show_word b, show_word ?exp, mac ?p]"
    by (simp add: mint_challenge_def Let_def)
  then show ?thesis
    by (auto simp: verify_challenge_token_def verify_own_sig [OF assms] not_less [symmetric]
        split: option.splits)
qed

section \<open>Escaping\<close>

definition esc_char :: "char \<Rightarrow> string" where
  "esc_char c =
     (if c = CHR ''&'' then ''&amp;'' else if c = CHR ''<'' then ''&lt;''
      else if c = CHR ''>'' then ''&gt;'' else if c = CHR 0x22 then ''&quot;'' else [c])"

lemma html_escape_single_pass: "html_escape s = concat (map esc_char s)"
proof (induction s)
  case (Cons c s)
  have app: "replace_with d t (x @ y) = replace_with d t x @ replace_with d t y" for d t x y
    by (simp add: replace_with_def)
  have "html_escape (c # s) = html_escape [c] @ html_escape s"
    unfolding html_escape_def app [symmetric] by (simp add: replace_with_def)
  moreover have "html_escape [c] = esc_char c"
    by (simp add: html_escape_def esc_char_def replace_with_def)
  ultimately show ?case using Cons by simp
qed (simp add: html_escape_def replace_with_def)

lemma has_valid_pass_cookie_iff:
  "has_valid_pass_cookie mac now (Some header) ip \<longleftrightarrow>
    (\<exists>p1 tag sig exp. parse_cookie_value header COOKIE_NAME = Some (''v1.'' @ p1 @ ''.'' @ tag @ ''.'' @ sig) \<and>
       CHR ''.'' \<notin> set p1 \<and> CHR ''.'' \<notin> set tag \<and> CHR ''.'' \<notin> set sig \<and>
       parse_word p1 = Some exp \<and> now \<le> (exp :: u64) \<and>
       verify_sig mac (''v1.'' @ p1 @ ''.'' @ tag) sig \<and>
       (tag = ''-'' \<or> ip = None \<or> Some tag = map_option (short_ip_tag mac) ip))"
    (is "?L \<longleftrightarrow> ?R")
proof
  assume ?L
  then obtain raw p1 tag sig exp where raw: "parse_cookie_value header COOKIE_NAME = Some raw"
    and sp: "split_on (\<lambda>c. c = CHR ''.'') raw = [''v1'', p1, tag, sig]"
    and rest: "parse_word p1 = Some exp" "now \<le> (exp :: u64)" "verify_sig mac (''v1.'' @ p1 @ ''.'' @ tag) sig"
      "tag = ''-'' \<or> ip = None \<or> Some tag = map_option (short_ip_tag mac) ip"
    by (auto simp: has_valid_pass_cookie_def split: option.splits list.splits if_splits)
  have "raw = join ''.'' [''v1'', p1, tag, sig]"
    using join_split_on [of "CHR ''.''" raw] sp by simp
  moreover have "CHR ''.'' \<notin> set w" if "w \<in> {p1, tag, sig}" for w
    using split_on_clean [of w "\<lambda>c. c = CHR ''.''" raw "CHR ''.''"] that by (auto simp: sp)
  ultimately show ?R
    using raw rest by (intro exI [of _ p1] exI [of _ tag] exI [of _ sig] exI [of _ exp]) simp
next
  assume ?R
  then obtain p1 tag sig exp where
    raw: "parse_cookie_value header COOKIE_NAME = Some (join ''.'' [''v1'', p1, tag, sig])"
    and dots: "CHR ''.'' \<notin> set p1" "CHR ''.'' \<notin> set tag" "CHR ''.'' \<notin> set sig"
    and rest: "parse_word p1 = Some exp" "now \<le> (exp :: u64)" "verify_sig mac (''v1.'' @ p1 @ ''.'' @ tag) sig"
      "tag = ''-'' \<or> ip = None \<or> Some tag = map_option (short_ip_tag mac) ip"
    by auto
  have "split_on (\<lambda>c. c = CHR ''.'') (join ''.'' [''v1'', p1, tag, sig]) = [''v1'', p1, tag, sig]"
    using dots by (intro split_on_join) auto
  with raw rest show ?L
    by (auto simp: has_valid_pass_cookie_def not_less split: option.splits)
qed

section \<open>Properties\<close>


text \<open>C9: Solving the challenge admits the client.  For a token minted with summands below 20, within
  its ten minutes and with the right sum, verification succeeds, redirects to a local path, and
  the cookie it sets is accepted from the same address until the cookie's lifetime is over;
  after ten minutes or with any other answer it is refused and no cookie is set.\<close>
theorem captcha_flow:
  assumes "hex_mac mac" and "a < 20" and "b < 20"
  shows "(if now' \<le> saturating_add now 600 \<and> parse_word (trim answer) = Some (a + b)
     then \<exists>location. verify_and_pass_cookie mac now' (Some (ch_token (mint_challenge mac now a b))) (Some answer) next_path ip ttl =
            Inr (mint_pass_cookie mac now' ip ttl, location) \<and>
          starts_with location ''/'' \<and> \<not> starts_with location ''//'' \<and>
          (\<forall>t. has_valid_pass_cookie mac t (Some (before CHR '';'' (mint_pass_cookie mac now' ip ttl))) ip \<longleftrightarrow>
               t \<le> saturating_add now' (max ttl 60))
     else verify_and_pass_cookie mac now' (Some (ch_token (mint_challenge mac now a b))) (Some answer) next_path ip ttl = Inl IncorrectAnswer)"
proof -
  have "unat a + unat b < 2 ^ 32"
    using assms(2,3) by (simp add: word_less_nat_alt)
  then have "saturating_add a b = a + b"
    by (simp add: saturating_add_def)
  then have v: "verify_challenge_token mac now' (ch_token (mint_challenge mac now a b)) answer \<longleftrightarrow>
      now' \<le> saturating_add now 600 \<and> parse_word (trim answer) = Some (a + b)"
    using verify_minted [OF assms(1), of now' now a b answer] by (simp add: CHALLENGE_TTL_SECS_def)
  have "has_valid_pass_cookie mac t (Some (before CHR '';'' (mint_pass_cookie mac now' ip ttl))) ip \<longleftrightarrow>
      t \<le> saturating_add now' (max ttl 60)" for t
    unfolding mint_pass_cookie_value [OF assms(1)] pass_value_accepted [OF assms(1) tag_of_plain [OF assms(1)]]
    by (cases ip) (auto simp: tag_of_def)
  then show ?thesis
    using v by (auto simp: verify_and_pass_cookie_def Let_def)
qed

theorem captcha_flow_witness:
  "\<exists>location. verify_and_pass_cookie (\<lambda>_. replicate 64 CHR ''a'') 5
      (Some (ch_token (mint_challenge (\<lambda>_. replicate 64 CHR ''a'') 0 3 4))) (Some ''7'') None None 60 =
    Inr (mint_pass_cookie (\<lambda>_. replicate 64 CHR ''a'') 5 None 60, location)"
proof -
  have "hex_mac (\<lambda>_. replicate 64 CHR ''a'')"
    by (simp add: hex_mac_def list_all_iff lower_hex_def is_digit_def)
  moreover have "(parse_word (trim ''7'') :: u32 option) = Some 7"
    by (simp add: run)
  moreover have "(5 :: u64) \<le> saturating_add 0 600"
    by (simp add: saturating_add_def)
  ultimately show ?thesis
    using captcha_flow [of "\<lambda>_. replicate 64 CHR ''a''" 3 4 5 0 "''7''" None None 60] by auto
qed

text \<open>Text reflected on the challenge page cannot leave its place in the markup: the reason, the
  token and the return path are substituted with every quote and angle bracket replaced, and
  an ampersand only ever starts one of the four entities.\<close>
lemma challenge_page_escaped:
  defines "f \<equiv> \<lambda>mac now a b nx reason. challenge_page mac now a b nx reason"
  shows "\<forall>t \<in> {cf_reason (f mac now a b nx reason), cf_token (f mac now a b nx reason), cf_next (f mac now a b nx reason)}.
     CHR ''<'' \<notin> set t \<and> CHR ''>'' \<notin> set t \<and> CHR 0x22 \<notin> set t \<and>
     (\<forall>u v. t = u @ CHR ''&'' # v \<longrightarrow> (\<exists>e \<in> {''amp;'', ''lt;'', ''gt;'', ''quot;''}. starts_with v e))"
proof -
  have "CHR ''<'' \<notin> set (html_escape s) \<and> CHR ''>'' \<notin> set (html_escape s) \<and> CHR 0x22 \<notin> set (html_escape s)" for s
    unfolding html_escape_single_pass by (auto simp: esc_char_def split: if_splits)
  moreover have "\<exists>e \<in> {''amp;'', ''lt;'', ''gt;'', ''quot;''}. starts_with v e"
    if "html_escape s = u @ CHR ''&'' # v" for s u v
    using that
  proof (induction s arbitrary: u)
    case Nil
    then show ?case by (simp add: html_escape_single_pass)
  next
    case (Cons c s)
    let ?t = "html_escape s"
    have split: "esc_char c @ ?t = u @ CHR ''&'' # v"
      using Cons.prems by (simp add: html_escape_single_pass)
    show ?case
    proof (cases "length (esc_char c) \<le> length u")
      case True
      then have "?t = drop (length (esc_char c)) u @ CHR ''&'' # v"
        using arg_cong [OF split, of "drop (length (esc_char c))"] by simp
      then show ?thesis
        by (rule Cons.IH)
    next
      case False
      then obtain us where us: "esc_char c = u @ us" "us @ ?t = CHR ''&'' # v" "us \<noteq> []"
        using split by (auto simp: append_eq_append_conv2)
      then obtain w where w: "esc_char c = u @ CHR ''&'' # w" "v = w @ ?t"
        by (cases us) auto
      then have "u = []" "w \<in> {''amp;'', ''lt;'', ''gt;'', ''quot;''}"
        by (cases u; auto simp: esc_char_def Cons_eq_append_conv split: if_splits)+
      with w(2) show ?thesis
        by (auto simp: starts_with_prefix)
    qed
  qed
  ultimately show ?thesis
    by (simp add: f_def challenge_page_def Let_def)
qed

end
