(* ===== verification/Security.thy ===== *)
theory Security
  imports Geoip Bot Captcha
begin

text \<open>
  src/src/security/mod.rs: the combined policy, the decision that runs the WAF first and the
  bot score second with the captcha pass cookie turning a challenge into a pass, and the
  annotations a policy is kept in.  The rate table of the bot score is threaded through.
\<close>

record SecurityPolicy =
  sp_waf :: WafPolicy
  sp_bot :: BotPolicy
  sp_captcha :: CaptchaPolicy

definition security_default :: SecurityPolicy where
  "security_default = \<lparr>sp_waf = waf_default, sp_bot = bot_default, sp_captcha = captcha_default\<rparr>"

definition security_is_active :: "SecurityPolicy \<Rightarrow> bool" where
  "security_is_active p \<longleftrightarrow> waf_is_active (sp_waf p) \<or> bot_is_active (sp_bot p) \<or> cp_enabled (sp_captcha p)"

definition security_is_default :: "SecurityPolicy \<Rightarrow> bool" where
  "security_is_default p \<longleftrightarrow>
     waf_is_default (sp_waf p) \<and> bot_is_default (sp_bot p) \<and> captcha_is_default (sp_captcha p)"

definition security_normalized :: "SecurityPolicy \<Rightarrow> SecurityPolicy" where
  "security_normalized p = p\<lparr>sp_waf := waf_normalized (sp_waf p), sp_bot := bot_normalized (sp_bot p),
     sp_captcha := captcha_normalized (sp_captcha p)\<rparr>"

datatype SecurityAction = SecAllow | SecLog | SecChallenge | SecBlock

record SecurityDecision =
  sd_action :: SecurityAction
  sd_reason :: string
  sd_detail :: string
  sd_bot_score :: "u32 option"
  sd_waf_rule :: "string option"

definition resolve_challenge :: "(string \<Rightarrow> string) \<Rightarrow> u64 \<Rightarrow> SecurityPolicy \<Rightarrow> RequestView \<Rightarrow> SecurityAction" where
  "resolve_challenge mac now_s p req =
     (if cp_enabled (sp_captcha p) \<and> has_valid_pass_cookie mac now_s (rv_cookie req) (rv_client_ip req) then SecAllow
      else if cp_enabled (sp_captcha p) then SecChallenge
      else SecBlock)"

definition from_bot :: "(string \<Rightarrow> string) \<Rightarrow> u64 \<Rightarrow> SecurityPolicy \<Rightarrow> RequestView \<Rightarrow> BotScore \<Rightarrow>
    string option \<Rightarrow> bool \<Rightarrow> SecurityDecision" where
  "from_bot mac now_s p req score waf_rule prefer_log =
     \<lparr>sd_action = (case bs_verdict score of
          BotAllow \<Rightarrow> if prefer_log then SecLog else SecAllow
        | BotChallenge \<Rightarrow> resolve_challenge mac now_s p req
        | BotBlock \<Rightarrow> SecBlock),
      sd_reason = (case bs_verdict score of
          BotAllow \<Rightarrow> if prefer_log then ''waf-log'' else ''bot-allow''
        | BotChallenge \<Rightarrow> ''bot-challenge''
        | BotBlock \<Rightarrow> ''bot-block''),
      sd_detail = (if prefer_log then get_or (join '','' (bs_reasons score)) waf_rule
                   else join '','' (bs_reasons score)),
      sd_bot_score = Some (bs_score score),
      sd_waf_rule = waf_rule\<rparr>"

definition security_evaluate :: "(string \<Rightarrow> string) \<Rightarrow> nat \<Rightarrow> u64 \<Rightarrow> SecurityPolicy \<Rightarrow> RequestView \<Rightarrow>
    rate_map \<Rightarrow> SecurityDecision \<times> rate_map" where
  "security_evaluate mac now now_s p req m =
     (if \<not> security_is_active p then
        (\<lparr>sd_action = SecAllow, sd_reason = ''off'', sd_detail = [], sd_bot_score = None, sd_waf_rule = None\<rparr>, m)
      else
        (case evaluate_waf (sp_waf p) req of
           Some hit \<Rightarrow>
             (case wh_action hit of
                WafLog \<Rightarrow>
                  if bot_is_active (sp_bot p) then
                    (case score_bot now (sp_bot p) req m of
                       (score, m') \<Rightarrow> (from_bot mac now_s p req score (Some (wh_rule_id hit)) True, m'))
                  else
                    (\<lparr>sd_action = SecLog, sd_reason = ''waf-log'', sd_detail = wh_rule_id hit,
                      sd_bot_score = None, sd_waf_rule = Some (wh_rule_id hit)\<rparr>, m)
              | WafChallenge \<Rightarrow>
                  (\<lparr>sd_action = resolve_challenge mac now_s p req, sd_reason = ''waf-challenge'',
                    sd_detail = wh_rule_id hit, sd_bot_score = None, sd_waf_rule = Some (wh_rule_id hit)\<rparr>, m)
              | WafBlock \<Rightarrow>
                  (\<lparr>sd_action = SecBlock, sd_reason = ''waf-block'', sd_detail = wh_rule_id hit,
                    sd_bot_score = None, sd_waf_rule = Some (wh_rule_id hit)\<rparr>, m))
         | None \<Rightarrow>
             if bot_is_active (sp_bot p) then
               (case score_bot now (sp_bot p) req m of
                  (score, m') \<Rightarrow> (from_bot mac now_s p req score None False, m'))
             else
               (\<lparr>sd_action = SecAllow, sd_reason = ''allow'', sd_detail = [], sd_bot_score = None,
                 sd_waf_rule = None\<rparr>, m)))"

section \<open>Annotations\<close>

definition SECURITY_KEYS :: "string list" where
  "SECURITY_KEYS =
     [ann ''waf-enabled'', ann ''waf-builtin'', ann ''bot-enabled'', ann ''bot-challenge-score'',
      ann ''bot-block-score'', ann ''bot-rate-limit'', ann ''captcha-enabled'', ann ''captcha-ttl-secs'']"

definition parse_u32 :: "annotations \<Rightarrow> string \<Rightarrow> u32 \<Rightarrow> u32" where
  "parse_u32 m key d = get_or d (Option.bind (m key) (\<lambda>v. parse_word (trim v)))"

definition security_policy_from_annotations :: "annotations option \<Rightarrow> SecurityPolicy" where
  "security_policy_from_annotations annotations =
     (case annotations of
        None \<Rightarrow> security_default
      | Some m \<Rightarrow>
          if flag_true m (ann ''security-exempt'') then security_default
          else
            let waf_on = flag_true m (ann ''waf-enabled'');
                bot_on = flag_true m (ann ''bot-enabled'');
                cap_on = flag_true m (ann ''captcha-enabled'')
            in security_normalized
                 \<lparr>sp_waf = \<lparr>wp_enabled = waf_on,
                     wp_use_builtin_rules = waf_on \<or> flag_true m (ann ''waf-builtin''), wp_rules = []\<rparr>,
                  sp_bot = \<lparr>bp_enabled = bot_on, challenge_score = parse_u32 m (ann ''bot-challenge-score'') 40,
                     block_score = parse_u32 m (ann ''bot-block-score'') 80,
                     rate_limit_per_min = parse_u32 m (ann ''bot-rate-limit'') 120\<rparr>,
                  sp_captcha = \<lparr>cp_enabled = cap_on,
                     cookie_ttl_secs = ucast (parse_u32 m (ann ''captcha-ttl-secs'') 86400)\<rparr>\<rparr>)"

definition security_apply_annotations :: "annotations \<Rightarrow> SecurityPolicy \<Rightarrow> annotations" where
  "security_apply_annotations annotations policy =
     (let m0 = remove_keys SECURITY_KEYS annotations; p = security_normalized policy in
      if security_is_default p then m0
      else
        let w = wp_enabled (sp_waf p);
            m1 = insert_when w (ann ''waf-enabled'') ''true'' m0;
            m2 = insert_when w (ann ''waf-builtin'')
                   (if wp_use_builtin_rules (sp_waf p) then ''true'' else ''false'') m1;
            b = bp_enabled (sp_bot p);
            m3 = insert_when b (ann ''bot-enabled'') ''true'' m2;
            m4 = insert_when b (ann ''bot-challenge-score'') (show_word (challenge_score (sp_bot p))) m3;
            m5 = insert_when b (ann ''bot-block-score'') (show_word (block_score (sp_bot p))) m4;
            m6 = insert_when b (ann ''bot-rate-limit'') (show_word (rate_limit_per_min (sp_bot p))) m5;
            c = cp_enabled (sp_captcha p);
            m7 = insert_when c (ann ''captcha-enabled'') ''true'' m6
        in insert_when c (ann ''captcha-ttl-secs'') (show_word (cookie_ttl_secs (sp_captcha p))) m7)"

section \<open>Normal form\<close>

lemma captcha_normalized_idem [norm_idem, simp]: "captcha_normalized (captcha_normalized p) = captcha_normalized p"
  by (simp add: captcha_normalized_def default_cookie_ttl_def)

lemma security_normalized_idem [norm_idem, simp]:
  "security_normalized (security_normalized p) = security_normalized p"
  by (simp add: security_normalized_def)

interpretation captcha_nf: normaliser captcha_normalized
  by unfold_locales (simp add: norm_idem)

interpretation security_nf: normaliser security_normalized
  by unfold_locales (simp add: norm_idem)

section \<open>Annotation round trip\<close>

definition security_exempt :: "annotations \<Rightarrow> bool" where
  "security_exempt m \<longleftrightarrow> flag_true m (ann ''security-exempt'')"

definition security_representable :: "SecurityPolicy \<Rightarrow> bool" where
  "security_representable p \<longleftrightarrow>
     (let q = security_normalized p in
      wp_rules (sp_waf q) = [] \<and> wp_use_builtin_rules (sp_waf q) = wp_enabled (sp_waf q) \<and>
      (bp_enabled (sp_bot q) \<or> sp_bot q = bot_default) \<and>
      (if cp_enabled (sp_captcha q) then unat (cookie_ttl_secs (sp_captcha q)) < 2 ^ 32
       else sp_captcha q = captcha_default))"

lemma security_default_fields:
  "security_is_default q \<Longrightarrow>
     \<not> wp_enabled (sp_waf q) \<and> \<not> bp_enabled (sp_bot q) \<and> \<not> cp_enabled (sp_captcha q)"
  by (simp add: security_is_default_def waf_is_default_def bot_is_default_def captcha_is_default_def)

lemma security_apply_other: "k \<notin> set SECURITY_KEYS \<Longrightarrow> security_apply_annotations m p k = m k"
  by (auto simp: security_apply_annotations_def Let_def insert_when_apply remove_keys_apply SECURITY_KEYS_def)

lemma security_apply_keys:
  fixes p
  defines "q \<equiv> security_normalized p"
  shows "security_apply_annotations m p (ann ''waf-enabled'') = (if wp_enabled (sp_waf q) then Some ''true'' else None)"
    and "security_apply_annotations m p (ann ''waf-builtin'') =
      (if wp_enabled (sp_waf q) then Some (if wp_use_builtin_rules (sp_waf q) then ''true'' else ''false'') else None)"
    and "security_apply_annotations m p (ann ''bot-enabled'') = (if bp_enabled (sp_bot q) then Some ''true'' else None)"
    and "security_apply_annotations m p (ann ''bot-challenge-score'') =
      (if bp_enabled (sp_bot q) then Some (show_word (challenge_score (sp_bot q))) else None)"
    and "security_apply_annotations m p (ann ''bot-block-score'') =
      (if bp_enabled (sp_bot q) then Some (show_word (block_score (sp_bot q))) else None)"
    and "security_apply_annotations m p (ann ''bot-rate-limit'') =
      (if bp_enabled (sp_bot q) then Some (show_word (rate_limit_per_min (sp_bot q))) else None)"
    and "security_apply_annotations m p (ann ''captcha-enabled'') = (if cp_enabled (sp_captcha q) then Some ''true'' else None)"
    and "security_apply_annotations m p (ann ''captcha-ttl-secs'') =
      (if cp_enabled (sp_captcha q) then Some (show_word (cookie_ttl_secs (sp_captcha q))) else None)"
  using security_default_fields [of q]
  by (cases "security_is_default q";
      simp add: q_def security_apply_annotations_def Let_def insert_when_apply remove_keys_apply SECURITY_KEYS_def)+

lemma security_exempt_apply: "security_exempt (security_apply_annotations m p) = security_exempt m"
  by (simp add: security_exempt_def flag_true_def security_apply_other SECURITY_KEYS_def)

lemma truthy_true: "truthy ''true''"
  by (simp add: truthy_def run)

lemma ttl_roundtrip:
  "unat (w :: u64) < 2 ^ 32 \<Longrightarrow> (parse_word (show_word w) :: u32 option) = Some (ucast w)"
  by (simp add: parse_word_def show_word_def parse_bounded_show_nat of_nat_unat)

lemma ucast_down_up: "unat (w :: u64) < 2 ^ 32 \<Longrightarrow> ucast (ucast w :: u32) = w"
  by (simp add: word_unat_eq_iff unsigned_ucast_eq unsigned_take_bit_eq take_bit_nat_eq_self)

lemma bot_default_fix: "bot_normalized bot_default = bot_default"
  by (simp add: bot_normalized_def bot_default_def default_challenge_score_def default_block_score_def default_rate_limit_def)

lemma security_load_apply:
  assumes "security_representable p" and "\<not> security_exempt m"
  shows "security_policy_from_annotations (Some (security_apply_annotations m p)) = security_normalized p"
proof -
  let ?q = "security_normalized p" and ?m = "security_apply_annotations m p"
  note keys = security_apply_keys [of m p]
  from assms(1) have rep: "wp_rules (sp_waf ?q) = []" "wp_use_builtin_rules (sp_waf ?q) = wp_enabled (sp_waf ?q)"
    "bp_enabled (sp_bot ?q) \<or> sp_bot ?q = bot_default"
    "if cp_enabled (sp_captcha ?q) then unat (cookie_ttl_secs (sp_captcha ?q)) < 2 ^ 32 else sp_captcha ?q = captcha_default"
    unfolding security_representable_def Let_def by blast+
  have ex: "\<not> flag_true ?m (ann ''security-exempt'')"
    using assms(2) security_exempt_apply [of m p] by (simp add: security_exempt_def)
  have flags: "flag_true ?m (ann ''waf-enabled'') = wp_enabled (sp_waf ?q)"
    "flag_true ?m (ann ''bot-enabled'') = bp_enabled (sp_bot ?q)"
    "flag_true ?m (ann ''captcha-enabled'') = cp_enabled (sp_captcha ?q)"
    by (simp_all add: flag_true_def keys truthy_true)
  have builtin: "wp_enabled (sp_waf ?q) \<or> flag_true ?m (ann ''waf-builtin'') \<longleftrightarrow> wp_use_builtin_rules (sp_waf ?q)"
    using rep(2) by (auto simp: flag_true_def keys)
  have bot: "parse_u32 ?m (ann ''bot-challenge-score'') 40 = challenge_score (sp_bot ?q)"
    "parse_u32 ?m (ann ''bot-block-score'') 80 = block_score (sp_bot ?q)"
    "parse_u32 ?m (ann ''bot-rate-limit'') 120 = rate_limit_per_min (sp_bot ?q)"
    using rep(3)
    by (auto simp: parse_u32_def keys bot_default_def default_challenge_score_def default_block_score_def default_rate_limit_def)
  have cap: "ucast (parse_u32 ?m (ann ''captcha-ttl-secs'') 86400) = cookie_ttl_secs (sp_captcha ?q)"
    using rep(4) by (simp add: parse_u32_def keys ttl_roundtrip ucast_down_up captcha_default_def default_cookie_ttl_def split: if_splits)
  have "\<lparr>sp_waf = \<lparr>wp_enabled = wp_enabled (sp_waf ?q), wp_use_builtin_rules = wp_use_builtin_rules (sp_waf ?q), wp_rules = []\<rparr>,
      sp_bot = \<lparr>bp_enabled = bp_enabled (sp_bot ?q), challenge_score = challenge_score (sp_bot ?q),
        block_score = block_score (sp_bot ?q), rate_limit_per_min = rate_limit_per_min (sp_bot ?q)\<rparr>,
      sp_captcha = \<lparr>cp_enabled = cp_enabled (sp_captcha ?q), cookie_ttl_secs = cookie_ttl_secs (sp_captcha ?q)\<rparr>\<rparr> = ?q"
    using rep(1) by simp
  then show ?thesis
    by (simp only: security_policy_from_annotations_def option.case ex if_False Let_def flags builtin bot cap
        security_normalized_idem)
qed

interpretation security_codec: annotation_codec security_apply_annotations
  "\<lambda>m. security_policy_from_annotations (Some m)"
  security_normalized security_representable security_exempt "set SECURITY_KEYS"
proof unfold_locales
  show "security_apply_annotations m (security_normalized p) = security_apply_annotations m p" for m p
    by (simp add: security_apply_annotations_def)
  show "security_apply_annotations (security_apply_annotations m p) q = security_apply_annotations m q" for m p q
  proof
    fix k
    show "security_apply_annotations (security_apply_annotations m p) q k = security_apply_annotations m q k"
    proof (cases "k \<in> set SECURITY_KEYS")
      case True
      then consider "k = ann ''waf-enabled''" | "k = ann ''waf-builtin''" | "k = ann ''bot-enabled''"
        | "k = ann ''bot-challenge-score''" | "k = ann ''bot-block-score''" | "k = ann ''bot-rate-limit''"
        | "k = ann ''captcha-enabled''" | "k = ann ''captcha-ttl-secs''"
        unfolding SECURITY_KEYS_def by auto
      then show ?thesis
        by cases (simp_all only: security_apply_keys)
    qed (simp add: security_apply_other)
  qed
qed (simp_all add: security_load_apply security_apply_other security_exempt_apply)

section \<open>Properties\<close>

text \<open>C8: No security verdict can be talked around.  Under an active policy a WAF rule with action block,
  or a blocking bot score of a request no rule stops, always blocks, with or without a captcha
  pass cookie; the visitor is sent to the captcha only when it is enabled and no valid pass
  cookie came with the request; and a demanded challenge becomes a block when the captcha is
  off.\<close>
theorem security_verdicts_enforced:
  assumes "security_is_active p"
  shows "(\<forall>hit. evaluate_waf (sp_waf p) req = Some hit \<and> wh_action hit = WafBlock \<longrightarrow>
       sd_action (fst (security_evaluate mac now now_s p req m)) = SecBlock) \<and>
    (bot_is_active (sp_bot p) \<and> bs_verdict (fst (score_bot now (sp_bot p) req m)) = BotBlock \<and>
       (\<forall>hit. evaluate_waf (sp_waf p) req = Some hit \<longrightarrow> wh_action hit = WafLog) \<longrightarrow>
       sd_action (fst (security_evaluate mac now now_s p req m)) = SecBlock) \<and>
    (sd_action (fst (security_evaluate mac now now_s p req m)) = SecChallenge \<longrightarrow>
       cp_enabled (sp_captcha p) \<and> \<not> has_valid_pass_cookie mac now_s (rv_cookie req) (rv_client_ip req)) \<and>
    (\<forall>hit. evaluate_waf (sp_waf p) req = Some hit \<and> wh_action hit = WafChallenge \<and> \<not> cp_enabled (sp_captcha p) \<longrightarrow>
       sd_action (fst (security_evaluate mac now now_s p req m)) = SecBlock)"
  using assms
  by (cases "score_bot now (sp_bot p) req m")
    (auto simp: security_evaluate_def from_bot_def resolve_challenge_def
      split: option.splits WafAction.splits BotVerdict.splits if_splits)

theorem security_verdicts_enforced_witness:
  "sd_action (fst (security_evaluate (\<lambda>_. []) 0 0
     \<lparr>sp_waf = \<lparr>wp_enabled = True, wp_use_builtin_rules = True, wp_rules = []\<rparr>, sp_bot = bot_default, sp_captcha = captcha_default\<rparr>
     \<lparr>rv_method = ''GET'', rv_path = ''/a/../b'', rv_query = [], rv_user_agent = None, rv_accept = None,
      rv_accept_language = None, rv_cookie = None, rv_client_ip = None\<rparr> [])) = SecBlock"
proof -
  let ?p = "\<lparr>sp_waf = \<lparr>wp_enabled = True, wp_use_builtin_rules = True, wp_rules = []\<rparr>, sp_bot = bot_default, sp_captcha = captcha_default\<rparr>"
    and ?r = "\<lparr>rv_method = ''GET'', rv_path = ''/a/../b'', rv_query = [], rv_user_agent = None, rv_accept = None,
      rv_accept_language = None, rv_cookie = None, rv_client_ip = None\<rparr>"
  have "evaluate_waf (sp_waf ?p) ?r = Some \<lparr>wh_rule_id = ''builtin-path-traversal'', wh_action = WafBlock\<rparr>"
    by (simp add: run)
  moreover have "security_is_active ?p"
    by (simp add: security_is_active_def waf_is_active_def)
  ultimately show ?thesis
    using security_verdicts_enforced [of ?p ?r "\<lambda>_. []" 0 0 "[]"] by simp
qed

text \<open>C36: A security policy stored in the annotations of a Kubernetes object is read back in normal form
  when the annotations can express it (no custom rules, the built-in rules on exactly when the
  WAF is, default numbers for switched-off parts, a cookie lifetime below 2 to the 32), on every
  object without the exemption flag and whatever was stored there before.\<close>
theorem security_annotation_roundtrip:
  assumes "security_representable p" and "\<not> security_exempt m"
  shows "security_policy_from_annotations (Some (security_apply_annotations (security_apply_annotations m p0) p)) = security_normalized p \<and>
    security_apply_annotations (security_apply_annotations m p)
      (security_policy_from_annotations (Some (security_apply_annotations m p))) = security_apply_annotations m p \<and>
    (\<forall>k. k \<notin> set SECURITY_KEYS \<longrightarrow> security_apply_annotations m p k = m k)"
  using security_codec.last_writer_wins [OF assms] security_codec.save_read_stable [OF assms] security_apply_other
  by blast

theorem security_annotation_roundtrip_witness:
  "security_policy_from_annotations (Some (security_apply_annotations (security_apply_annotations Map.empty security_default)
     \<lparr>sp_waf = \<lparr>wp_enabled = True, wp_use_builtin_rules = True, wp_rules = []\<rparr>, sp_bot = bot_default, sp_captcha = captcha_default\<rparr>)) =
   \<lparr>sp_waf = \<lparr>wp_enabled = True, wp_use_builtin_rules = True, wp_rules = []\<rparr>, sp_bot = bot_default, sp_captcha = captcha_default\<rparr>"
proof -
  let ?p = "\<lparr>sp_waf = \<lparr>wp_enabled = True, wp_use_builtin_rules = True, wp_rules = []\<rparr>, sp_bot = bot_default, sp_captcha = captcha_default\<rparr>"
  have "security_normalized ?p = ?p"
    by (simp add: security_normalized_def waf_normalized_def bot_default_fix captcha_normalized_def captcha_default_def default_cookie_ttl_def)
  moreover from this have "security_representable ?p"
    unfolding security_representable_def by (simp add: captcha_default_def)
  moreover have "\<not> security_exempt Map.empty"
    by (simp add: security_exempt_def flag_true_def)
  ultimately show ?thesis
    using security_annotation_roundtrip [of ?p Map.empty security_default] by simp
qed

text \<open>The annotation that switches the built-in rules off is never honoured: an enabled WAF that was
  stored with its built-in rules off is read back with them on, because an enabled WAF implies
  them on reading.\<close>
lemma waf_builtin_annotation_ignored:
  assumes "\<not> security_exempt m" and "wp_enabled (sp_waf p)"
  shows "security_apply_annotations m p (ann ''waf-builtin'') \<noteq> None \<and>
    wp_use_builtin_rules (sp_waf (security_policy_from_annotations (Some (security_apply_annotations m p))))"
proof -
  have en: "wp_enabled (sp_waf (security_normalized p))"
    using assms(2) by (simp add: security_normalized_def waf_normalized_def)
  then have "flag_true (security_apply_annotations m p) (ann ''waf-enabled'')"
    by (simp add: flag_true_def security_apply_keys truthy_true)
  moreover have "\<not> flag_true (security_apply_annotations m p) (ann ''security-exempt'')"
    using assms(1) security_exempt_apply [of m p] by (simp add: security_exempt_def)
  ultimately show ?thesis
    using en by (simp add: security_apply_keys security_policy_from_annotations_def Let_def security_normalized_def waf_normalized_def)
qed

lemma waf_builtin_annotation_ignored_example:
  "wp_use_builtin_rules (sp_waf (security_policy_from_annotations (Some (security_apply_annotations Map.empty
     \<lparr>sp_waf = \<lparr>wp_enabled = True, wp_use_builtin_rules = False, wp_rules = []\<rparr>, sp_bot = bot_default, sp_captcha = captcha_default\<rparr>))))"
  by (rule waf_builtin_annotation_ignored [THEN conjunct2]) (simp_all add: security_exempt_def flag_true_def)

end
