(* ===== verification/Edge_Cache.thy ===== *)
theory Edge_Cache
  imports Prelude
begin

text \<open>
  The state kept by src/src/edge/mod.rs between requests: the response cache with its byte
  account, and the per-second windows behind the rate limit and the 4xx limit.  Instants are
  nanosecond counts.  The cache evicts ``the next key of the hash map'', an order Rust leaves
  open: \<^verbatim>\<open>choice\<close>, an arbitrary function of the entries, picks the position to evict, so every
  lemma holds for every order.  The mutexes make each operation atomic; their state is passed
  explicitly.
\<close>

datatype TlsGrade = High | Medium | Unsafe

record ConsulConfig =
  cc_address :: string
  cc_token :: "string option"
  cc_datacenter :: "string option"

record EdgeGlobals =
  eg_tls_grade :: TlsGrade
  eg_cache_size_mb :: u64
  eg_cache_ttl_secs :: u64
  eg_consul :: "ConsulConfig option"
  eg_jwt_secret :: "string option"

definition edge_globals_default :: EdgeGlobals where
  "edge_globals_default = \<lparr>eg_tls_grade = Medium, eg_cache_size_mb = 0, eg_cache_ttl_secs = 60,
     eg_consul = None, eg_jwt_secret = None\<rparr>"

definition tls_grade_as_str :: "TlsGrade \<Rightarrow> string" where
  "tls_grade_as_str g = (case g of High \<Rightarrow> ''high'' | Medium \<Rightarrow> ''medium'' | Unsafe \<Rightarrow> ''unsafe'')"

datatype RouteAuth =
    Basic (ra_username: string) (ra_password: string)
  | ApiKey (ra_key: string)
  | Jwt (ra_secret: string)
  | Forward (ra_url: string)

record EdgePolicy =
  ep_auth :: "RouteAuth option"
  ep_rate_limit_rps :: u32
  ep_x4xx_limit_rps :: u32
  ep_cache :: "bool option"

definition edge_policy_default :: EdgePolicy where
  "edge_policy_default = \<lparr>ep_auth = None, ep_rate_limit_rps = 0, ep_x4xx_limit_rps = 0, ep_cache = None\<rparr>"

section \<open>Response cache\<close>

record CachedResponse =
  cr_status :: u16
  cr_headers :: "(string \<times> string) list"
  cr_body :: bytes

record CacheEntry =
  ce_response :: CachedResponse
  ce_expires :: nat
  ce_bytes :: nat

record CacheInner =
  ci_entries :: "(string, CacheEntry) hmap"
  ci_bytes :: nat

definition cache_empty :: CacheInner where
  "cache_empty = \<lparr>ci_entries = [], ci_bytes = 0\<rparr>"

definition cache_remove :: "string \<Rightarrow> CacheInner \<Rightarrow> CacheInner" where
  "cache_remove key c =
     (case map_of (ci_entries c) key of
        Some old \<Rightarrow> \<lparr>ci_entries = AList.delete key (ci_entries c), ci_bytes = ci_bytes c - ce_bytes old\<rparr>
      | None \<Rightarrow> c)"

definition cache_get :: "nat \<Rightarrow> string \<Rightarrow> CacheInner \<Rightarrow> CachedResponse option \<times> CacheInner" where
  "cache_get now key c =
     (let expired = get_or False (map_option (\<lambda>e. ce_expires e \<le> now) (map_of (ci_entries c) key)) in
      if expired then (None, cache_remove key c)
      else (map_option ce_response (map_of (ci_entries c) key), c))"

definition response_size :: "string \<Rightarrow> CachedResponse \<Rightarrow> nat" where
  "response_size key r =
     length (cr_body r) + sum_list (map (\<lambda>(k, v). length k + length v) (cr_headers r)) + length key"

definition pick_key :: "((string, CacheEntry) hmap \<Rightarrow> nat) \<Rightarrow> (string, CacheEntry) hmap \<Rightarrow> string" where
  "pick_key choice m = fst (m ! (choice m mod length m))"

lemma pick_key_in: "m \<noteq> [] \<Longrightarrow> pick_key choice m \<in> fst ` set m"
  by (simp add: pick_key_def)

lemma length_delete_less: "k \<in> fst ` set m \<Longrightarrow> length (AList.delete k m) < length m"
proof -
  assume "k \<in> fst ` set m"
  then obtain p where "p \<in> set m" "fst p = k" by auto
  then show ?thesis
    unfolding AList.delete_eq by (intro length_filter_less [of p]) (auto simp: case_prod_beta)
qed

lemma cache_remove_shrinks:
  "k \<in> fst ` set (ci_entries c) \<Longrightarrow> length (ci_entries (cache_remove k c)) < length (ci_entries c)"
  by (auto simp: cache_remove_def length_delete_less map_of_eq_None_iff split: option.splits)

function cache_evict :: "((string, CacheEntry) hmap \<Rightarrow> nat) \<Rightarrow> nat \<Rightarrow> nat \<Rightarrow> CacheInner \<Rightarrow> CacheInner" where
  "cache_evict choice sz max_bytes c =
     (if max_bytes < ci_bytes c + sz \<and> ci_entries c \<noteq> []
      then cache_evict choice sz max_bytes (cache_remove (pick_key choice (ci_entries c)) c)
      else c)"
  by pat_completeness auto
termination
  by (relation "measure (\<lambda>(_, _, _, c). length (ci_entries c))")
    (simp_all add: cache_remove_shrinks pick_key_in)

declare cache_evict.simps [simp del]

definition cache_put :: "((string, CacheEntry) hmap \<Rightarrow> nat) \<Rightarrow> nat \<Rightarrow> string \<Rightarrow> CachedResponse \<Rightarrow> nat \<Rightarrow> nat \<Rightarrow>
    CacheInner \<Rightarrow> CacheInner" where
  "cache_put choice now key response ttl max_bytes c =
     (if max_bytes = 0 \<or> ttl = 0 then c
      else
        let sz = response_size key response in
        if max_bytes < sz \<or> 1024 * 1024 < sz then c
        else
          let c1 = cache_evict choice sz max_bytes (cache_remove key c) in
          \<lparr>ci_entries = AList.update key \<lparr>ce_response = response, ce_expires = now + ttl, ce_bytes = sz\<rparr> (ci_entries c1),
           ci_bytes = ci_bytes c1 + sz\<rparr>)"

definition cache_enabled :: "EdgeGlobals \<Rightarrow> EdgePolicy \<Rightarrow> bool" where
  "cache_enabled g p = (if eg_cache_size_mb g = 0 then False else get_or True (ep_cache p))"

section \<open>Windows\<close>

record Window =
  w_second :: u64
  w_count :: u32

type_synonym windows = "(string, Window) hmap"

definition rate_limited :: "u64 \<Rightarrow> string \<Rightarrow> u32 \<Rightarrow> windows \<Rightarrow> bool \<times> windows" where
  "rate_limited sec key limit m =
     (if limit = 0 then (False, m)
      else
        let e0 = get_or \<lparr>w_second = sec, w_count = 0\<rparr> (map_of m key);
            e1 = (if w_second e0 \<noteq> sec then \<lparr>w_second = sec, w_count = 0\<rparr> else e0)
        in if limit \<le> w_count e1 then (True, AList.update key e1 m)
           else (False, AList.update key (e1\<lparr>w_count := saturating_add (w_count e1) 1\<rparr>) m))"

definition x4xx_key :: "string \<Rightarrow> string \<Rightarrow> string" where
  "x4xx_key client_ip host = ''4xx|'' @ client_ip @ ''|'' @ host"

definition note_4xx :: "u64 \<Rightarrow> string \<Rightarrow> string \<Rightarrow> windows \<Rightarrow> windows" where
  "note_4xx sec client_ip host m = snd (rate_limited sec (x4xx_key client_ip host) (- 1) m)"

definition x4xx_blocked :: "u64 \<Rightarrow> string \<Rightarrow> string \<Rightarrow> u32 \<Rightarrow> windows \<Rightarrow> bool" where
  "x4xx_blocked sec client_ip host limit m =
     (if limit = 0 then False
      else (case map_of m (x4xx_key client_ip host) of
          Some e \<Rightarrow> w_second e = sec \<and> limit \<le> w_count e
        | None \<Rightarrow> False))"

section \<open>The cache invariant\<close>

definition cache_inv :: "CacheInner \<Rightarrow> bool" where
  "cache_inv c \<longleftrightarrow> distinct (map fst (ci_entries c)) \<and>
     ci_bytes c = sum_list (map (ce_bytes \<circ> snd) (ci_entries c))"

lemma sum_delete:
  assumes "distinct (map fst m)" and "map_of m k = Some v"
  shows "sum_list (map (f \<circ> snd) (AList.delete k m)) + f v = (sum_list (map (f \<circ> snd) m) :: nat)"
  using assms
proof (induction m)
  case (Cons p m)
  show ?case
  proof (cases "fst p = k")
    case True
    then have "AList.delete k m = m"
      using Cons.prems(1) by (intro delete_id) (auto simp: image_iff)
    with True Cons.prems show ?thesis
      by (cases p) simp
  next
    case False
    with Cons show ?thesis
      by (cases p) auto
  qed
qed simp

lemma sum_update_new:
  "k \<notin> fst ` set m \<Longrightarrow> sum_list (map (f \<circ> snd) (AList.update k v m)) = sum_list (map (f \<circ> snd) m) + (f v :: nat)"
  by (induction m) auto

lemma cache_remove_inv: "cache_inv c \<Longrightarrow> cache_inv (cache_remove k c)"
  using sum_delete [of "ci_entries c" k _ ce_bytes]
  by (fastforce simp: cache_inv_def cache_remove_def distinct_delete split: option.splits)

lemma map_of_cache_remove:
  "map_of (ci_entries (cache_remove k c)) k' = (if k' = k then None else map_of (ci_entries c) k')"
  by (auto simp: cache_remove_def delete_conv' split: option.splits)

lemma cache_evict_inv: "cache_inv c \<Longrightarrow> cache_inv (cache_evict choice sz max_bytes c)"
proof (induction choice sz max_bytes c rule: cache_evict.induct)
  case (1 choice sz max_bytes c)
  then show ?case
    by (subst cache_evict.simps) (simp add: cache_remove_inv)
qed

lemma cache_evict_fits:
  "sz \<le> max_bytes \<Longrightarrow> cache_inv c \<Longrightarrow> ci_bytes (cache_evict choice sz max_bytes c) + sz \<le> max_bytes"
proof (induction choice sz max_bytes c rule: cache_evict.induct)
  case (1 choice sz max_bytes c)
  show ?case
  proof (cases "max_bytes < ci_bytes c + sz \<and> ci_entries c \<noteq> []")
    case True
    then show ?thesis
      using "1.IH" "1.prems" by (subst cache_evict.simps) (simp add: cache_remove_inv)
  next
    case False
    then show ?thesis
      using "1.prems" by (subst cache_evict.simps) (auto simp: cache_inv_def)
  qed
qed

lemma cache_evict_sub:
  "map_of (ci_entries (cache_evict choice sz max_bytes c)) k = Some e \<Longrightarrow> map_of (ci_entries c) k = Some e"
proof (induction choice sz max_bytes c rule: cache_evict.induct)
  case (1 choice sz max_bytes c)
  then show ?case
    by (cases "max_bytes < ci_bytes c + sz \<and> ci_entries c \<noteq> []")
      (simp_all add: cache_evict.simps [of choice sz max_bytes c] map_of_cache_remove split: if_splits)
qed

lemma cache_put_stored:
  assumes "0 < max_bytes" and "0 < ttl" and "response_size key r \<le> max_bytes" and "response_size key r \<le> 1024 * 1024"
  shows "map_of (ci_entries (cache_put choice now key r ttl max_bytes c)) key =
    Some \<lparr>ce_response = r, ce_expires = now + ttl, ce_bytes = response_size key r\<rparr>"
  using assms by (simp add: cache_put_def Let_def update_conv')

lemma cache_put_inv: "cache_inv c \<Longrightarrow> cache_inv (cache_put choice now key r ttl max_bytes c)"
proof -
  assume inv: "cache_inv c"
  let ?c1 = "cache_evict choice (response_size key r) max_bytes (cache_remove key c)"
  have "cache_inv ?c1"
    using inv by (intro cache_evict_inv cache_remove_inv)
  moreover have "map_of (ci_entries ?c1) key = None"
    using cache_evict_sub [of choice "response_size key r" max_bytes "cache_remove key c" key]
    by (cases "map_of (ci_entries ?c1) key") (auto simp: map_of_cache_remove)
  ultimately show ?thesis
    using inv by (auto simp: cache_put_def Let_def cache_inv_def distinct_update sum_update_new map_of_eq_None_iff)
qed

lemma cache_get_inv: "cache_inv c \<Longrightarrow> cache_inv (snd (cache_get now key c))"
  by (simp add: cache_get_def Let_def cache_remove_inv)

lemma cache_put_bounded:
  assumes "cache_inv c" and "ci_bytes c \<le> max_bytes"
  shows "ci_bytes (cache_put choice now key r ttl max_bytes c) \<le> max_bytes"
  using assms cache_evict_fits [of "response_size key r" max_bytes "cache_remove key c" choice] cache_remove_inv [of c key]
  by (auto simp: cache_put_def Let_def)

lemma cache_get_bounded: "ci_bytes (snd (cache_get now key c)) \<le> ci_bytes c"
  by (auto simp: cache_get_def cache_remove_def Let_def split: option.splits)

text \<open>The operations of the cache as events, for sequences of them.\<close>

datatype cache_op =
    Get nat string
  | Put nat string CachedResponse nat

fun cache_step :: "((string, CacheEntry) hmap \<Rightarrow> nat) \<Rightarrow> nat \<Rightarrow> CacheInner \<Rightarrow> cache_op \<Rightarrow> CacheInner" where
  "cache_step choice max_bytes c (Get now key) = snd (cache_get now key c)"
| "cache_step choice max_bytes c (Put now key r ttl) = cache_put choice now key r ttl max_bytes c"

interpretation cache_sys: invariant_system "cache_step choice max_bytes"
  "\<lambda>c. cache_inv c \<and> ci_bytes c \<le> max_bytes" for choice max_bytes
proof
  fix c op
  assume "cache_inv c \<and> ci_bytes c \<le> max_bytes"
  then show "cache_inv (cache_step choice max_bytes c op) \<and> ci_bytes (cache_step choice max_bytes c op) \<le> max_bytes"
    by (cases op) (auto simp: cache_get_inv cache_put_inv cache_put_bounded intro: order.trans [OF cache_get_bounded])
qed

section \<open>Window counting\<close>

definition used :: "windows \<Rightarrow> string \<Rightarrow> u64 \<Rightarrow> nat" where
  "used m k t = (case map_of m k of Some w \<Rightarrow> if w_second w = t then unat (w_count w) else 0 | None \<Rightarrow> 0)"

lemma rate_limited_result:
  assumes "limit \<noteq> 0"
  shows "fst (rate_limited t k limit m) \<longleftrightarrow> unat limit \<le> used m k t"
  using assms
  by (auto simp: rate_limited_def used_def Let_def word_le_nat_alt split: option.splits)

lemma unat_Suc_below: "\<not> (limit :: u32) \<le> c \<Longrightarrow> unat (saturating_add c 1) = Suc (unat c)"
proof -
  assume "\<not> limit \<le> c"
  then have "unat c < unat limit"
    by (simp add: word_le_nat_alt)
  moreover have "unat limit < 2 ^ 32"
    using unsigned_less [of limit, where ?'a = nat] by simp
  ultimately show ?thesis
    by (simp add: unat_saturating_add)
qed

lemma rate_limited_used:
  assumes "limit \<noteq> 0"
  shows "used (snd (rate_limited t k limit m)) k' t' =
    (if k' \<noteq> k then used m k' t'
     else if t' \<noteq> t then 0
     else if unat limit \<le> used m k t then used m k t else Suc (used m k t))"
proof (cases "k' = k")
  case True
  with assms show ?thesis
    by (auto simp: rate_limited_def used_def Let_def update_conv' unat_Suc_below word_le_nat_alt split: option.splits)
next
  case False
  with assms show ?thesis
    by (auto simp: rate_limited_def used_def Let_def update_conv')
qed

fun admitted :: "string \<Rightarrow> u64 \<Rightarrow> (u64 \<times> string \<times> u32) list \<Rightarrow> windows \<Rightarrow> nat" where
  "admitted k t [] m = 0"
| "admitted k t ((t', k', limit) # reqs) m =
     (if k' = k \<and> t' = t \<and> \<not> fst (rate_limited t' k' limit m) then 1 else 0) +
     admitted k t reqs (snd (rate_limited t' k' limit m))"

definition asked :: "string \<Rightarrow> u64 \<Rightarrow> (u64 \<times> string \<times> u32) list \<Rightarrow> nat" where
  "asked k t reqs = length (filter (\<lambda>(t', k', _). k' = k \<and> t' = t) reqs)"

lemma asked_later: "\<forall>r \<in> set reqs. t < fst r \<Longrightarrow> asked k t reqs = 0"
  by (auto simp: asked_def filter_empty_conv)

lemma admitted_later: "\<forall>r \<in> set reqs. t < fst r \<Longrightarrow> admitted k t reqs m = 0"
  by (induction reqs arbitrary: m) auto

lemma admitted_from:
  assumes "sorted (map fst reqs)" and "limit \<noteq> 0" and "\<forall>(t', k', l) \<in> set reqs. l \<noteq> 0 \<and> (k' = k \<longrightarrow> l = limit)"
    and "\<forall>r \<in> set reqs. t \<le> fst r" and "used m k t \<le> unat limit"
  shows "admitted k t reqs m = min (asked k t reqs) (unat limit - used m k t)"
  using assms
proof (induction reqs arbitrary: m)
  case Nil
  then show ?case by (simp add: asked_def)
next
  case (Cons r reqs)
  obtain t' k' l where r: "r = (t', k', l)" by (cases r)
  let ?m = "snd (rate_limited t' k' l m)"
  have l: "l \<noteq> 0" "k' = k \<Longrightarrow> l = limit"
    using Cons.prems(3) by (auto simp: r)
  show ?case
  proof (cases "t' = t")
    case True
    have u: "used ?m k t \<le> unat limit"
      using l Cons.prems(5) by (auto simp: rate_limited_used True)
    have IH: "admitted k t reqs ?m = min (asked k t reqs) (unat limit - used ?m k t)"
      using Cons.prems u by (intro Cons.IH) auto
    show ?thesis
      using l IH Cons.prems(5) by (auto simp: r True asked_def rate_limited_used rate_limited_result)
  next
    case False
    then have "\<forall>q \<in> set (r # reqs). t < fst q"
      using Cons.prems(1,4) by (auto simp: r less_le)
    then show ?thesis
      by (simp add: admitted_later asked_later del: admitted.simps)
  qed
qed

lemma admitted_fresh:
  assumes "sorted (map fst reqs)" and "limit \<noteq> 0" and "\<forall>(t', k', l) \<in> set reqs. l \<noteq> 0 \<and> (k' = k \<longrightarrow> l = limit)"
    and "used m k t = 0"
  shows "admitted k t reqs m = min (asked k t reqs) (unat limit)"
  using assms
proof (induction reqs arbitrary: m)
  case Nil
  then show ?case by (simp add: asked_def)
next
  case (Cons r reqs)
  obtain t' k' l where r: "r = (t', k', l)" by (cases r)
  show ?case
  proof (cases "t' < t")
    case True
    have "l \<noteq> 0"
      using Cons.prems(3) by (auto simp: r)
    then have "used (snd (rate_limited t' k' l m)) k t = 0"
      using Cons.prems(4) True by (auto simp: rate_limited_used)
    then show ?thesis
      using Cons True by (auto simp: r asked_def)
  next
    case False
    then show ?thesis
      using Cons.prems by (subst admitted_from [of _ limit]) (auto simp: r)
  qed
qed

section \<open>Properties\<close>

text \<open>C10: The cache account is exact and bounded.  Whatever gets and puts are made under one size limit,
  in any order and with any eviction order, the recorded byte count is the sum of the sizes of
  the entries held, no key is held twice, and the count never exceeds the limit.\<close>
theorem cache_accounting:
  "cache_inv (foldl (cache_step choice max_bytes) cache_empty ops) \<and>
   ci_bytes (foldl (cache_step choice max_bytes) cache_empty ops) \<le> max_bytes"
  using cache_sys.run_inv [of cache_empty max_bytes choice ops]
  by (simp add: cache_inv_def cache_empty_def)

text \<open>A response that is small enough is found again until it expires and not after: reading its key
  gives the stored response before the expiry instant and nothing from it on; every other key
  reads as before or, when evicted to make room, as absent, and reading never yields a response
  that was not stored under that key.\<close>
lemma cache_put_get:
  assumes "0 < max_bytes" and "0 < ttl" and "response_size key r \<le> max_bytes" and "response_size key r \<le> 1024 * 1024"
  shows "fst (cache_get later key (cache_put choice now key r ttl max_bytes c)) = (if later < now + ttl then Some r else None) \<and>
    (\<forall>other. other \<noteq> key \<longrightarrow>
       fst (cache_get later other (cache_put choice now key r ttl max_bytes c)) \<in> {None, fst (cache_get later other c)})"
proof (intro conjI allI impI)
  show "fst (cache_get later key (cache_put choice now key r ttl max_bytes c)) = (if later < now + ttl then Some r else None)"
    by (simp add: cache_get_def cache_put_stored [OF assms])
  fix other
  assume "other \<noteq> key"
  let ?c1 = "cache_evict choice (response_size key r) max_bytes (cache_remove key c)"
  have "map_of (ci_entries (cache_put choice now key r ttl max_bytes c)) other = map_of (ci_entries ?c1) other"
    using assms \<open>other \<noteq> key\<close> by (simp add: cache_put_def Let_def update_conv')
  moreover have "map_of (ci_entries ?c1) other \<in> {None, map_of (ci_entries c) other}"
    using cache_evict_sub [of choice "response_size key r" max_bytes "cache_remove key c" other] \<open>other \<noteq> key\<close>
    by (cases "map_of (ci_entries ?c1) other") (auto simp: map_of_cache_remove)
  ultimately show "fst (cache_get later other (cache_put choice now key r ttl max_bytes c)) \<in> {None, fst (cache_get later other c)}"
    by (auto simp: cache_get_def Let_def)
qed

lemma cache_put_get_example:
  "fst (cache_get 5 ''k'' (cache_put (\<lambda>_. 0) 0 ''k'' \<lparr>cr_status = 200, cr_headers = [], cr_body = [1]\<rparr> 10 100 cache_empty)) =
   Some \<lparr>cr_status = 200, cr_headers = [], cr_body = [1]\<rparr>"
  using cache_put_get [of 100 10 "''k''" "\<lparr>cr_status = 200, cr_headers = [], cr_body = [1]\<rparr>" 5 "\<lambda>_. 0" 0 cache_empty]
  by (simp add: response_size_def)

text \<open>C26: The rate limit admits exactly its quota.  For requests arriving in order of the clock, with
  any mixture of keys, the number of requests of one key admitted in one second is the smaller
  of the number made and the limit of that key.\<close>
theorem rate_limit_exact:
  assumes "sorted (map fst reqs)" and "limit \<noteq> 0"
    and "\<forall>(t', k', l) \<in> set reqs. l \<noteq> 0 \<and> (k' = k \<longrightarrow> l = limit)"
  shows "admitted k t reqs [] = min (length (filter (\<lambda>(t', k', _). k' = k \<and> t' = t) reqs)) (unat limit)"
  using admitted_fresh [OF assms, of "[]" t] by (simp add: used_def asked_def)

theorem rate_limit_exact_witness:
  "admitted ''a'' 7 [(7, ''a'', 2), (7, ''b'', 1), (7, ''a'', 2), (7, ''a'', 2), (8, ''a'', 2)] [] = 2"
  by (subst rate_limit_exact [where limit = 2]) simp_all

text \<open>The 4xx limit counts what was noted: after any number of noted client errors of one address
  and host in one second (interleaved with notes for others), the address is blocked for that
  host in that second exactly when the limit is set and reached, and is free in every other
  second.\<close>
lemma x4xx_blocked_iff:
  assumes "length noted < 2 ^ 32 - 1"
  shows "x4xx_blocked t' ip host limit (foldl (\<lambda>m (i, h). note_4xx t i h m) [] noted) \<longleftrightarrow>
    limit \<noteq> 0 \<and> t' = t \<and> unat limit \<le> length (filter (\<lambda>(i, h). x4xx_key i h = x4xx_key ip host) noted)"
proof -
  define run where "run = foldl (\<lambda>m (i, h). note_4xx t i h m) [] noted"
  let ?k = "x4xx_key ip host"
  have big: "unat (- 1 :: u32) = 2 ^ 32 - 1"
    by (simp add: unsigned_minus_1_eq_mask mask_eq_exp_minus_1)
  have "used (foldl (\<lambda>m (i, h). note_4xx t i h m) m0 ns) ?k t =
        used m0 ?k t + length (filter (\<lambda>(i, h). x4xx_key i h = ?k) ns)"
    if "used m0 ?k t + length ns < 2 ^ 32 - 1" for m0 ns
    using that
  proof (induction ns arbitrary: m0)
    case (Cons n ns)
    obtain i h where n: "n = (i, h)" by (cases n)
    have "used (note_4xx t i h m0) ?k t = (if x4xx_key i h = ?k then Suc (used m0 ?k t) else used m0 ?k t)"
      using Cons.prems big by (auto simp: note_4xx_def rate_limited_used)
    with Cons.IH [of "note_4xx t i h m0"] Cons.prems show ?case
      by (auto simp: n)
  qed simp
  from this [of "[]" noted] have cnt: "used run ?k t = length (filter (\<lambda>(i, h). x4xx_key i h = ?k) noted)"
    using assms(1) by (simp add: run_def used_def)
  have only: "used (foldl (\<lambda>m (i, h). note_4xx t i h m) m0 ns) ?k s = 0" if "used m0 ?k s = 0" "s \<noteq> t" for s m0 ns
    using that by (induction ns arbitrary: m0) (auto simp: note_4xx_def rate_limited_used)
  have "t' \<noteq> t \<Longrightarrow> used run ?k t' = 0"
    unfolding run_def by (rule only) (simp_all add: used_def)
  moreover have "x4xx_blocked t' ip host limit run \<longleftrightarrow> limit \<noteq> 0 \<and> unat limit \<le> used run ?k t'"
    by (auto simp: x4xx_blocked_def used_def word_le_nat_alt unat_eq_0 split: option.splits)
  ultimately show ?thesis
    using cnt unfolding run_def [symmetric] by (cases "t' = t") (auto simp: unat_eq_0)
qed

end
