(* ===== verification/Edge_Auth.thy ===== *)
theory Edge_Auth
  imports Edge_Cache Rust_Str
begin

text \<open>
  Route authentication in src/src/edge/mod.rs: base64, HS256 tokens, basic credentials, API
  keys and the header check.  HMAC-SHA256 is a parameter \<^verbatim>\<open>hmac key message\<close>; \<^verbatim>\<open>get\<close> is the
  textual value of a request header; the authentication subrequest is a parameter \<^verbatim>\<open>send\<close> that
  gives the response status, if any.
\<close>

unbundle bit_operations_syntax

section \<open>Base64\<close>

definition B64 :: string where
  "B64 = ''ABCDEFGHIJKLMNOPQRSTUVWXYZabcdefghijklmnopqrstuvwxyz0123456789-_''"

definition b64_digit :: "nat \<Rightarrow> u32 \<Rightarrow> char" where
  "b64_digit shift n = B64 ! unat (drop_bit shift n AND 63)"

fun b64url_encode :: "bytes \<Rightarrow> string" where
  "b64url_encode (a # b # c # data) =
     (let n = (push_bit 16 (ucast a) OR push_bit 8 (ucast b)) OR ucast c in
      b64_digit 18 n # b64_digit 12 n # b64_digit 6 n # b64_digit 0 n # b64url_encode data)"
| "b64url_encode [a, b] =
     (let n = push_bit 16 (ucast a) OR push_bit 8 (ucast b) in
      [b64_digit 18 n, b64_digit 12 n, b64_digit 6 n])"
| "b64url_encode [a] = (let n = push_bit 16 (ucast a) in [b64_digit 18 n, b64_digit 12 n])"
| "b64url_encode [] = []"

definition b64_val :: "char \<Rightarrow> u32 option" where
  "b64_val c =
     (if is_upper c then Some (of_nat (code c - 65))
      else if is_lower c then Some (of_nat (code c - 97 + 26))
      else if is_digit c then Some (of_nat (code c - 48 + 52))
      else if c = CHR ''-'' \<or> c = CHR ''+'' then Some 62
      else if c = CHR ''_'' \<or> c = CHR ''/'' then Some 63
      else None)"

fun b64_loop :: "u32 \<Rightarrow> nat \<Rightarrow> string \<Rightarrow> bytes option" where
  "b64_loop buf bits [] = Some []"
| "b64_loop buf bits (c # s) =
     (if c = CHR ''='' then Some []
      else (case b64_val c of
          None \<Rightarrow> None
        | Some v \<Rightarrow>
            (let buf' = push_bit 6 buf OR v; bits' = bits + 6 in
             if 8 \<le> bits' then
               map_option (\<lambda>out. ucast (drop_bit (bits' - 8) buf') # out)
                 (b64_loop (buf' AND (push_bit (bits' - 8) 1 - 1)) (bits' - 8) s)
             else b64_loop buf' bits' s)))"

definition b64url_decode :: "string \<Rightarrow> bytes option" where
  "b64url_decode data = b64_loop 0 0 data"

section \<open>Tokens\<close>

definition DQ :: char where
  "DQ = CHR 0x22"

definition jwt_header :: string where
  "jwt_header = ''{'' @ [DQ] @ ''alg'' @ [DQ] @ '':'' @ [DQ] @ ''HS256'' @ [DQ] @ '','' @ [DQ] @ ''typ'' @ [DQ] @ '':'' @ [DQ] @ ''JWT'' @ [DQ] @ ''}''"

definition exp_label :: string where
  "exp_label = [DQ] @ ''exp'' @ [DQ] @ '':''"

definition jwt_payload :: "string \<Rightarrow> u64 \<Rightarrow> string" where
  "jwt_payload owner exp =
     ''{'' @ [DQ] @ ''sub'' @ [DQ] @ '':'' @ [DQ] @ owner @ [DQ] @ '','' @ exp_label @ show_word exp @ ''}''"

definition sign_hs256 :: "(string \<Rightarrow> bytes \<Rightarrow> bytes) \<Rightarrow> string \<Rightarrow> bytes \<Rightarrow> string" where
  "sign_hs256 hmac secret msg = b64url_encode (hmac secret msg)"

definition hmac_eq :: "(string \<Rightarrow> bytes \<Rightarrow> bytes) \<Rightarrow> string \<Rightarrow> bytes \<Rightarrow> string \<Rightarrow> bool" where
  "hmac_eq hmac secret msg sig =
     (case b64url_decode sig of None \<Rightarrow> False | Some bs \<Rightarrow> bs = hmac secret msg)"

definition token_exp :: "u64 \<Rightarrow> u64 \<Rightarrow> u64" where
  "token_exp now valid_minutes = saturating_add now (max (saturating_mul valid_minutes 60) 60)"

definition issue_jwt :: "(string \<Rightarrow> bytes \<Rightarrow> bytes) \<Rightarrow> u64 \<Rightarrow> string \<Rightarrow> string \<Rightarrow> u64 \<Rightarrow> string" where
  "issue_jwt hmac now secret owner valid_minutes =
     (let header = b64url_encode (as_bytes jwt_header);
          exp = token_exp now valid_minutes;
          payload = b64url_encode (as_bytes (jwt_payload owner exp));
          signing = header @ ''.'' @ payload
      in signing @ ''.'' @ sign_hs256 hmac secret (as_bytes signing))"

definition split_nth1 :: "string \<Rightarrow> string \<Rightarrow> string option" where
  "split_nth1 p s =
     (case split_once_str p s of
        None \<Rightarrow> None
      | Some (_, r) \<Rightarrow> Some (case split_once_str p r of None \<Rightarrow> r | Some (a, _) \<Rightarrow> a))"

definition read_exp :: "string \<Rightarrow> u64 option" where
  "read_exp raw =
     Option.bind (split_nth1 exp_label raw) (\<lambda>s. parse_word (takeWhile is_digit (trim_start s)))"

definition verify_jwt :: "(string \<Rightarrow> bytes \<Rightarrow> bytes) \<Rightarrow> u64 \<Rightarrow> string \<Rightarrow> string \<Rightarrow> bool" where
  "verify_jwt hmac now secret token =
     (case split_on (\<lambda>c. c = CHR ''.'') token of
        [header, payload, sig] \<Rightarrow>
          if \<not> hmac_eq hmac secret (as_bytes (header @ ''.'' @ payload)) sig then False
          else
            (case from_utf8 (get_or [] (b64url_decode payload)) of
               None \<Rightarrow> False
             | Some raw \<Rightarrow> (case read_exp raw of None \<Rightarrow> False | Some exp \<Rightarrow> now \<le> exp))
      | _ \<Rightarrow> False)"

section \<open>Credentials in a request\<close>

definition b64url_decode_std :: "string \<Rightarrow> bytes option" where
  "b64url_decode_std data0 =
     (let data = trim data0;
          swapped = replace_char CHR ''/'' CHR ''_'' (replace_char CHR ''+'' CHR ''-'' data);
          padded = swapped @ replicate ((4 - length swapped mod 4) mod 4) CHR ''=''
      in b64url_decode padded)"

definition basic_credentials :: "string option \<Rightarrow> (string \<times> string) option" where
  "basic_credentials header =
     Option.bind header (\<lambda>h.
     Option.bind (strip_prefix ''Basic '' (trim h)) (\<lambda>encoded.
     Option.bind (b64url_decode_std (trim encoded)) (\<lambda>raw.
     Option.bind (from_utf8 raw) (split_once CHR '':''))))"

definition bearer_token :: "string option \<Rightarrow> string option" where
  "bearer_token header = Option.bind header (\<lambda>h. map_option trim (strip_prefix ''Bearer '' (trim h)))"

fun query_scan :: "string \<Rightarrow> string list \<Rightarrow> string option" where
  "query_scan key [] = None"
| "query_scan key (pair # pairs) =
     (if before CHR ''='' pair = key
      then Some (case split_once CHR ''='' pair of Some (_, v) \<Rightarrow> v | None \<Rightarrow> [])
      else query_scan key pairs)"

definition query_param :: "string \<Rightarrow> string \<Rightarrow> string option" where
  "query_param query key = query_scan key (split_on (\<lambda>c. c = CHR ''&'') query)"

definition query_token :: "string \<Rightarrow> string option" where
  "query_token query =
     or_else (filter_opt (\<lambda>v. v \<noteq> []) (query_param query ''pertisk_token''))
             (filter_opt (\<lambda>v. v \<noteq> []) (query_param query ''araleztoken''))"

definition auth_header_ok :: "(string \<Rightarrow> bytes \<Rightarrow> bytes) \<Rightarrow> u64 \<Rightarrow> RouteAuth \<Rightarrow> (string \<Rightarrow> string option) \<Rightarrow> string \<Rightarrow> bool" where
  "auth_header_ok hmac now auth get query =
     (case auth of
        Basic username password \<Rightarrow>
          (case basic_credentials (get ''authorization'') of
             None \<Rightarrow> False
           | Some (user, pass) \<Rightarrow> user = username \<and> pass = password)
      | ApiKey key \<Rightarrow> get ''x-api-key'' = Some key
      | Jwt secret \<Rightarrow>
          if (case bearer_token (get ''authorization'') of Some token \<Rightarrow> verify_jwt hmac now secret token | None \<Rightarrow> False)
          then True
          else get_or False (map_option (verify_jwt hmac now secret) (query_token query))
      | Forward _ \<Rightarrow> False)"

definition forward_auth_ok :: "(string \<Rightarrow> (string \<times> string) list \<Rightarrow> u16 option) \<Rightarrow> string \<Rightarrow> string \<Rightarrow> string \<Rightarrow>
    (string \<Rightarrow> string option) \<Rightarrow> bool" where
  "forward_auth_ok send url host path get =
     (let headers = [(''X-Forwarded-Host'', host), (''X-Forwarded-Uri'', path)] @
            (case get ''authorization'' of Some v \<Rightarrow> [(''authorization'', v)] | None \<Rightarrow> [])
      in case send url headers of Some status \<Rightarrow> 200 \<le> status \<and> status < 300 | None \<Rightarrow> False)"

section \<open>Base64 round trip\<close>

definition sx :: "nat \<Rightarrow> u32 \<Rightarrow> u32" where
  "sx s n = drop_bit s n AND 63"

lemma unat_and_63: "unat (x AND 63 :: u32) < 64"
proof -
  have "x AND 63 = take_bit 6 x"
    by (simp add: take_bit_eq_mask mask_eq_exp_minus_1)
  then show ?thesis
    by (simp add: unsigned_take_bit_eq take_bit_nat_def)
qed

lemma b64_val_digits: "list_all (\<lambda>i. b64_val (B64 ! i) = Some (of_nat i) \<and> B64 ! i \<noteq> CHR ''='') [0..<64]"
  by (simp add: upt_rec B64_def b64_val_def is_upper_def is_lower_def is_digit_def)

lemma b64_val_digit: "b64_val (b64_digit s n) = Some (sx s n)" "b64_digit s n \<noteq> CHR ''=''"
proof -
  have "unat (drop_bit s n AND 63) \<in> set [0..<64]"
    using unat_and_63 by simp
  then have "b64_val (B64 ! unat (drop_bit s n AND 63)) = Some (of_nat (unat (drop_bit s n AND 63)))
      \<and> B64 ! unat (drop_bit s n AND 63) \<noteq> CHR ''=''"
    using b64_val_digits by (simp only: list_all_iff) blast
  then show "b64_val (b64_digit s n) = Some (sx s n)" "b64_digit s n \<noteq> CHR ''=''"
    by (simp_all add: b64_digit_def sx_def)
qed

lemma bit_u8_high: "8 \<le> n \<Longrightarrow> bit (a :: u8) n = False"
  using bit_imp_le_length [of a n] by auto

lemma less_8_cases: "i < (8 :: nat) \<Longrightarrow> i = 0 \<or> i = 1 \<or> i = 2 \<or> i = 3 \<or> i = 4 \<or> i = 5 \<or> i = 6 \<or> i = 7"
  by presburger

lemma mask_words: "(63 :: u32) = mask 6" "(15 :: u32) = mask 4" "(3 :: u32) = mask 2"
  by (simp_all add: mask_eq_exp_minus_1)

definition cat3 :: "u8 \<Rightarrow> u8 \<Rightarrow> u8 \<Rightarrow> u32" where
  "cat3 a b c = (push_bit 16 (ucast a) OR push_bit 8 (ucast b)) OR ucast c"

lemma cat3_bytes:
  "(ucast (drop_bit 4 (push_bit 6 (sx 18 (cat3 a b c)) OR sx 12 (cat3 a b c))) :: u8) = a"
  "(ucast (drop_bit 2 (push_bit 6 ((push_bit 6 (sx 18 (cat3 a b c)) OR sx 12 (cat3 a b c)) AND 15) OR sx 6 (cat3 a b c))) :: u8) = b"
  "(ucast (push_bit 6 ((push_bit 6 ((push_bit 6 (sx 18 (cat3 a b c)) OR sx 12 (cat3 a b c)) AND 15) OR sx 6 (cat3 a b c)) AND 3)
      OR sx 0 (cat3 a b c)) :: u8) = c"
  unfolding cat3_def sx_def mask_words
  by (rule bit_word_eqI, simp add: bit_simps, drule less_8_cases, elim disjE;
      (simp add: bit_simps bit_u8_high; simp add: eval_nat_numeral))+

lemma b64_loop_four:
  "b64_loop 0 0 (b64_digit 18 (cat3 a b c) # b64_digit 12 (cat3 a b c) # b64_digit 6 (cat3 a b c) # b64_digit 0 (cat3 a b c) # s) =
    map_option (\<lambda>out. a # b # c # out) (b64_loop 0 0 s)"
  using cat3_bytes [of a b c]
  by (simp add: b64_val_digit Let_def option.map_comp o_def)

lemma b64_loop_tail:
  assumes "s = [] \<or> hd s = CHR ''=''"
  shows "b64_loop buf bits s = Some []"
  using assms by (cases s) auto

lemma b64_loop_three:
  assumes "s = [] \<or> hd s = CHR ''=''"
  shows "b64_loop 0 0 (b64_digit 18 (cat3 a b 0) # b64_digit 12 (cat3 a b 0) # b64_digit 6 (cat3 a b 0) # s) = Some [a, b]"
  using cat3_bytes(1,2) [of a b 0] b64_loop_tail [OF assms]
  by (simp add: b64_val_digit Let_def)

lemma b64_loop_two:
  assumes "s = [] \<or> hd s = CHR ''=''"
  shows "b64_loop 0 0 (b64_digit 18 (cat3 a 0 0) # b64_digit 12 (cat3 a 0 0) # s) = Some [a]"
  using cat3_bytes(1) [of a 0 0] b64_loop_tail [OF assms]
  by (simp add: b64_val_digit Let_def)

lemma b64_loop_encode: "s = [] \<or> hd s = CHR ''='' \<Longrightarrow> b64_loop 0 0 (b64url_encode bs @ s) = Some bs"
proof (induction bs rule: b64url_encode.induct)
  case (1 a b c data)
  then show ?case
    using b64_loop_four [of a b c "b64url_encode data @ s"] by (simp add: Let_def cat3_def)
next
  case (2 a b)
  then show ?case
    using b64_loop_three [of s a b] by (simp add: Let_def cat3_def)
next
  case (3 a)
  then show ?case
    using b64_loop_two [of s a] by (simp add: Let_def cat3_def)
qed (simp add: b64_loop_tail)

lemma b64_loop_pad: "b64_loop 0 0 (b64url_encode bs @ replicate n CHR ''='') = Some bs"
  by (rule b64_loop_encode) (cases n; simp)

lemma b64url_roundtrip: "b64url_decode (b64url_encode bs) = Some bs"
  using b64_loop_encode [of "[]" bs] by (simp add: b64url_decode_def)

lemma b64_digit_in: "b64_digit s n \<in> set B64"
  unfolding b64_digit_def
  using unat_and_63 [of "drop_bit s n"] by (intro nth_mem) (simp add: B64_def)

lemma b64url_encode_chars: "c \<in> set (b64url_encode bs) \<Longrightarrow> c \<in> set B64"
  by (induction bs rule: b64url_encode.induct) (auto simp: Let_def b64_digit_in)

lemma B64_chars: "c \<in> set B64 \<Longrightarrow> c \<noteq> CHR ''.'' \<and> c \<noteq> CHR ''='' \<and> 45 \<le> code c \<and> code c < 128"
proof -
  have "list_all (\<lambda>c. c \<noteq> CHR ''.'' \<and> c \<noteq> CHR ''='' \<and> 45 \<le> code c \<and> code c < 128) B64"
    by (simp add: B64_def)
  then show "c \<in> set B64 \<Longrightarrow> c \<noteq> CHR ''.'' \<and> c \<noteq> CHR ''='' \<and> 45 \<le> code c \<and> code c < 128"
    by (simp only: list_all_iff) blast
qed

section \<open>Finding the expiry\<close>

lemma find_str_skip: "p \<noteq> [] \<Longrightarrow> hd p \<notin> set u \<Longrightarrow> find_str p (u @ s) = map_option (\<lambda>i. length u + i) (find_str p s)"
proof (induction u)
  case Nil
  then show ?case by (simp add: option.map_ident)
next
  case (Cons c u)
  then show ?case
    by (cases p) (auto simp: option.map_comp o_def)
qed

lemma utf8_ok_ascii_split: "code c < 128 \<Longrightarrow> utf8_ok (s @ c # t) \<longleftrightarrow> utf8_ok s \<and> utf8_ok t"
proof (induction s rule: utf8_ok.induct)
  case (1 s)
  show ?case
  proof (cases "s = []")
    case True
    then show ?thesis by (simp add: utf8_ascii_Cons "1.prems")
  next
    case False
    from utf8_step_append_ascii [OF False "1.prems"] "1.IH" [OF False "1.prems"] False show ?thesis
      by (auto simp: utf8_ok.simps [of "s @ c # t"] utf8_ok.simps [of s])
  qed
qed

lemma find_exp_label:
  assumes "DQ \<notin> set owner"
  shows "find_str exp_label (''{'' @ [DQ] @ ''sub'' @ [DQ] @ '':'' @ [DQ] @ owner @ [DQ] @ '','' @ exp_label @ rest) = Some (10 + length owner)"
proof -
  have dq: "DQ \<noteq> CHR ''{''" "DQ \<noteq> CHR ''s''" "DQ \<noteq> CHR ''u''" "DQ \<noteq> CHR ''b''" "DQ \<noteq> CHR '':''" "DQ \<noteq> CHR '',''"
    by (simp_all add: DQ_def)
  have lab: "exp_label = DQ # ''exp'' @ [DQ] @ '':''"
    by (simp add: exp_label_def)
  have hd: "exp_label \<noteq> []" "hd exp_label = DQ"
    by (simp_all add: lab)
  have start: "\<not> starts_with (DQ # owner @ DQ # CHR '','' # x) exp_label" for x
    using assms dq unfolding lab by (cases owner rule: trim_start.cases) (auto simp: starts_with_prefix prefix_def append_eq_Cons_conv)
  have "find_str exp_label (owner @ DQ # CHR '','' # exp_label @ rest) = Some (length owner + 2)"
    using assms hd dq by (subst find_str_skip) (simp_all add: lab)
  then show ?thesis
    using start dq by (simp add: lab)
qed

lemma takeWhile_digits_show: "\<not> is_digit c \<Longrightarrow> takeWhile is_digit (show_word w @ c # s) = show_word w"
  using show_word_digits(1) [of w] by (simp add: list_all_iff takeWhile_append2)

lemma trim_start_digit: "s \<noteq> [] \<Longrightarrow> is_digit (hd s) \<Longrightarrow> trim_start s = s"
  by (intro trim_start_id) (cases s rule: trim_start.cases; auto simp: ws_head_def ws1_def ws2_def ws3_def is_digit_def)

lemma hd_show_word: "is_digit (hd (show_word w @ s))"
  using show_word_digits [of w] by (cases "show_word w") auto

lemma read_exp_at:
  assumes "find_str exp_label s = Some i" and "drop (i + length exp_label) s = show_word w @ c # t"
    and "\<not> is_digit c" and "DQ \<noteq> c"
  shows "read_exp s = Some w"
proof -
  let ?r = "show_word w @ c # t"
  have dig: "\<not> is_digit DQ"
    by (simp add: DQ_def is_digit_def)
  have hd: "hd exp_label = DQ" "exp_label \<noteq> []"
    by (simp_all add: exp_label_def)
  have nodq: "hd exp_label \<notin> set (show_word w @ [c])"
    using digit_notin_show_word [OF dig] assms(4) hd by auto
  obtain u where u: "split_nth1 exp_label s = Some (show_word w @ c # u)"
  proof (cases "split_once_str exp_label ?r")
    case None
    with assms(1,2) that show thesis
      by (simp add: split_nth1_def split_once_str_def)
  next
    case (Some p)
    then obtain j where j: "find_str exp_label ?r = Some j" "p = (take j ?r, drop (j + length exp_label) ?r)"
      by (auto simp: split_once_str_def)
    then have "map_option (\<lambda>i. length (show_word w @ [c]) + i) (find_str exp_label t) = Some j"
      using find_str_skip [OF hd(2) nodq, of t] by simp
    then obtain k where "j = length (show_word w @ [c]) + k"
      by (auto simp only: map_option_eq_Some)
    then have "take j ?r = show_word w @ c # take k t"
      by (simp add: Suc_diff_le)
    with j assms(1,2) Some that show thesis
      by (simp add: split_nth1_def split_once_str_def)
  qed
  have "trim_start (show_word w @ c # u) = show_word w @ c # u"
    by (intro trim_start_digit hd_show_word) simp
  then show ?thesis
    using assms(3) by (simp add: read_exp_def u takeWhile_digits_show)
qed

lemma read_exp_payload: "DQ \<notin> set owner \<Longrightarrow> read_exp (jwt_payload owner exp) = Some exp"
proof (rule read_exp_at)
  assume o: "DQ \<notin> set owner"
  show "find_str exp_label (jwt_payload owner exp) = Some (10 + length owner)"
    unfolding jwt_payload_def by (rule find_exp_label [OF o])
  show "drop (10 + length owner + length exp_label) (jwt_payload owner exp) = show_word exp @ CHR ''}'' # []"
    by (simp add: jwt_payload_def exp_label_def numeral_eq_Suc)
qed (simp_all add: is_digit_def DQ_def)

lemma is_ascii_show_word: "is_ascii (show_word w)"
  using show_word_digits(1) [of w] by (auto simp: is_ascii_def list_all_iff is_ascii_char_def is_digit_def)

lemma utf8_ok_payload: "utf8_ok owner \<Longrightarrow> utf8_ok (jwt_payload owner exp)"
proof -
  assume "utf8_ok owner"
  moreover have "is_ascii ('','' @ exp_label @ show_word exp @ ''}'')"
    by (simp add: exp_label_def is_ascii_show_word is_ascii_char_def DQ_def)
  ultimately have "utf8_ok (owner @ DQ # '','' @ exp_label @ show_word exp @ ''}'')"
    by (subst utf8_ok_ascii_split) (simp_all add: DQ_def utf8_ok_ascii)
  then show ?thesis
    by (simp add: jwt_payload_def utf8_ascii_Cons DQ_def)
qed

lemma from_utf8_Some: "from_utf8 raw = Some t \<longleftrightarrow> bytes_str raw = t \<and> utf8_ok t"
  by (auto simp: from_utf8_def)

lemma split_token:
  "split_on (\<lambda>c. c = CHR ''.'') (b64url_encode a @ ''.'' @ b64url_encode b @ ''.'' @ b64url_encode c) =
    [b64url_encode a, b64url_encode b, b64url_encode c]"
proof -
  have "split_on (\<lambda>c. c = CHR ''.'') (join ''.'' [b64url_encode a, b64url_encode b, b64url_encode c]) =
      [b64url_encode a, b64url_encode b, b64url_encode c]"
    using B64_chars b64url_encode_chars by (intro split_on_join) auto
  then show ?thesis by simp
qed

lemma verify_issued:
  fixes hmac secret owner
  defines "signing \<equiv> \<lambda>exp. as_bytes (b64url_encode (as_bytes jwt_header) @ ''.'' @ b64url_encode (as_bytes (jwt_payload owner exp)))"
  assumes "utf8_ok owner"
  shows "verify_jwt hmac now' secret' (issue_jwt hmac now secret owner mins) \<longleftrightarrow>
    hmac secret (signing (token_exp now mins)) = hmac secret' (signing (token_exp now mins)) \<and>
    (case read_exp (jwt_payload owner (token_exp now mins)) of None \<Rightarrow> False | Some exp \<Rightarrow> now' \<le> exp)"
proof -
  let ?e = "token_exp now mins"
  have tok: "issue_jwt hmac now secret owner mins =
      b64url_encode (as_bytes jwt_header) @ ''.'' @ b64url_encode (as_bytes (jwt_payload owner ?e)) @ ''.'' @
        b64url_encode (hmac secret (signing ?e))"
    by (simp add: issue_jwt_def Let_def sign_hs256_def signing_def)
  show ?thesis
    unfolding verify_jwt_def tok split_token
    by (simp add: hmac_eq_def b64url_roundtrip from_utf8_as_bytes utf8_ok_payload [OF assms(2)] signing_def)
qed

definition std_encode :: "bytes \<Rightarrow> string" where
  "std_encode bs =
     (let s = replace_char CHR ''_'' CHR ''/'' (replace_char CHR ''-'' CHR ''+'' (b64url_encode bs))
      in s @ replicate ((4 - length s mod 4) mod 4) CHR ''='')"

lemma std_swap_back:
  assumes "\<And>c. c \<in> set s \<Longrightarrow> c \<noteq> CHR ''+'' \<and> c \<noteq> CHR ''/''"
  shows "replace_char CHR ''/'' CHR ''_'' (replace_char CHR ''+'' CHR ''-''
    (replace_char CHR ''_'' CHR ''/'' (replace_char CHR ''-'' CHR ''+'' s))) = s"
  using assms by (induction s) (auto simp: replace_char_def)

lemma replace_char_other: "c \<notin> set s \<Longrightarrow> replace_char c d s = s"
  unfolding replace_char_def by (rule map_idI) auto

lemma B64_no_std: "c \<in> set B64 \<Longrightarrow> c \<noteq> CHR ''+'' \<and> c \<noteq> CHR ''/''"
proof -
  have "list_all (\<lambda>c. c \<noteq> CHR ''+'' \<and> c \<noteq> CHR ''/'') B64"
    by (simp add: B64_def)
  then show "c \<in> set B64 \<Longrightarrow> c \<noteq> CHR ''+'' \<and> c \<noteq> CHR ''/''"
    by (simp only: list_all_iff) blast
qed

lemma decode_std_encode: "b64url_decode_std (std_encode bs) = Some bs" "trim (std_encode bs) = std_encode bs"
proof -
  let ?e = "b64url_encode bs"
  let ?s = "replace_char CHR ''_'' CHR ''/'' (replace_char CHR ''-'' CHR ''+'' ?e)"
  let ?p = "replicate ((4 - length ?s mod 4) mod 4) CHR ''=''"
  have chars: "33 \<le> code c \<and> code c < 128" if "c \<in> set (std_encode bs)" for c
    using that b64url_encode_chars B64_chars
    by (fastforce simp: std_encode_def Let_def replace_char_def split: if_splits)
  then show t: "trim (std_encode bs) = std_encode bs"
    by (rule visible_trim)
  have "replace_char CHR ''/'' CHR ''_'' (replace_char CHR ''+'' CHR ''-'' ?s) = ?e"
    using B64_no_std b64url_encode_chars by (intro std_swap_back) blast
  then have "replace_char CHR ''/'' CHR ''_'' (replace_char CHR ''+'' CHR ''-'' (std_encode bs)) = ?e @ ?p"
    by (simp add: std_encode_def Let_def replace_char_def)
  then have "b64url_decode_std (std_encode bs) = b64_loop 0 0 (?e @ ?p @ replicate ((4 - length (?e @ ?p) mod 4) mod 4) CHR ''='')"
    by (simp add: b64url_decode_std_def t Let_def b64url_decode_def)
  also have "\<dots> = Some bs"
    unfolding replicate_add [symmetric] by (rule b64_loop_pad)
  finally show "b64url_decode_std (std_encode bs) = Some bs" .
qed

lemma ws_last_visible: "33 \<le> code c \<Longrightarrow> code c < 128 \<Longrightarrow> \<not> ws_last (s @ [c])"
  by (cases "rev s" rule: trim_start.cases) (auto simp: ws_last_def ws1_def ws2_def ws3_def)

lemma trim_Basic: "trim (''Basic '' @ std_encode bs) = ''Basic '' @ std_encode bs" if "bs \<noteq> []"
proof (rule trim_id)
  show "\<not> ws_head (''Basic '' @ std_encode bs)"
    by (simp add: ws_head_def ws1_def ws2_def ws3_def)
  have ne: "std_encode bs \<noteq> []"
    using that by (cases bs rule: b64url_encode.cases) (auto simp: std_encode_def Let_def replace_char_def)
  have "33 \<le> code c \<and> code c < 128" if "c \<in> set (std_encode bs)" for c
    using that b64url_encode_chars B64_chars
    by (fastforce simp: std_encode_def Let_def replace_char_def split: if_splits)
  with ne have "33 \<le> code (last (std_encode bs)) \<and> code (last (std_encode bs)) < 128"
    by simp
  moreover obtain u where "std_encode bs = u @ [last (std_encode bs)]"
    using ne by (metis append_butlast_last_id)
  ultimately show "\<not> ws_last (''Basic '' @ std_encode bs)"
    by (metis append.assoc last_snoc ws_last_visible)
qed

section \<open>Properties\<close>

text \<open>Base64 decoding inverts encoding for every byte string, with or without padding, and for both
  alphabets.\<close>
lemma base64_roundtrip:
  "b64url_decode (b64url_encode bs) = Some bs \<and> b64url_decode (b64url_encode bs @ replicate n CHR ''='') = Some bs \<and>
   b64url_decode_std (std_encode bs) = Some bs"
  unfolding b64url_decode_def using b64_loop_pad [of bs 0] b64_loop_pad [of bs n] decode_std_encode(1) by simp

text \<open>C37: An issued token is valid until its expiry and not a second longer: for every owner without a
  double quote, a token verifies under a secret exactly when that secret gives the same
  signature as the issuing one and the expiry (at least one minute after issue, saturating) has
  not passed.\<close>
theorem jwt_lifetime:
  assumes "utf8_ok owner" and "DQ \<notin> set owner"
  shows "(verify_jwt hmac now' secret (issue_jwt hmac now secret owner mins) \<longleftrightarrow> now' \<le> token_exp now mins) \<and>
    (verify_jwt hmac now' secret' (issue_jwt hmac now secret owner mins) \<longrightarrow>
      now' \<le> token_exp now mins \<and> (\<exists>msg. hmac secret msg = hmac secret' msg))"
  using verify_issued [OF assms(1), of hmac] read_exp_payload [OF assms(2)] by auto

theorem jwt_lifetime_witness:
  "verify_jwt (\<lambda>k m. as_bytes k @ m) 60 ''s'' (issue_jwt (\<lambda>k m. as_bytes k @ m) 0 ''s'' ''bob'' 1)"
  using jwt_lifetime [of "''bob''" "\<lambda>k m. as_bytes k @ m" 60 "''s''" 0 1 "''s''"]
  by (simp add: DQ_def utf8_ok_ascii is_ascii_char_def token_exp_def saturating_add_def saturating_mul_def)

text \<open>The owner of a token can choose its expiry: the name is put into the payload unescaped and the
  first expiry found is used, so a name that contains an expiry of its own yields a token that
  stays valid until that instant, whatever lifetime was granted.\<close>
lemma jwt_owner_injects_expiry:
  assumes "now' \<le> chosen"
  shows "verify_jwt hmac now' secret (issue_jwt hmac now secret
    (''x'' @ [DQ] @ '','' @ exp_label @ show_word chosen @ '','' @ [DQ] @ ''y'' @ [DQ] @ '':'' @ [DQ]) mins)"
proof -
  let ?o = "''x'' @ [DQ] @ '','' @ exp_label @ show_word chosen @ '','' @ [DQ] @ ''y'' @ [DQ] @ '':'' @ [DQ]"
  have "is_ascii ?o"
    by (simp add: exp_label_def is_ascii_show_word is_ascii_char_def DQ_def)
  then have utf: "utf8_ok ?o"
    by (rule utf8_ok_ascii)
  have "read_exp (jwt_payload ?o (token_exp now mins)) = Some chosen"
  proof (rule read_exp_at)
    have "DQ \<notin> set ''x''"
      by (simp add: DQ_def)
    from find_exp_label [OF this]
    show "find_str exp_label (jwt_payload ?o (token_exp now mins)) = Some (10 + length ''x'')"
      unfolding jwt_payload_def by simp
    show "drop (10 + length ''x'' + length exp_label) (jwt_payload ?o (token_exp now mins)) =
        show_word chosen @ CHR '','' # DQ # ''y'' @ [DQ] @ '':'' @ [DQ] @ [DQ] @ '','' @ exp_label @ show_word (token_exp now mins) @ ''}''"
      by (simp add: jwt_payload_def exp_label_def numeral_eq_Suc)
  qed (simp_all add: is_digit_def DQ_def)
  with verify_issued [OF utf] assms show ?thesis by simp
qed

lemma jwt_owner_injects_expiry_example:
  "verify_jwt (\<lambda>k m. as_bytes k) 4000000000 ''s'' (issue_jwt (\<lambda>k m. as_bytes k) 0 ''s''
    (''x'' @ [DQ] @ '','' @ exp_label @ show_word (5000000000 :: u64) @ '','' @ [DQ] @ ''y'' @ [DQ] @ '':'' @ [DQ]) 1)"
  by (rule jwt_owner_injects_expiry) simp

text \<open>Basic authentication admits precisely the configured pair: a request is let in exactly when its
  Authorization header is the Basic scheme followed by text that decodes to the configured
  user, a colon and the configured password; in particular the standard encoding of the pair is
  accepted.\<close>
lemma basic_auth_exact:
  assumes "CHR '':'' \<notin> set user" and "utf8_ok (user @ CHR '':'' # pass)"
  shows "(auth_header_ok hmac now (Basic user pass) get q \<longleftrightarrow>
      (\<exists>h enc raw. get ''authorization'' = Some h \<and> trim h = ''Basic '' @ enc \<and>
         b64url_decode_std (trim enc) = Some raw \<and> bytes_str raw = user @ CHR '':'' # pass)) \<and>
    (get ''authorization'' = Some (''Basic '' @ std_encode (as_bytes (user @ CHR '':'' # pass))) \<longrightarrow>
      auth_header_ok hmac now (Basic user pass) get q)"
proof -
  have cred: "basic_credentials hdr = Some (user, pass) \<longleftrightarrow>
      (\<exists>h enc raw. hdr = Some h \<and> trim h = ''Basic '' @ enc \<and>
         b64url_decode_std (trim enc) = Some raw \<and> bytes_str raw = user @ CHR '':'' # pass)" for hdr
    using assms
    by (auto simp: basic_credentials_def bind_eq_Some_conv strip_prefix_Some from_utf8_Some split_once_Some)
  have ok: "auth_header_ok hmac now (Basic user pass) get q \<longleftrightarrow> basic_credentials (get ''authorization'') = Some (user, pass)"
    by (auto simp: auth_header_ok_def split: option.splits)
  show ?thesis
    unfolding ok cred
    using trim_Basic [of "as_bytes (user @ CHR '':'' # pass)"] decode_std_encode [of "as_bytes (user @ CHR '':'' # pass)"]
      bytes_str_as_bytes [of "user @ CHR '':'' # pass"]
    by auto
qed

lemma basic_auth_exact_example:
  "auth_header_ok (\<lambda>_ _. []) 0 (Basic ''u'' ''p'') [''authorization'' \<mapsto> ''Basic '' @ std_encode (as_bytes ''u:p'')] []"
  by (rule basic_auth_exact [THEN conjunct2, THEN mp]) (simp_all add: utf8_ok_ascii is_ascii_char_def)

end
