(* ===== verification/Proxy_Config.thy ===== *)
theory Proxy_Config
  imports Security Edge_Cache "HOL-Library.Product_Lexorder"
begin

text \<open>
  The configuration of src/src/proxy_config.rs: paths, backends, sites, TLS rows with their
  normalisation, wildcard host names, the resolution of named policies, and the listing of
  upstream endpoints.  A \<^verbatim>\<open>SocketAddr\<close> is an address with a port; a \<^verbatim>\<open>PathBuf\<close> is a string.
  Reading YAML is left to serde and is not modelled.
\<close>

section \<open>Data\<close>

datatype ConfigPathMatchType = CExact | CPrefix | CImplementationSpecific

datatype LoadBalancerAlgorithm = RoundRobin | LeastConnections | IpHash

record Upstream =
  us_addr :: string
  us_weight :: u32

record ConfigBackend =
  cb_name :: string
  cb_upstreams :: "Upstream list"
  cb_algorithm :: LoadBalancerAlgorithm
  cb_health_path :: "string option"
  cb_health_interval_secs :: u64

record PathRewrite =
  pr_path_type :: ConfigPathMatchType
  pr_path :: string
  pr_rewrite :: "string option"
  pr_upstream :: "string option"
  pr_auth :: "RouteAuth option"
  pr_rate_limit_rps :: u32
  pr_x4xx_limit_rps :: u32
  pr_cache :: "bool option"

definition path_rewrite_default :: PathRewrite where
  "path_rewrite_default = \<lparr>pr_path_type = CPrefix, pr_path = ''/'', pr_rewrite = None, pr_upstream = None,
     pr_auth = None, pr_rate_limit_rps = 0, pr_x4xx_limit_rps = 0, pr_cache = None\<rparr>"

record AccessList =
  al_id :: string
  al_name :: string
  al_description :: "string option"
  al_geoip :: GeoIpPolicy

record NamedWafPolicy =
  nw_id :: string
  nw_name :: string
  nw_description :: "string option"
  nw_security :: SecurityPolicy

record Site =
  si_host :: string
  si_routes :: "PathRewrite list"
  si_backend :: string
  si_security_headers :: "(string, string) hmap option"
  si_ingress_namespace :: "string option"
  si_ingress_name :: "string option"
  si_k8s_resource_kind :: "string option"
  si_http3_alt_svc_enabled :: bool
  si_forward_client_ip :: bool
  si_access_list_id :: "string option"
  si_waf_policy_id :: "string option"
  si_geoip :: GeoIpPolicy
  si_security :: SecurityPolicy

datatype TlsSource =
    Acme (ac_email: "string option") (ac_challenge: string) (ac_dns_provider: "string option")
      (ac_dns_provider_type: "string option") (ac_dns_credentials: "(string, string) hmap option")
  | File (tf_cert: string) (tf_key: string)
  | Kubernetes

definition default_challenge :: string where
  "default_challenge = ''http01''"

record TlsConfig =
  tc_hosts :: "string list"
  tc_source :: TlsSource
  tc_expires_at :: "string option"

type_synonym socket_addr = "ip_addr \<times> u16"

definition show_socket_addr :: "socket_addr \<Rightarrow> string" where
  "show_socket_addr a =
     (case fst a of
        V4 _ _ _ _ \<Rightarrow> show_ip (fst a) @ '':'' @ show_word (snd a)
      | V6 _ \<Rightarrow> ''['' @ show_ip (fst a) @ '']:'' @ show_word (snd a))"

record Http3Options =
  h3_max_data :: "u64 option"
  h3_max_stream_data :: "u64 option"
  h3_max_streams_bidi :: "u64 option"
  h3_max_idle_timeout_ms :: "u64 option"
  h3_congestion_control :: "string option"
  h3_enable_0rtt :: "bool option"
  h3_listeners :: "nat option"
  h3_enable_pacing :: "bool option"

definition http3_default :: Http3Options where
  "http3_default = \<lparr>h3_max_data = None, h3_max_stream_data = None, h3_max_streams_bidi = None,
     h3_max_idle_timeout_ms = None, h3_congestion_control = None, h3_enable_0rtt = None,
     h3_listeners = None, h3_enable_pacing = None\<rparr>"

record Config =
  cf_http_addr :: socket_addr
  cf_https_addr :: socket_addr
  cf_http3_addr :: "socket_addr option"
  cf_management_addr :: socket_addr
  cf_backends :: "ConfigBackend list"
  cf_sites :: "Site list"
  cf_access_lists :: "AccessList list"
  cf_waf_policies :: "NamedWafPolicy list"
  cf_tls :: "TlsConfig list"
  cf_security_headers :: "(string, string) hmap"
  cf_proxy_log :: bool
  cf_acme_email :: "string option"
  cf_http3 :: Http3Options
  cf_tls_grade :: TlsGrade
  cf_cache_size_mb :: u64
  cf_cache_ttl_secs :: u64
  cf_consul :: "ConsulConfig option"
  cf_jwt_secret :: "string option"

definition default_http_addr :: socket_addr where
  "default_http_addr = (V6 [0, 0, 0, 0, 0, 0, 0, 0], 80)"

definition default_https_addr :: socket_addr where
  "default_https_addr = (V6 [0, 0, 0, 0, 0, 0, 0, 0], 443)"

definition default_management_addr :: socket_addr where
  "default_management_addr = (V6 [0, 0, 0, 0, 0, 0, 0, 0], 9080)"

definition default_cache_ttl :: u64 where
  "default_cache_ttl = 60"

definition SQ :: "string \<Rightarrow> string" where
  "SQ s = CHR 0x27 # s @ [CHR 0x27]"

definition default_security_headers :: "(string, string) hmap" where
  "default_security_headers =
    [(''Strict-Transport-Security'', ''max-age=63072000; includeSubDomains; preload''),
     (''X-Content-Type-Options'', ''nosniff''),
     (''X-Frame-Options'', ''SAMEORIGIN''),
     (''Referrer-Policy'', ''strict-origin-when-cross-origin''),
     (''Permissions-Policy'', ''geolocation=(), microphone=(), camera=()''),
     (''Content-Security-Policy'', ''default-src '' @ SQ ''self'' @ '' https: data: blob:; script-src '' @ SQ ''self'' @
        '' '' @ SQ ''unsafe-inline'' @ '' '' @ SQ ''unsafe-eval'' @ '' https:; style-src '' @ SQ ''self'' @ '' '' @
        SQ ''unsafe-inline'' @ '' https:; font-src '' @ SQ ''self'' @ '' https: data:; img-src '' @ SQ ''self'' @
        '' data: https: blob:; connect-src '' @ SQ ''self'' @ '' https: wss:; worker-src '' @ SQ ''self'' @
        '' blob:; base-uri '' @ SQ ''self'' @ ''; object-src '' @ SQ ''none'' @ ''; upgrade-insecure-requests'')]"

definition config_default :: Config where
  "config_default = \<lparr>cf_http_addr = default_http_addr, cf_https_addr = default_https_addr, cf_http3_addr = None,
     cf_management_addr = default_management_addr, cf_backends = [], cf_sites = [], cf_access_lists = [],
     cf_waf_policies = [], cf_tls = [], cf_security_headers = default_security_headers, cf_proxy_log = True,
     cf_acme_email = None, cf_http3 = http3_default, cf_tls_grade = Medium, cf_cache_size_mb = 0,
     cf_cache_ttl_secs = default_cache_ttl, cf_consul = None, cf_jwt_secret = None\<rparr>"

section \<open>TLS rows\<close>

definition tls_hosts_set :: "string list \<Rightarrow> string set" where
  "tls_hosts_set hosts = set (filter (\<lambda>s. s \<noteq> []) (map (\<lambda>s. to_ascii_lowercase (trim s)) hosts))"

definition acme_wildcard_host :: "string list \<Rightarrow> string option" where
  "acme_wildcard_host hosts =
     map_option (\<lambda>h. to_ascii_lowercase (trim h)) (find (\<lambda>h. starts_with (trim h) ''*.'') hosts)"

fun acme_sources_equivalent :: "TlsSource \<Rightarrow> TlsSource \<Rightarrow> bool" where
  "acme_sources_equivalent (Acme e1 c1 d1 t1 _) (Acme e2 c2 d2 t2 _) = (e1 = e2 \<and> c1 = c2 \<and> d1 = d2 \<and> t1 = t2)"
| "acme_sources_equivalent (File c1 k1) (File c2 k2) = (c1 = c2 \<and> k1 = k2)"
| "acme_sources_equivalent _ _ = False"

definition is_acme :: "TlsSource \<Rightarrow> bool" where
  "is_acme s = (case s of Acme _ _ _ _ _ \<Rightarrow> True | _ \<Rightarrow> False)"

definition tls_entries_should_merge :: "TlsConfig \<Rightarrow> TlsConfig \<Rightarrow> bool" where
  "tls_entries_should_merge a b =
     (if \<not> acme_sources_equivalent (tc_source a) (tc_source b) then False
      else if is_acme (tc_source a) \<and> is_acme (tc_source b) then
        (if acme_wildcard_host (tc_hosts a) \<noteq> None \<and>
            acme_wildcard_host (tc_hosts a) = acme_wildcard_host (tc_hosts b)
         then True
         else tls_hosts_set (tc_hosts a) \<inter> tls_hosts_set (tc_hosts b) \<noteq> {})
      else (case (tc_source a, tc_source b) of (File _ _, File _ _) \<Rightarrow> True | _ \<Rightarrow> False))"

definition is_invalid_acme_identifier :: "string \<Rightarrow> bool" where
  "is_invalid_acme_identifier host =
     (let h = to_ascii_lowercase (trim host) in
      if h = [] then True
      else
        let labels = (case strip_prefix ''*.'' h of
            Some rest \<Rightarrow> filter (\<lambda>p. p \<noteq> []) (split_on (\<lambda>c. c = CHR ''.'') rest)
          | None \<Rightarrow> filter (\<lambda>p. p \<noteq> []) (split_on (\<lambda>c. c = CHR ''.'') h))
        in length labels < 2)"

definition add_host :: "string \<Rightarrow> string list \<Rightarrow> string list" where
  "add_host raw hosts =
     (let h = trim raw in
      if h = [] then hosts
      else if \<not> list_ex (\<lambda>x. eq_ignore_ascii_case x h) hosts then hosts @ [h] else hosts)"

fun merge_entry :: "TlsConfig \<Rightarrow> TlsConfig list \<Rightarrow> TlsConfig list" where
  "merge_entry entry [] = [entry]"
| "merge_entry entry (e # es) =
     (if tls_entries_should_merge e entry
      then e\<lparr>tc_hosts := fold add_host (tc_hosts entry) (tc_hosts e), tc_expires_at := None\<rparr> # es
      else e # merge_entry entry es)"

definition retain_valid :: "TlsConfig \<Rightarrow> TlsConfig" where
  "retain_valid e =
     (if is_acme (tc_source e)
      then (let hosts = filter (\<lambda>h. \<not> is_invalid_acme_identifier h) (tc_hosts e)
            in e\<lparr>tc_hosts := hosts,
                 tc_expires_at := (if length hosts \<noteq> length (tc_hosts e) then None else tc_expires_at e)\<rparr>)
      else e)"

definition normalize_tls_config :: "TlsConfig list \<Rightarrow> TlsConfig list" where
  "normalize_tls_config tls = filter (\<lambda>t. tc_hosts t \<noteq> []) (map retain_valid (fold merge_entry tls []))"

definition wildcard_covers_host :: "string \<Rightarrow> string \<Rightarrow> bool" where
  "wildcard_covers_host wildcard host =
     (let w = trim wildcard; h = to_ascii_lowercase (trim host) in
      if w = [] \<or> h = [] then False
      else if \<not> starts_with w ''*'' then eq_ignore_ascii_case w h
      else
        let suffix = get_or w (strip_prefix ''*'' w) in
        if \<not> ends_with h suffix \<or> length h \<le> length suffix then False
        else
          let pre = take (length h - length suffix) h
          in pre \<noteq> [] \<and> CHR ''.'' \<notin> set pre)"

definition tls_has_acme_config :: "TlsConfig list \<Rightarrow> bool" where
  "tls_has_acme_config tls = list_ex (\<lambda>t. is_acme (tc_source t)) tls"

section \<open>Named policies\<close>

definition resolve_site_geoip :: "Config \<Rightarrow> Site \<Rightarrow> GeoIpPolicy" where
  "resolve_site_geoip cfg site =
     (case filter_opt (\<lambda>s. s \<noteq> []) (map_option trim (si_access_list_id site)) of
        Some i \<Rightarrow> (case find (\<lambda>l. al_id l = i) (cf_access_lists cfg) of
            Some l \<Rightarrow> geoip_normalized (al_geoip l)
          | None \<Rightarrow> geoip_normalized (si_geoip site))
      | None \<Rightarrow> geoip_normalized (si_geoip site))"

definition resolve_site_security :: "Config \<Rightarrow> Site \<Rightarrow> SecurityPolicy" where
  "resolve_site_security cfg site =
     (case filter_opt (\<lambda>s. s \<noteq> []) (map_option trim (si_waf_policy_id site)) of
        Some i \<Rightarrow> (case find (\<lambda>p. nw_id p = i) (cf_waf_policies cfg) of
            Some p \<Rightarrow> security_normalized (nw_security p)
          | None \<Rightarrow> security_normalized (si_security site))
      | None \<Rightarrow> security_normalized (si_security site))"

section \<open>Upstream endpoints\<close>

record ParsedUpstreamEndpoint =
  pu_scheme :: string
  pu_host :: string
  pu_port :: u16

record ListenPortEntry =
  lp_name :: string
  lp_addr :: string
  lp_port :: u16

record UpstreamPortEntry =
  up_backend :: string
  up_addr :: string
  up_scheme :: string
  up_host :: string
  up_port :: u16
  up_weight :: u32
  up_sites :: "string list"

record UpstreamPortsSummary =
  su_listen_ports :: "ListenPortEntry list"
  su_upstreams :: "UpstreamPortEntry list"

definition parse_host_port :: "string \<Rightarrow> u16 \<Rightarrow> string \<times> u16" where
  "parse_host_port raw default_port =
     (let rest = trim raw in
      if rest = [] then ([], default_port)
      else
        case (if starts_with rest ''['' then split_once CHR '']'' rest else None) of
          Some (host, after) \<Rightarrow>
            (host @ '']'', get_or default_port (Option.bind (strip_prefix '':'' after) parse_word))
        | None \<Rightarrow>
            (case rsplit_once CHR '':'' rest of
               Some (host, port_str) \<Rightarrow>
                 (case parse_word port_str of
                    Some port \<Rightarrow> if host \<noteq> [] \<and> CHR '':'' \<notin> set host then (host, port) else (rest, default_port)
                  | None \<Rightarrow> (rest, default_port))
             | None \<Rightarrow> (rest, default_port)))"

definition parse_upstream_endpoint :: "string \<Rightarrow> ParsedUpstreamEndpoint" where
  "parse_upstream_endpoint raw =
     (let trimmed = trim raw;
          (scheme, rest) = (case strip_prefix ''https://'' trimmed of
              Some r \<Rightarrow> (''https'', r)
            | None \<Rightarrow> (case strip_prefix ''http://'' trimmed of Some r \<Rightarrow> (''http'', r) | None \<Rightarrow> (''http'', trimmed)));
          default_port = (if scheme = ''https'' then 443 else 80);
          (host, port) = parse_host_port rest default_port
      in \<lparr>pu_scheme = scheme, pu_host = host, pu_port = port\<rparr>)"

definition listen_port :: "string \<Rightarrow> socket_addr \<Rightarrow> ListenPortEntry" where
  "listen_port name addr = \<lparr>lp_name = name, lp_addr = show_socket_addr addr, lp_port = snd addr\<rparr>"

definition sites_by_backend :: "Site list \<Rightarrow> (string, string list) hmap" where
  "sites_by_backend sites = fold (\<lambda>site. hm_push (si_backend site) (si_host site)) sites []"

definition port_entry :: "ConfigBackend \<Rightarrow> string list \<Rightarrow> Upstream \<Rightarrow> UpstreamPortEntry" where
  "port_entry backend sites u =
     (let parsed = parse_upstream_endpoint (us_addr u)
      in \<lparr>up_backend = cb_name backend, up_addr = us_addr u, up_scheme = pu_scheme parsed, up_host = pu_host parsed,
          up_port = pu_port parsed, up_weight = max (us_weight u) 1, up_sites = sites\<rparr>)"

definition upstream_ports_summary :: "Config \<Rightarrow> UpstreamPortsSummary" where
  "upstream_ports_summary cfg =
     (let listen_ports =
            [listen_port ''http'' (cf_http_addr cfg), listen_port ''https'' (cf_https_addr cfg),
             listen_port ''management'' (cf_management_addr cfg)] @
            (case cf_http3_addr cfg of Some addr \<Rightarrow> [listen_port ''http3'' addr] | None \<Rightarrow> []);
          by_backend = sites_by_backend (cf_sites cfg);
          upstreams = concat (map (\<lambda>backend.
            map (port_entry backend (get_or [] (map_of by_backend (cb_name backend)))) (cb_upstreams backend))
            (cf_backends cfg))
      in \<lparr>su_listen_ports = listen_ports,
          su_upstreams = sort_key (\<lambda>a. (up_backend a, up_port a, up_host a)) upstreams\<rparr>)"

lemmas proxy_config_defs [run] = path_rewrite_default_def default_challenge_def show_socket_addr_def http3_default_def
  tls_hosts_set_def acme_wildcard_host_def is_acme_def tls_entries_should_merge_def is_invalid_acme_identifier_def
  add_host_def retain_valid_def normalize_tls_config_def wildcard_covers_host_def tls_has_acme_config_def
  resolve_site_geoip_def resolve_site_security_def parse_host_port_def parse_upstream_endpoint_def
  listen_port_def sites_by_backend_def port_entry_def upstream_ports_summary_def

section \<open>Wildcard host names\<close>

lemma wildcard_covers_iff:
  assumes "trim w = CHR ''*'' # d"
  shows "wildcard_covers_host w h \<longleftrightarrow> (\<exists>l. l \<noteq> [] \<and> CHR ''.'' \<notin> set l \<and> to_ascii_lowercase (trim h) = l @ d)"
proof -
  define g where "g = to_ascii_lowercase (trim h)"
  have "wildcard_covers_host w h \<longleftrightarrow>
      g \<noteq> [] \<and> suffix d g \<and> length d < length g \<and> CHR ''.'' \<notin> set (take (length g - length d) g)"
    by (auto simp: wildcard_covers_host_def assms g_def [symmetric] strip_prefix_def ends_with_suffix Let_def)
  also have "\<dots> \<longleftrightarrow> (\<exists>l. l \<noteq> [] \<and> CHR ''.'' \<notin> set l \<and> g = l @ d)"
    by (auto simp: suffix_def)
  finally show ?thesis by (simp add: g_def)
qed

lemma wildcard_covers_unique:
  assumes "trim k = CHR ''*'' # CHR ''.'' # d" and "trim k' = CHR ''*'' # CHR ''.'' # d'"
    and "wildcard_covers_host k h" and "wildcard_covers_host k' h"
  shows "d = d'"
proof -
  obtain l where l: "CHR ''.'' \<notin> set l" "to_ascii_lowercase (trim h) = l @ CHR ''.'' # d"
    using assms(3) wildcard_covers_iff [OF assms(1)] by auto
  obtain l' where l': "CHR ''.'' \<notin> set l'" "to_ascii_lowercase (trim h) = l' @ CHR ''.'' # d'"
    using assms(4) wildcard_covers_iff [OF assms(2)] by auto
  have "split_once CHR ''.'' (to_ascii_lowercase (trim h)) = Some (l, d)"
    "split_once CHR ''.'' (to_ascii_lowercase (trim h)) = Some (l', d')"
    using l l' by (simp_all add: split_once_Some)
  then show ?thesis by simp
qed

lemma wildcard_covers_host_norm:
  "wildcard_covers_host w (to_ascii_lowercase (trim h)) = wildcard_covers_host w h"
  by (simp add: wildcard_covers_host_def)

section \<open>What the TLS normalisation keeps\<close>

definition source_key :: "TlsSource \<Rightarrow> TlsSource" where
  "source_key s = (case s of Acme e c d t _ \<Rightarrow> Acme e c d t None | _ \<Rightarrow> s)"

definition covered :: "TlsConfig \<Rightarrow> (TlsSource \<times> string) set" where
  "covered e = Pair (source_key (tc_source e)) ` tls_hosts_set (tc_hosts e)"

definition servable :: "TlsSource \<Rightarrow> string \<Rightarrow> bool" where
  "servable s h = (if is_acme s then \<not> is_invalid_acme_identifier h else True)"

lemma mergeable_source_key: "tls_entries_should_merge a b \<Longrightarrow> source_key (tc_source a) = source_key (tc_source b)"
  by (cases "tc_source a"; cases "tc_source b") (auto simp: tls_entries_should_merge_def source_key_def split: if_splits)

lemma tls_hosts_set_simps [simp]:
  "tls_hosts_set [] = {}"
  "tls_hosts_set (h # hs) = (if trim h = [] then {} else {to_ascii_lowercase (trim h)}) \<union> tls_hosts_set hs"
  "tls_hosts_set (hs @ hs') = tls_hosts_set hs \<union> tls_hosts_set hs'"
  by (auto simp: tls_hosts_set_def)

lemma tls_hosts_set_member:
  "x \<in> set hs \<Longrightarrow> trim x \<noteq> [] \<Longrightarrow> to_ascii_lowercase (trim x) \<in> tls_hosts_set hs"
  by (auto simp: tls_hosts_set_def)

lemma known_host_covered:
  assumes "list_ex (\<lambda>x. eq_ignore_ascii_case x (trim h)) hs" and "trim h \<noteq> []"
  shows "to_ascii_lowercase (trim h) \<in> tls_hosts_set hs"
proof -
  obtain x where x: "x \<in> set hs" "to_ascii_lowercase x = to_ascii_lowercase (trim h)"
    using assms(1) by (auto simp: list_ex_iff eq_ignore_ascii_case_def)
  have eq: "to_ascii_lowercase (trim x) = to_ascii_lowercase (trim h)"
    using arg_cong [OF x(2), of trim] by simp
  then have "length (trim x) = length (trim h)"
    by (metis length_map to_ascii_lowercase_def)
  with assms(2) have "trim x \<noteq> []" by auto
  from tls_hosts_set_member [OF x(1) this] eq show ?thesis by simp
qed

lemma add_host_covers: "tls_hosts_set (add_host h hs) = tls_hosts_set [h] \<union> tls_hosts_set hs"
  using known_host_covered [of h hs] by (auto simp: add_host_def Let_def)

lemma add_hosts_cover: "tls_hosts_set (fold add_host new hs) = tls_hosts_set new \<union> tls_hosts_set hs"
  by (induction new arbitrary: hs) (auto simp: add_host_covers)

lemma merge_entry_covered: "\<Union> (covered ` set (merge_entry e es)) = covered e \<union> \<Union> (covered ` set es)"
proof (induction es)
  case (Cons a es)
  then show ?case
    using mergeable_source_key [of a e] by (auto simp: covered_def add_hosts_cover)
qed simp

lemma fold_merge_covered:
  "\<Union> (covered ` set (fold merge_entry tls acc)) = \<Union> (covered ` set tls) \<union> \<Union> (covered ` set acc)"
  by (induction tls arbitrary: acc) (auto simp: merge_entry_covered)

lemma invalid_identifier_norm:
  "is_invalid_acme_identifier (to_ascii_lowercase (trim h)) = is_invalid_acme_identifier h"
  by (simp add: is_invalid_acme_identifier_def)

lemma is_acme_source_key [simp]: "is_acme (source_key s) = is_acme s"
  by (cases s) (simp_all add: is_acme_def source_key_def)

lemma tls_hosts_set_filter:
  "tls_hosts_set (filter (\<lambda>h. \<not> is_invalid_acme_identifier h) hs) =
     {h \<in> tls_hosts_set hs. \<not> is_invalid_acme_identifier h}"
proof (induction hs)
  case (Cons h hs)
  then show ?case
    using invalid_identifier_norm [of h] by (cases "is_invalid_acme_identifier h") auto
qed simp

lemma retain_valid_covered: "covered (retain_valid e) = {p \<in> covered e. servable (fst p) (snd p)}"
  by (auto simp: covered_def retain_valid_def servable_def Let_def tls_hosts_set_filter)

lemma covered_no_hosts: "tc_hosts e = [] \<Longrightarrow> covered e = {}"
  by (simp add: covered_def)

section \<open>Endpoint text\<close>

definition host_text :: "string \<Rightarrow> bool" where
  "host_text host \<longleftrightarrow> host \<noteq> [] \<and> list_all (\<lambda>c. 33 \<le> code c \<and> code c < 128) host \<and>
     (if hd host = CHR ''['' then (\<exists>v6. host = CHR ''['' # v6 @ '']'' \<and> CHR '']'' \<notin> set v6)
      else CHR '':'' \<notin> set host)"

lemma show_word_visible: "c \<in> set (show_word w) \<Longrightarrow> 33 \<le> code c \<and> code c < 128"
  using show_word_digits(1) [of w] by (auto simp: list_all_iff is_digit_def)

lemma colon_not_digit: "CHR '':'' \<notin> set (show_word w)"
  by (rule digit_notin_show_word) (simp add: is_digit_def)

lemma parse_host_port_text:
  assumes "host_text host"
  shows "parse_host_port (host @ '':'' @ show_word port) d = (host, port) \<and> parse_host_port host d = (host, d)"
proof -
  have vis: "33 \<le> code c \<and> code c < 128" if "c \<in> set host" for c
    using assms that by (auto simp: host_text_def list_all_iff)
  have t1: "trim host = host"
    by (rule visible_trim) (rule vis)
  have t2: "trim (host @ CHR '':'' # show_word port) = host @ CHR '':'' # show_word port"
    by (rule visible_trim) (auto dest: vis show_word_visible)
  show ?thesis
  proof (cases "hd host = CHR ''[''")
    case True
    then obtain v6 where v6: "host = CHR ''['' # v6 @ '']''" "CHR '']'' \<notin> set v6"
      using assms by (auto simp: host_text_def)
    have s: "split_once CHR '']'' (CHR ''['' # v6 @ CHR '']'' # r) = Some (CHR ''['' # v6, r)" for r
      using v6(2) by (simp add: split_once_Some)
    show ?thesis
      using t1 t2 by (simp add: parse_host_port_def v6(1) s strip_prefix_def)
  next
    case False
    have nc: "CHR '':'' \<notin> set host" and ne: "host \<noteq> []"
      using assms False by (auto simp: host_text_def)
    have "\<not> starts_with host ''[''" "\<not> starts_with (host @ r) ''[''" for r
      using False ne by (cases host; simp)+
    moreover have "rsplit_once CHR '':'' (host @ CHR '':'' # show_word port) = Some (host, show_word port)"
      "rsplit_once CHR '':'' host = None"
      using nc colon_not_digit by (simp_all add: rsplit_once_Some rsplit_once_None)
    ultimately show ?thesis
      using t1 t2 nc ne by (simp add: parse_host_port_def)
  qed
qed

section \<open>Properties\<close>

text \<open>C20: Normalising the TLS rows loses and invents nothing.  The pairs of certificate source (up to
  the credentials) and host name (up to case and surrounding blanks) that are covered afterwards
  are exactly those covered before, without the names that no certificate authority accepts;
  and no row is left without hosts.\<close>
theorem normalize_tls_coverage:
  "\<Union> (covered ` set (normalize_tls_config tls)) = {(s, h) \<in> \<Union> (covered ` set tls). servable s h} \<and>
   list_all (\<lambda>t. tc_hosts t \<noteq> []) (normalize_tls_config tls)"
proof
  let ?m = "fold merge_entry tls []"
  have "\<Union> (covered ` set (normalize_tls_config tls)) = \<Union> (covered ` set (map retain_valid ?m))"
    using covered_no_hosts by (auto simp: normalize_tls_config_def simp del: set_map)
  also have "\<dots> = {p \<in> \<Union> (covered ` set ?m). servable (fst p) (snd p)}"
    by (auto simp: retain_valid_covered)
  also have "\<dots> = {(s, h) \<in> \<Union> (covered ` set tls). servable s h}"
    by (auto simp: fold_merge_covered)
  finally show "\<Union> (covered ` set (normalize_tls_config tls)) = {(s, h) \<in> \<Union> (covered ` set tls). servable s h}" .
  show "list_all (\<lambda>t. tc_hosts t \<noteq> []) (normalize_tls_config tls)"
    by (auto simp: normalize_tls_config_def list_all_iff)
qed

text \<open>
  One pass does not merge everything: a row that joins two earlier rows leaves them apart, and a
  second pass merges them.
\<close>

lemma normalize_tls_not_idempotent:
  fixes row :: "string list \<Rightarrow> TlsConfig"
  defines "row \<equiv> \<lambda>hs. \<lparr>tc_hosts = hs, tc_source = Acme None ''http01'' None None None, tc_expires_at = None\<rparr>"
  shows "length (normalize_tls_config [row [''a.x''], row [''b.x''], row [''a.x'', ''b.x'']]) = 2 \<and>
    length (normalize_tls_config (normalize_tls_config [row [''a.x''], row [''b.x''], row [''a.x'', ''b.x'']])) = 1"
  by (simp add: row_def run)

text \<open>Reading an upstream address recovers what was written: scheme, host (a name, an IPv4
  address or a bracketed IPv6 address) and port; without a port the default of the scheme is
  taken, and without a scheme http.\<close>
lemma parse_upstream_endpoint_text:
  assumes "host_text host"
  shows "parse_upstream_endpoint (''https://'' @ host @ '':'' @ show_word port) =
      \<lparr>pu_scheme = ''https'', pu_host = host, pu_port = port\<rparr> \<and>
    parse_upstream_endpoint (''http://'' @ host @ '':'' @ show_word port) =
      \<lparr>pu_scheme = ''http'', pu_host = host, pu_port = port\<rparr> \<and>
    parse_upstream_endpoint (''https://'' @ host) = \<lparr>pu_scheme = ''https'', pu_host = host, pu_port = 443\<rparr> \<and>
    parse_upstream_endpoint (''http://'' @ host) = \<lparr>pu_scheme = ''http'', pu_host = host, pu_port = 80\<rparr> \<and>
    parse_upstream_endpoint host = \<lparr>pu_scheme = ''http'', pu_host = host, pu_port = 80\<rparr>"
proof -
  have vis: "33 \<le> code c \<and> code c < 128" if "c \<in> set host" for c
    using assms that by (auto simp: host_text_def list_all_iff)
  have tr: "trim (p @ host) = p @ host" "trim (p @ host @ CHR '':'' # show_word port) = p @ host @ CHR '':'' # show_word port"
    if "list_all (\<lambda>c. 33 \<le> code c \<and> code c < 128) p" for p
    using that vis show_word_visible by (intro visible_trim; fastforce simp: list_all_iff)+
  have np: "strip_prefix ''https://'' host = None" "strip_prefix ''http://'' host = None"
    using assms by (auto simp: host_text_def not_Some_eq [symmetric] strip_prefix_Some)
  note hp = parse_host_port_text [OF assms, of port, simplified]
  show ?thesis
    using tr [of "''https://''"] tr [of "''http://''"] tr [of "[]"] np hp
    by (simp add: parse_upstream_endpoint_def strip_prefix_def)
qed

lemma parse_upstream_endpoint_text_example:
  "parse_upstream_endpoint ''https://[::1]:8443'' = \<lparr>pu_scheme = ''https'', pu_host = ''[::1]'', pu_port = 8443\<rparr>"
proof -
  have "\<exists>v6. ''[::1]'' = CHR ''['' # v6 @ '']'' \<and> CHR '']'' \<notin> set v6"
    by (rule exI [of _ "''::1''"]) simp
  then have "host_text ''[::1]''"
    by (simp add: host_text_def)
  from parse_upstream_endpoint_text [OF this, of 8443] show ?thesis
    by (simp add: show_word_def show_nat.simps digit_char_def)
qed

end
