(* ===== verification/Router.thy ===== *)
theory Router
  imports Proxy_Config
begin

text \<open>
  The routing table of src/src/router.rs: routes and edge policies by host, the choice of a
  route for a request, upstream addresses, and the table built from Kubernetes Ingress
  objects.  The \<^verbatim>\<open>url\<close> crate is the parameter \<^verbatim>\<open>url_parse\<close>, which gives the parts
  the code reads of a parsed URL.  The Kubernetes objects are records with the fields that are
  read.  Hash maps are association lists in an arbitrary traversal order.
\<close>

section \<open>Routes\<close>

datatype PathMatchType = Exact | Prefix | ImplementationSpecific

record Backend =
  be_address :: string
  be_port :: u16
  be_use_tls :: bool

datatype Middleware =
    StripPrefix (mw_prefix: string)
  | RequestHeaders (mw_headers: "(string, string) hmap")
  | ResponseHeaders (mw_headers: "(string, string) hmap")

record Route =
  rt_path :: string
  rt_path_type :: PathMatchType
  rt_backend :: Backend
  rt_middlewares :: "Middleware list"
  rt_forward_client_ip :: bool
  rt_geoip :: GeoIpPolicy
  rt_security :: SecurityPolicy

record RouteTable =
  tb_routes :: "(string, Route list) hmap"
  tb_edge :: "(string, (string, EdgePolicy) hmap) hmap"
  tb_globals :: EdgeGlobals

definition route_table_default :: RouteTable where
  "route_table_default = \<lparr>tb_routes = [], tb_edge = [], tb_globals = edge_globals_default\<rparr>"

definition normalize_host :: "string \<Rightarrow> string" where
  "normalize_host host = to_ascii_lowercase (before CHR '':'' host)"

definition path_matches :: "PathMatchType \<Rightarrow> string \<Rightarrow> string \<Rightarrow> bool" where
  "path_matches path_type rule_path request_path =
     (case path_type of
        Exact \<Rightarrow> rule_path = request_path
      | Prefix \<Rightarrow>
          request_path = rule_path \<or>
          ends_with rule_path ''/'' \<and> starts_with request_path rule_path \<or>
          \<not> ends_with rule_path ''/'' \<and>
            (starts_with request_path (rule_path @ ''/'') \<or> request_path = rule_path)
      | ImplementationSpecific \<Rightarrow> starts_with request_path rule_path)"

fun find_route :: "Route list \<Rightarrow> string \<Rightarrow> Route option" where
  "find_route [] path = None"
| "find_route (route # routes) path =
     (if path_matches (rt_path_type route) (rt_path route) path then Some route else find_route routes path)"

definition wild_key :: "string \<Rightarrow> string \<Rightarrow> bool" where
  "wild_key key host \<longleftrightarrow> starts_with key ''*.'' \<and> wildcard_covers_host key host"

definition wild_score :: "string \<Rightarrow> nat" where
  "wild_score key = length (get_or key (strip_prefix ''*'' key))"

definition routes_for_host :: "RouteTable \<Rightarrow> string \<Rightarrow> Route list option" where
  "routes_for_host t raw =
     (let host = normalize_host raw in
      if host = [] then None
      else case map_of (tb_routes t) host of
          Some routes \<Rightarrow> Some routes
        | None \<Rightarrow>
            (case best_scan (\<lambda>key. wild_key key host) wild_score (tb_routes t) of
               Some (_, routes) \<Rightarrow> Some routes
             | None \<Rightarrow> map_of (tb_routes t) ''*''))"

definition match_route_entry :: "RouteTable \<Rightarrow> string \<Rightarrow> string \<Rightarrow> Route option" where
  "match_route_entry t host path = Option.bind (routes_for_host t host) (\<lambda>routes. find_route routes path)"

definition match_route :: "RouteTable \<Rightarrow> string \<Rightarrow> string \<Rightarrow> Backend option" where
  "match_route t host path = map_option rt_backend (match_route_entry t host path)"

definition has_host :: "RouteTable \<Rightarrow> string \<Rightarrow> bool" where
  "has_host t raw = (let host = normalize_host raw in host \<noteq> [] \<and> routes_for_host t host \<noteq> None)"

definition all_routes :: "RouteTable \<Rightarrow> (string \<times> Route) list" where
  "all_routes t = concat (map (\<lambda>(host, routes). map (Pair host) routes) (tb_routes t))"

definition route_count :: "RouteTable \<Rightarrow> nat" where
  "route_count t = sum_list (map (\<lambda>(_, routes). length routes) (tb_routes t))"

definition sort_routes :: "Route list \<Rightarrow> Route list" where
  "sort_routes routes = sort_key (\<lambda>r. - int (length (rt_path r))) routes"

definition from_routes :: "(string, Route list) hmap \<Rightarrow> RouteTable" where
  "from_routes by_host =
     \<lparr>tb_routes = map (\<lambda>(host, routes). (host, sort_routes routes)) by_host, tb_edge = [],
      tb_globals = edge_globals_default\<rparr>"

definition set_globals :: "EdgeGlobals \<Rightarrow> RouteTable \<Rightarrow> RouteTable" where
  "set_globals globals t = t\<lparr>tb_globals := globals\<rparr>"

definition insert_edge :: "string \<Rightarrow> string \<Rightarrow> EdgePolicy \<Rightarrow> RouteTable \<Rightarrow> RouteTable" where
  "insert_edge host path policy t =
     (let k = normalize_host host
      in t\<lparr>tb_edge := AList.update k (AList.update path policy (get_or [] (map_of (tb_edge t) k))) (tb_edge t)\<rparr>)"

definition matched_host_key :: "RouteTable \<Rightarrow> string \<Rightarrow> string" where
  "matched_host_key t raw =
     (let host = normalize_host raw in
      if map_of (tb_routes t) host \<noteq> None \<or> map_of (tb_edge t) host \<noteq> None then host
      else case best_scan (\<lambda>key. wild_key key host) length
          (map (\<lambda>k. (k, k)) (map fst (tb_routes t) @ map fst (tb_edge t))) of
        Some (_, key) \<Rightarrow> key
      | None \<Rightarrow> if map_of (tb_routes t) ''*'' \<noteq> None then ''*'' else host)"

definition edge_for :: "RouteTable \<Rightarrow> string \<Rightarrow> string \<Rightarrow> EdgePolicy" where
  "edge_for t host route_path =
     get_or edge_policy_default
       (Option.bind (map_of (tb_edge t) (matched_host_key t host)) (\<lambda>paths. map_of paths route_path))"

definition add_service :: "Route \<Rightarrow> string list \<Rightarrow> string list" where
  "add_service route out =
     (case strip_prefix ''consul:'' (be_address (rt_backend route)) of
        Some name \<Rightarrow> if name \<noteq> [] \<and> name \<notin> set out then out @ [name] else out
      | None \<Rightarrow> out)"

definition consul_services :: "RouteTable \<Rightarrow> string list" where
  "consul_services t = fold (\<lambda>(_, routes). fold add_service routes) (tb_routes t) []"

definition accepts_jwt_secret :: "RouteTable \<Rightarrow> string \<Rightarrow> bool" where
  "accepts_jwt_secret t secret \<longleftrightarrow>
     eg_jwt_secret (tb_globals t) = Some secret \<or>
     list_ex (\<lambda>(_, paths). list_ex (\<lambda>(_, policy). ep_auth policy = Some (Jwt secret)) paths) (tb_edge t)"

section \<open>Upstream addresses\<close>

record url =
  url_scheme :: string
  url_host_str :: "string option"
  url_port :: "u16 option"
  url_port_or_known_default :: "u16 option"
  url_path :: string

definition normalize_upstream_host :: "string \<Rightarrow> string" where
  "normalize_upstream_host host = (if eq_ignore_ascii_case host ''localhost'' then ''127.0.0.1'' else host)"

definition parse_backend_host_port :: "string \<Rightarrow> Backend option" where
  "parse_backend_host_port raw =
     (let without_path = before CHR ''/'' raw in
      case rsplit_once CHR '':'' without_path of
        Some (host, port_str) \<Rightarrow>
          (case parse_word port_str of
             Some port \<Rightarrow> Some \<lparr>be_address = normalize_upstream_host host @ '':'' @ show_word (port :: u16),
               be_port = port, be_use_tls = False\<rparr>
           | None \<Rightarrow> None)
      | None \<Rightarrow> Some \<lparr>be_address = normalize_upstream_host without_path @ '':80'', be_port = 80, be_use_tls = False\<rparr>)"

definition url_backend :: "url \<Rightarrow> Backend option" where
  "url_backend url =
     (if url_scheme url = ''file'' then
        (if url_path url = [] then None
         else Some \<lparr>be_address = ''file:'' @ url_path url, be_port = 0, be_use_tls = False\<rparr>)
      else if url_scheme url = ''consul'' then
        (let name = get_or (trim_matches (\<lambda>c. c = CHR ''/'') (url_path url))
               (filter_opt (\<lambda>s. s \<noteq> []) (url_host_str url)) in
         if name = [] then None
         else Some \<lparr>be_address = ''consul:'' @ name, be_port = 0, be_use_tls = False\<rparr>)
      else if url_scheme url = ''auto'' then
        map_option (\<lambda>h.
          let host = normalize_upstream_host h; port = get_or 443 (url_port url)
          in \<lparr>be_address = ''auto:'' @ host @ '':'' @ show_word port, be_port = port, be_use_tls = False\<rparr>)
          (url_host_str url)
      else
        map_option (\<lambda>h.
          let host = normalize_upstream_host h; use_tls = (url_scheme url = ''https'');
              default_port = (if use_tls then 443 else 80);
              port = get_or default_port (url_port_or_known_default url)
          in \<lparr>be_address = host @ '':'' @ show_word port, be_port = port, be_use_tls = use_tls\<rparr>)
          (url_host_str url))"

definition parse_upstream :: "(string \<Rightarrow> url option) \<Rightarrow> string \<Rightarrow> Backend option" where
  "parse_upstream url_parse raw =
     (let trimmed = trim (trim_end_matches CHR '';'' (trim raw)) in
      if trimmed = [] then None
      else case (if contains_str trimmed ''://'' then url_parse trimmed else None) of
          Some url \<Rightarrow> url_backend url
        | None \<Rightarrow> parse_backend_host_port trimmed)"

section \<open>The live router\<close>

record Router =
  ro_table :: RouteTable
  ro_http3 :: Http3Options

definition router_new :: Router where
  "router_new = \<lparr>ro_table = route_table_default, ro_http3 = http3_default\<rparr>"

definition replace_table :: "RouteTable \<Rightarrow> Router \<Rightarrow> Router" where
  "replace_table table r = r\<lparr>ro_table := table\<rparr>"

definition replace_http3 :: "Http3Options \<Rightarrow> Router \<Rightarrow> Router" where
  "replace_http3 http3 r = r\<lparr>ro_http3 := http3\<rparr>"

definition replace_all :: "RouteTable \<Rightarrow> Http3Options \<Rightarrow> Router \<Rightarrow> Router" where
  "replace_all table http3 r = replace_http3 http3 (replace_table table r)"

section \<open>Tables from Ingress objects\<close>

record ServiceBackend =
  sb_name :: string
  sb_port :: "i32 option option"

record HTTPIngressPath =
  hp_path :: "string option"
  hp_path_type :: string
  hp_backend :: "ServiceBackend option"

record IngressRule =
  ir_host :: "string option"
  ir_http :: "HTTPIngressPath list option"

record IngressSpec =
  is_default_backend :: "ServiceBackend option option"
  is_rules :: "IngressRule list option"
  is_ingress_class_name :: "string option"

record Ingress =
  in_namespace :: "string option"
  in_spec :: "IngressSpec option"

definition service_dns :: "string \<Rightarrow> string \<Rightarrow> u16 \<Rightarrow> string" where
  "service_dns name namespace port = name @ ''.'' @ namespace @ ''.svc.cluster.local:'' @ show_word port"

definition resolve_service_backend :: "ServiceBackend \<Rightarrow> string \<Rightarrow> Backend option" where
  "resolve_service_backend service namespace =
     (case sb_port service of
        Some (Some number) \<Rightarrow>
          Some \<lparr>be_address = service_dns (sb_name service) namespace (ucast number), be_port = ucast number, be_use_tls = False\<rparr>
      | _ \<Rightarrow> None)"

definition resolve_backend :: "ServiceBackend option \<Rightarrow> string \<Rightarrow> Backend option" where
  "resolve_backend backend namespace = Option.bind backend (\<lambda>service. resolve_service_backend service namespace)"

definition plain_route :: "string \<Rightarrow> PathMatchType \<Rightarrow> Backend \<Rightarrow> Route" where
  "plain_route path path_type backend =
     \<lparr>rt_path = path, rt_path_type = path_type, rt_backend = backend, rt_middlewares = [],
      rt_forward_client_ip = False, rt_geoip = geoip_default, rt_security = security_default\<rparr>"

definition collect_http_path :: "string \<Rightarrow> string \<Rightarrow> HTTPIngressPath \<Rightarrow> (string, Route list) hmap \<Rightarrow> (string, Route list) hmap" where
  "collect_http_path host namespace path by_host =
     (case resolve_backend (hp_backend path) namespace of
        None \<Rightarrow> by_host
      | Some backend \<Rightarrow>
          (let path_type = (if hp_path_type path = ''Exact'' then Exact
               else if hp_path_type path = ''ImplementationSpecific'' then ImplementationSpecific else Prefix)
           in hm_push host (plain_route (get_or ''/'' (hp_path path)) path_type backend) by_host))"

definition collect_http_paths :: "string \<Rightarrow> HTTPIngressPath list \<Rightarrow> string \<Rightarrow> (string, Route list) hmap \<Rightarrow> (string, Route list) hmap" where
  "collect_http_paths host paths namespace by_host = fold (collect_http_path host namespace) paths by_host"

definition add_rule :: "string \<Rightarrow> IngressRule \<Rightarrow> (string, Route list) hmap \<Rightarrow> (string, Route list) hmap" where
  "add_rule namespace rule by_host =
     (case ir_http rule of
        None \<Rightarrow> by_host
      | Some paths \<Rightarrow>
          collect_http_paths (get_or ''*'' (map_option normalize_host (ir_host rule))) paths namespace by_host)"

definition add_default_backend :: "string \<Rightarrow> IngressSpec \<Rightarrow> (string, Route list) hmap \<Rightarrow> (string, Route list) hmap" where
  "add_default_backend namespace spec by_host =
     (case Option.bind (is_default_backend spec) (\<lambda>b. resolve_backend b namespace) of
        Some backend \<Rightarrow> hm_push ''*'' (plain_route ''/'' Prefix backend) by_host
      | None \<Rightarrow> by_host)"

definition add_ingress_to_table :: "Ingress \<Rightarrow> (string, Route list) hmap \<Rightarrow> (string, Route list) hmap" where
  "add_ingress_to_table ingress by_host =
     (let namespace = get_or ''default'' (in_namespace ingress) in
      case in_spec ingress of
        None \<Rightarrow> by_host
      | Some spec \<Rightarrow> fold (add_rule namespace) (get_or [] (is_rules spec)) (add_default_backend namespace spec by_host))"

definition build_route_table_from_ingresses :: "Ingress list \<Rightarrow> RouteTable" where
  "build_route_table_from_ingresses ingresses =
     route_table_default\<lparr>tb_routes :=
       map (\<lambda>(host, routes). (host, sort_routes routes)) (fold add_ingress_to_table ingresses [])\<rparr>"

definition ingress_matches_class :: "Ingress \<Rightarrow> string option \<Rightarrow> bool" where
  "ingress_matches_class ingress cls =
     (case cls of
        None \<Rightarrow> True
      | Some expected \<Rightarrow> Option.bind (in_spec ingress) is_ingress_class_name = Some expected)"

lemmas router_defs [run] = route_table_default_def normalize_host_def path_matches_def wild_key_def wild_score_def
  routes_for_host_def match_route_entry_def match_route_def has_host_def sort_routes_def from_routes_def
  set_globals_def insert_edge_def matched_host_key_def edge_for_def normalize_upstream_host_def
  parse_backend_host_port_def url_backend_def parse_upstream_def service_dns_def resolve_service_backend_def
  resolve_backend_def plain_route_def collect_http_path_def collect_http_paths_def add_rule_def
  add_default_backend_def add_ingress_to_table_def build_route_table_from_ingresses_def

section \<open>Wildcard keys\<close>

definition trimmed_key :: "string \<Rightarrow> bool" where
  "trimmed_key k \<longleftrightarrow> trim k = k"

lemma wild_key_form:
  assumes "trimmed_key k"
  shows "wild_key k h \<longleftrightarrow> (\<exists>d l. k = CHR ''*'' # CHR ''.'' # d \<and> l \<noteq> [] \<and> CHR ''.'' \<notin> set l \<and>
     to_ascii_lowercase (trim h) = l @ CHR ''.'' # d)"
proof -
  have "wild_key k h \<longleftrightarrow> (\<exists>d. k = CHR ''*'' # CHR ''.'' # d \<and> wildcard_covers_host k h)"
    by (auto simp: wild_key_def starts_with_prefix prefix_def)
  also have "\<dots> \<longleftrightarrow> (\<exists>d l. k = CHR ''*'' # CHR ''.'' # d \<and> l \<noteq> [] \<and> CHR ''.'' \<notin> set l \<and>
     to_ascii_lowercase (trim h) = l @ CHR ''.'' # d)"
    using assms wildcard_covers_iff [of k] unfolding trimmed_key_def by (metis (no_types, lifting))
  finally show ?thesis .
qed

lemma wild_key_nonempty: "wild_key k h \<Longrightarrow> 0 < wild_score k \<and> 0 < length k"
  by (auto simp: wild_key_def wild_score_def starts_with_prefix prefix_def strip_prefix_def)

lemma wild_key_unique: "trimmed_key k \<Longrightarrow> trimmed_key k' \<Longrightarrow> wild_key k h \<Longrightarrow> wild_key k' h \<Longrightarrow> k = k'"
  using wildcard_covers_unique [of k _ k'] unfolding trimmed_key_def
  by (auto simp: wild_key_def starts_with_prefix prefix_def)

interpretation host_index: wildcard_index wild_key wild_score trimmed_key
  by unfold_locales (auto dest: wild_key_nonempty wild_key_unique)

interpretation edge_index: wildcard_index wild_key length trimmed_key
  by unfold_locales (auto dest: wild_key_nonempty wild_key_unique)

text \<open>The one wildcard that can serve a host: its first label replaced by a star.\<close>

definition parent_wildcard :: "string \<Rightarrow> string option" where
  "parent_wildcard h =
     (case split_once CHR ''.'' (to_ascii_lowercase (trim h)) of
        Some (l, d) \<Rightarrow> if l = [] then None else Some (''*.'' @ d)
      | None \<Rightarrow> None)"

lemma wild_key_parent: "trimmed_key k \<Longrightarrow> wild_key k h \<longleftrightarrow> parent_wildcard h = Some k"
proof -
  assume k: "trimmed_key k"
  have "wild_key k h \<longleftrightarrow> (\<exists>l d. split_once CHR ''.'' (to_ascii_lowercase (trim h)) = Some (l, d) \<and> l \<noteq> [] \<and> k = ''*.'' @ d)"
    unfolding wild_key_form [OF k] split_once_Some by auto
  also have "\<dots> \<longleftrightarrow> parent_wildcard h = Some k"
    by (cases "split_once CHR ''.'' (to_ascii_lowercase (trim h))") (auto simp: parent_wildcard_def split: if_splits)
  finally show ?thesis .
qed

definition wf_routes :: "(string, 'v) hmap \<Rightarrow> bool" where
  "wf_routes m \<longleftrightarrow> distinct (map fst m) \<and> list_all trimmed_key (map fst m)"

lemma wf_routesD: "wf_routes m \<Longrightarrow> k \<in> fst ` set m \<Longrightarrow> trimmed_key k"
  by (auto simp: wf_routes_def list_all_iff)

lemma scan_is_lookup:
  assumes "wf_routes m"
  shows "map_option snd (best_scan (\<lambda>k. wild_key k h) wild_score m) = Option.bind (parent_wildcard h) (map_of m)"
proof (cases "Option.bind (parent_wildcard h) (map_of m)")
  case None
  have "\<not> wild_key k h" if "k \<in> fst ` set m" for k
    using None that wild_key_parent [OF wf_routesD [OF assms that], of h] map_of_eq_None_iff [of m k]
    by (metis bind.bind_lunit)
  then have "best_scan (\<lambda>k. wild_key k h) wild_score m = None"
    by (simp add: host_index.scan_None)
  with None show ?thesis by simp
next
  case (Some v)
  then obtain k where k: "parent_wildcard h = Some k" "map_of m k = Some v"
    by (auto simp: bind_eq_Some_conv)
  have mem: "(k, v) \<in> set m"
    using k(2) by (rule map_of_SomeD)
  then have kin: "k \<in> fst ` set m"
    by (rule image_eqI [rotated]) simp
  have cov: "wild_key k h"
    using wild_key_parent [OF wf_routesD [OF assms kin]] k(1) by simp
  have "best_scan (\<lambda>k. wild_key k h) wild_score m = Some (wild_score k, v)"
  proof (rule host_index.scan_hit)
    show "\<forall>k' \<in> fst ` set m. wild_key k' h \<longrightarrow> wild_score k' \<le> wild_score k"
      using wild_key_unique [OF wf_routesD [OF assms] wf_routesD [OF assms kin] _ cov] by blast
  qed (use assms wf_routesD [OF assms] mem cov in \<open>auto simp: wf_routes_def\<close>)
  with Some show ?thesis by simp
qed

section \<open>Longest path first\<close>

lemma find_route_find: "find_route rs path = find (\<lambda>r. path_matches (rt_path_type r) (rt_path r) path) rs"
  by (induction rs) auto

lemma find_hd_filter: "find P xs = (case filter P xs of [] \<Rightarrow> None | x # _ \<Rightarrow> Some x)"
  by (induction xs) auto

lemma insort_key_hd:
  "(case insort_key f x ys of [] \<Rightarrow> None | z # _ \<Rightarrow> Some z) =
     (case ys of [] \<Rightarrow> Some x | y # _ \<Rightarrow> if f x \<le> f y then Some x else Some y)"
  by (cases ys) auto

lemma find_insort_key:
  "find P (insort_key f x (sort_key f xs)) =
     (if P x then case find P (sort_key f xs) of None \<Rightarrow> Some x | Some y \<Rightarrow> if f x \<le> f y then Some x else Some y
      else find P (sort_key f xs))"
proof -
  have "filter P (insort_key f x (sort_key f xs)) =
      (if P x then insort_key f x (filter P (sort_key f xs)) else filter P (sort_key f xs))"
    by (simp add: filter_insort filter_insort_triv)
  then show ?thesis
    by (simp add: find_hd_filter insort_key_hd split: list.split)
qed

lemma find_sort_key_least: "find P (sort_key f xs) = Some y \<Longrightarrow> q \<in> set xs \<Longrightarrow> P q \<Longrightarrow> f y \<le> f q"
proof (induction xs arbitrary: y)
  case (Cons x xs)
  show ?case
  proof (cases "find P (sort_key f xs)")
    case None
    then have "q = x"
      using Cons.prems by (auto simp: find_None_iff)
    then show ?thesis
      using Cons.prems None by (auto simp: find_insort_key)
  next
    case (Some z)
    show ?thesis
    proof (cases "q = x")
      case True
      then show ?thesis
        using Cons.prems Some by (auto simp: find_insort_key split: if_splits)
    next
      case False
      then have "f z \<le> f q"
        using Cons.IH [OF Some] Cons.prems by simp
      then show ?thesis
        using Cons.prems Some by (auto simp: find_insort_key split: if_splits)
    qed
  qed
qed simp

lemma find_sort_key_Some:
  "find P (sort_key f xs) = Some r \<Longrightarrow>
     \<exists>us vs. xs = us @ r # vs \<and> P r \<and> list_all (\<lambda>q. f r < f q) (filter P us) \<and> list_all (\<lambda>q. f r \<le> f q) (filter P vs)"
proof (induction xs)
  case (Cons x xs)
  show ?case
  proof (cases "find P (sort_key f xs) = Some r \<and> (P x \<longrightarrow> \<not> f x \<le> f r)")
    case True
    then obtain us vs where "xs = us @ r # vs" "P r" "list_all (\<lambda>q. f r < f q) (filter P us)"
      "list_all (\<lambda>q. f r \<le> f q) (filter P vs)"
      using Cons.IH by blast
    with True show ?thesis
      by (intro exI [of _ "x # us"] exI [of _ vs]) auto
  next
    case False
    then have x: "P x" "r = x"
      using Cons.prems by (auto simp: find_insort_key split: if_splits option.splits)
    have "f x \<le> f q" if "q \<in> set xs" "P q" for q
    proof (cases "find P (sort_key f xs)")
      case None
      then show ?thesis
        using that by (auto simp: find_None_iff)
    next
      case (Some y)
      then have "f x \<le> f y"
        using Cons.prems x by (auto simp: find_insort_key split: if_splits)
      also have "f y \<le> f q"
        using find_sort_key_least [OF Some that] .
      finally show ?thesis .
    qed
    with x show ?thesis
      by (intro exI [of _ "[]"] exI [of _ xs]) (auto simp: list_all_iff)
  qed
qed simp

section \<open>Path segments\<close>

abbreviation segments :: "string \<Rightarrow> string list" where
  "segments \<equiv> split_on (\<lambda>c. c = CHR ''/'')"

lemma join_append:
  "vs \<noteq> [] \<Longrightarrow> ws \<noteq> [] \<Longrightarrow> join sep (vs @ ws) = join sep vs @ sep @ join sep ws"
proof (induction vs rule: induct_list012)
  case (2 v)
  then show ?case by (cases ws) simp_all
qed simp_all

lemma segments_append: "segments (r @ CHR ''/'' # s) = segments r @ segments s"
  by (induction r) (auto split: list.splits)

lemma segments_inj: "segments r = segments s \<longleftrightarrow> r = s"
  by (metis join_split_on)

lemma strict_segments: "strict_prefix (segments r) (segments s) \<longleftrightarrow> starts_with s (r @ ''/'')"
proof
  assume "strict_prefix (segments r) (segments s)"
  then obtain w ws where "segments s = segments r @ (w # ws)"
    by (auto elim: strict_prefixE')
  then have "s = r @ ''/'' @ join ''/'' (w # ws)"
    by (metis join_split_on join_append split_on_not_Nil list.discI)
  then show "starts_with s (r @ ''/'')"
    by (simp add: starts_with_prefix)
next
  assume "starts_with s (r @ ''/'')"
  then obtain t where "s = r @ CHR ''/'' # t"
    by (auto simp: starts_with_prefix prefix_def)
  then show "strict_prefix (segments r) (segments s)"
    by (auto simp: segments_append strict_prefix_def)
qed

section \<open>Ingress tables\<close>

definition path_route :: "string \<Rightarrow> HTTPIngressPath \<Rightarrow> Route option" where
  "path_route namespace path =
     map_option (plain_route (get_or ''/'' (hp_path path))
         (if hp_path_type path = ''Exact'' then Exact
          else if hp_path_type path = ''ImplementationSpecific'' then ImplementationSpecific else Prefix))
       (resolve_backend (hp_backend path) namespace)"

definition rule_routes :: "string \<Rightarrow> string \<Rightarrow> IngressRule \<Rightarrow> Route list" where
  "rule_routes namespace host rule =
     (if get_or ''*'' (map_option normalize_host (ir_host rule)) = host
      then List.map_filter (path_route namespace) (get_or [] (ir_http rule)) else [])"

definition default_routes :: "string \<Rightarrow> string \<Rightarrow> IngressSpec \<Rightarrow> Route list" where
  "default_routes namespace host spec =
     (case Option.bind (is_default_backend spec) (\<lambda>b. resolve_backend b namespace) of
        Some backend \<Rightarrow> if host = ''*'' then [plain_route ''/'' Prefix backend] else []
      | None \<Rightarrow> [])"

definition ingress_routes :: "string \<Rightarrow> Ingress \<Rightarrow> Route list" where
  "ingress_routes host ingress =
     (let namespace = get_or ''default'' (in_namespace ingress) in
      case in_spec ingress of
        None \<Rightarrow> []
      | Some spec \<Rightarrow> default_routes namespace host spec @ concat (map (rule_routes namespace host) (get_or [] (is_rules spec))))"

text \<open>The routes of a host in the map under construction; a host is present iff it has a route.\<close>

definition routes_at :: "string \<Rightarrow> (string, Route list) hmap \<Rightarrow> Route list" where
  "routes_at host m = get_or [] (map_of m host)"

definition no_empty :: "(string, 'v list) hmap \<Rightarrow> bool" where
  "no_empty m \<longleftrightarrow> (\<forall>k. map_of m k \<noteq> Some [])"

lemma routes_at_push: "routes_at h (hm_push k r m) = routes_at h m @ (if h = k then [r] else [])"
  by (simp add: routes_at_def hm_push_def map_of_hm_extend)

lemma no_empty_push: "no_empty m \<Longrightarrow> no_empty (hm_push k r m)"
  by (simp add: no_empty_def hm_push_def map_of_hm_extend)

lemma collect_http_path_at:
  "routes_at h (collect_http_path host ns path m) =
     routes_at h m @ (if host = h then List.map_filter (path_route ns) [path] else [])"
  by (simp add: collect_http_path_def path_route_def routes_at_push List.map_filter_simps Let_def split: option.split)

lemma collect_http_paths_at:
  "routes_at h (collect_http_paths host paths ns m) =
     routes_at h m @ (if host = h then List.map_filter (path_route ns) paths else [])"
proof (induction paths arbitrary: m)
  case (Cons p paths)
  then show ?case
    by (simp add: collect_http_paths_def collect_http_path_at List.map_filter_simps split: option.split)
qed (simp add: collect_http_paths_def List.map_filter_simps)

lemma collect_http_paths_no_empty: "no_empty m \<Longrightarrow> no_empty (collect_http_paths host paths ns m)"
  unfolding collect_http_paths_def
  by (induction paths arbitrary: m) (auto simp: collect_http_path_def Let_def no_empty_push split: option.split)

lemma add_rule_at: "routes_at h (add_rule ns rule m) = routes_at h m @ rule_routes ns h rule"
  by (simp add: add_rule_def rule_routes_def collect_http_paths_at List.map_filter_simps split: option.split)

lemma add_rules_at: "routes_at h (fold (add_rule ns) rules m) = routes_at h m @ concat (map (rule_routes ns h) rules)"
  by (induction rules arbitrary: m) (simp_all add: add_rule_at)

lemma add_default_at: "routes_at h (add_default_backend ns spec m) = routes_at h m @ default_routes ns h spec"
  by (simp add: add_default_backend_def default_routes_def routes_at_push split: option.split)

lemma add_ingress_at: "routes_at h (add_ingress_to_table ing m) = routes_at h m @ ingress_routes h ing"
  by (simp add: add_ingress_to_table_def ingress_routes_def add_rules_at add_default_at Let_def split: option.split)

lemma add_rules_no_empty: "no_empty m \<Longrightarrow> no_empty (fold (add_rule ns) rules m)"
  by (induction rules arbitrary: m) (auto simp: add_rule_def collect_http_paths_no_empty split: option.split)

lemma add_ingress_no_empty: "no_empty m \<Longrightarrow> no_empty (add_ingress_to_table ing m)"
  by (simp add: add_ingress_to_table_def add_default_backend_def Let_def add_rules_no_empty no_empty_push split: option.split)

lemma add_ingresses_at:
  "routes_at h (fold add_ingress_to_table ings m) = routes_at h m @ concat (map (ingress_routes h) ings)"
  by (induction ings arbitrary: m) (simp_all add: add_ingress_at)

lemma add_ingresses_no_empty: "no_empty m \<Longrightarrow> no_empty (fold add_ingress_to_table ings m)"
  by (induction ings arbitrary: m) (simp_all add: add_ingress_no_empty)

lemma map_of_no_empty: "no_empty m \<Longrightarrow> map_of m h = (if routes_at h m = [] then None else Some (routes_at h m))"
  by (cases "map_of m h") (auto simp: no_empty_def routes_at_def)

lemma map_of_map_values: "map_of (map (\<lambda>(k, v). (k, f v)) m) h = map_option f (map_of m h)"
  by (induction m) auto

section \<open>Properties\<close>

text \<open>C17: Choosing the routes of a host needs no search: on a table whose keys are distinct and
  trimmed, the scan over all wildcard patterns gives exactly the entry of the host itself, else
  the entry of the wildcard obtained by replacing the first label with a star, else the
  catch-all entry.  In particular the answer does not depend on the order in which the hash map
  is traversed.\<close>
theorem routes_for_host_lookup:
  assumes "wf_routes (tb_routes t)"
  shows "routes_for_host t host =
    (let h = normalize_host host in
     if h = [] then None
     else or_else (map_of (tb_routes t) h)
       (or_else (Option.bind (parent_wildcard h) (map_of (tb_routes t))) (map_of (tb_routes t) ''*'')))"
  using scan_is_lookup [OF assms, of "normalize_host host", symmetric]
  by (simp add: routes_for_host_def Let_def or_else_def split: option.split)

theorem routes_for_host_lookup_witness:
  "routes_for_host \<lparr>tb_routes = [(''*'', []), (''*.b.c'', [plain_route ''/'' Prefix \<lparr>be_address = ''h:80'', be_port = 80, be_use_tls = False\<rparr>])], tb_edge = [],
     tb_globals = edge_globals_default\<rparr> ''A.b.C:80'' = Some [plain_route ''/'' Prefix \<lparr>be_address = ''h:80'', be_port = 80, be_use_tls = False\<rparr>]"
  by (subst routes_for_host_lookup) (simp_all add: run wf_routes_def trimmed_key_def parent_wildcard_def)

text \<open>C18: In a table built by the proxy, a request is served by a matching route with the longest
  path, and among equally long ones by the first in configuration order: every matching route
  listed before it is shorter and every one after it is not longer.  There is no route exactly
  when none matches.\<close>
theorem longest_path_wins:
  "case find_route (sort_routes routes) path of
     Some r \<Rightarrow> \<exists>us vs. routes = us @ r # vs \<and> path_matches (rt_path_type r) (rt_path r) path \<and>
       list_all (\<lambda>q. length (rt_path q) < length (rt_path r)) (filter (\<lambda>q. path_matches (rt_path_type q) (rt_path q) path) us) \<and>
       list_all (\<lambda>q. length (rt_path q) \<le> length (rt_path r)) (filter (\<lambda>q. path_matches (rt_path_type q) (rt_path q) path) vs)
   | None \<Rightarrow> filter (\<lambda>q. path_matches (rt_path_type q) (rt_path q) path) routes = []"
proof (cases "find_route (sort_routes routes) path")
  case None
  then have "filter (\<lambda>q. path_matches (rt_path_type q) (rt_path q) path) routes = []"
    by (simp add: find_route_find sort_routes_def find_None_iff filter_empty_conv)
  with None show ?thesis by simp
next
  case (Some r)
  then show ?thesis
    using find_sort_key_Some [of _ "\<lambda>r. - int (length (rt_path r))" routes r]
    by (simp add: find_route_find sort_routes_def)
qed

text \<open>Prefix matching works on whole path segments: a rule path without a trailing slash matches
  exactly the requests whose segments start with its segments, and a rule path with a trailing
  slash exactly those that continue below it.\<close>
lemma path_prefix_segments:
  "path_matches Prefix rule request \<longleftrightarrow>
     (if ends_with rule ''/'' then strict_prefix (butlast (segments rule)) (segments request)
      else prefix (segments rule) (segments request))"
proof (cases "ends_with rule ''/''")
  case True
  then obtain r where r: "rule = r @ ''/''"
    by (auto simp: ends_with_suffix suffix_def)
  have "butlast (segments rule) = segments r"
    using segments_append [of r "[]"] r by simp
  then show ?thesis
    using True r by (auto simp: path_matches_def strict_segments starts_with_prefix)
next
  case False
  then show ?thesis
    by (auto simp: path_matches_def strict_segments [symmetric] segments_inj prefix_order.le_less)
qed

text \<open>C19: The table built from Ingress objects is the declared one: a host has exactly the routes that
  the rules for it declare, in the order of the objects, their default backends under the
  catch-all host, sorted by descending path length; hosts without a resolvable backend are
  absent.\<close>
theorem ingress_table_spec:
  "map_of (tb_routes (build_route_table_from_ingresses ingresses)) host =
     (let routes = concat (map (ingress_routes host) ingresses)
      in if routes = [] then None else Some (sort_routes routes))"
proof -
  have "map_of (fold add_ingress_to_table ingresses []) host =
      (let routes = concat (map (ingress_routes host) ingresses) in if routes = [] then None else Some routes)"
    using map_of_no_empty [OF add_ingresses_no_empty, of "[]" ingresses host] add_ingresses_at [of host ingresses "[]"]
    unfolding Let_def by (simp add: no_empty_def routes_at_def [of _ "[]"])
  then show ?thesis
    by (simp add: build_route_table_from_ingresses_def map_of_map_values Let_def)
qed

end
