(* ===== verification/Edge_Upstream.thy ===== *)
theory Edge_Upstream
  imports Edge_Cache Rust_Str "HOL-Library.Multiset"
begin

text \<open>
  Where a request goes, in src/src/edge/mod.rs: the static file chosen for a URL path, Consul
  endpoints with their round-robin counter, the memory of which upstreams speak TLS, and the
  cipher grade.  A file path is the root together with the components pushed onto it.  The
  Consul HTTP API (\<^verbatim>\<open>fetch\<close>, giving the listed instances or nothing) and the TCP probe
  (\<^verbatim>\<open>tcp\<close>) are parameters.  The round-robin counter is a 64-bit word and wraps.
\<close>

section \<open>Static files\<close>

datatype component = Normal string | CurDir | ParentDir

definition path_part :: "string \<Rightarrow> component list" where
  "path_part c = (if c = [] \<or> c = ''.'' then [] else if c = ''..'' then [ParentDir] else [Normal c])"

definition path_components :: "string \<Rightarrow> component list" where
  "path_components rel =
     (case split_on (\<lambda>c. c = CHR ''/'') rel of
        [] \<Rightarrow> []
      | c # cs \<Rightarrow> (if c = ''.'' then [CurDir] else path_part c) @ concat (map path_part cs))"

fun push_components :: "component list \<Rightarrow> string list option" where
  "push_components [] = Some []"
| "push_components (Normal s # cs) = map_option (\<lambda>p. s # p) (push_components cs)"
| "push_components (CurDir # cs) = push_components cs"
| "push_components (ParentDir # cs) = None"

definition safe_file :: "string \<Rightarrow> string \<Rightarrow> (string \<times> string list) option" where
  "safe_file root url_path =
     (let rel = trim_start_matches CHR ''/'' (before CHR ''?'' url_path) in
      if CHR 0x00 \<in> set rel then None
      else (case push_components (path_components rel) of
          None \<Rightarrow> None
        | Some p \<Rightarrow> Some (root, if p = [] then [''index.html''] else p)))"

definition path_extension :: "string \<Rightarrow> string option" where
  "path_extension name =
     (case rsplit_once CHR ''.'' name of
        Some (stem, ext) \<Rightarrow> if stem = [] \<or> name = ''..'' then None else Some ext
      | None \<Rightarrow> None)"

definition guess_mime :: "string \<Rightarrow> string" where
  "guess_mime path =
     (let e = to_ascii_lowercase (get_or [] (Option.bind (path_file_name path) path_extension)) in
      if e \<in> {''html'', ''htm''} then ''text/html; charset=utf-8''
      else if e = ''css'' then ''text/css; charset=utf-8''
      else if e = ''js'' then ''text/javascript; charset=utf-8''
      else if e = ''json'' then ''application/json''
      else if e = ''svg'' then ''image/svg+xml''
      else if e = ''png'' then ''image/png''
      else if e \<in> {''jpg'', ''jpeg''} then ''image/jpeg''
      else if e \<in> {''txt'', ''md''} then ''text/plain; charset=utf-8''
      else if e = ''wasm'' then ''application/wasm''
      else ''application/octet-stream'')"

section \<open>Consul\<close>

record ConsulState =
  cs_endpoints :: "(string, (string \<times> u16) list) hmap"
  cs_rr :: u64

definition consul_init :: ConsulState where
  "consul_init = \<lparr>cs_endpoints = [], cs_rr = 0\<rparr>"

definition consul_pick :: "string \<Rightarrow> ConsulState \<Rightarrow> (string \<times> u16) option \<times> ConsulState" where
  "consul_pick service st =
     (case map_of (cs_endpoints st) service of
        None \<Rightarrow> (None, st)
      | Some eps \<Rightarrow>
          if eps = [] then (None, st)
          else (Some (eps ! (unat (cs_rr st) mod length eps)), st\<lparr>cs_rr := cs_rr st + 1\<rparr>))"

definition consul_set :: "string \<Rightarrow> (string \<times> u16) list \<Rightarrow> ConsulState \<Rightarrow> ConsulState" where
  "consul_set service eps st = st\<lparr>cs_endpoints := AList.update service eps (cs_endpoints st)\<rparr>"

record consul_item =
  it_port :: "u64 option"
  it_service_addr :: "string option"
  it_node_addr :: "string option"

definition consul_url :: "ConsulConfig \<Rightarrow> string \<Rightarrow> string" where
  "consul_url cfg service =
     trim_end_matches CHR ''/'' (cc_address cfg) @ ''/v1/health/service/'' @ service @ ''?passing=true'' @
     (case filter_opt (\<lambda>s. s \<noteq> []) (cc_datacenter cfg) of Some dc \<Rightarrow> ''&dc='' @ dc | None \<Rightarrow> [])"

definition item_endpoint :: "consul_item \<Rightarrow> (string \<times> u16) option" where
  "item_endpoint item =
     (let port = ucast (get_or 0 (it_port item)) :: u16 in
      if port = 0 then None
      else map_option (\<lambda>a. (a, port))
        (or_else (filter_opt (\<lambda>s. s \<noteq> []) (it_service_addr item))
                 (filter_opt (\<lambda>s. s \<noteq> []) (it_node_addr item))))"

definition refresh_service :: "(string \<Rightarrow> string option \<Rightarrow> consul_item list option) \<Rightarrow> ConsulConfig \<Rightarrow> string \<Rightarrow>
    ConsulState \<Rightarrow> ConsulState" where
  "refresh_service fetch cfg service st =
     (case fetch (consul_url cfg service) (filter_opt (\<lambda>s. s \<noteq> []) (cc_token cfg)) of
        None \<Rightarrow> st
      | Some items \<Rightarrow>
          (let eps = List.map_filter item_endpoint items in
           if eps \<noteq> [] then consul_set service eps st else st))"

definition consul_refresh :: "(string \<Rightarrow> string option \<Rightarrow> consul_item list option) \<Rightarrow> ConsulConfig \<Rightarrow> string list \<Rightarrow>
    ConsulState \<Rightarrow> ConsulState" where
  "consul_refresh fetch cfg services st = fold (refresh_service fetch cfg) services st"

definition consul_poll :: "(string \<Rightarrow> string option \<Rightarrow> consul_item list option) \<Rightarrow> EdgeGlobals \<Rightarrow> string list \<Rightarrow>
    ConsulState \<Rightarrow> ConsulState" where
  "consul_poll fetch globals services st =
     (case eg_consul globals of Some cfg \<Rightarrow> consul_refresh fetch cfg services st | None \<Rightarrow> st)"

section \<open>Upstream TLS probe\<close>

definition HELLO :: bytes where
  "HELLO = [0x16, 0x03, 0x01, 0x00, 0x2d, 0x01, 0x00, 0x00, 0x29, 0x03, 0x03] @ replicate 34 0x00 @
           [0x02, 0x00, 0x2f, 0x01, 0x00]"

datatype tcp_outcome = NoAddress | ConnectFailed | WriteFailed | ReadByte u8 | ReadOther

definition tcp_looks_like_tls :: "(string \<Rightarrow> u16 \<Rightarrow> bytes \<Rightarrow> tcp_outcome) \<Rightarrow> string \<Rightarrow> u16 \<Rightarrow> bool" where
  "tcp_looks_like_tls tcp host port =
     (case tcp host port HELLO of
        NoAddress \<Rightarrow> port = 443
      | ConnectFailed \<Rightarrow> port = 443
      | WriteFailed \<Rightarrow> False
      | ReadByte b \<Rightarrow> b = 0x16
      | ReadOther \<Rightarrow> False)"

record TlsProbe =
  tp_use_tls :: bool
  tp_at :: nat

type_synonym probes = "(string, TlsProbe) hmap"

definition host_port :: "string \<Rightarrow> u16 \<Rightarrow> string" where
  "host_port host port = host @ '':'' @ show_word port"

definition probe_upstream_tls :: "(string \<Rightarrow> u16 \<Rightarrow> bytes \<Rightarrow> tcp_outcome) \<Rightarrow> nat \<Rightarrow> nat \<Rightarrow> string \<Rightarrow> u16 \<Rightarrow>
    probes \<Rightarrow> bool \<times> probes" where
  "probe_upstream_tls tcp now finish host port ps =
     (let key = host_port host port in
      case filter_opt (\<lambda>hit. now - tp_at hit < 300 * 1000000000) (map_of ps key) of
        Some hit \<Rightarrow> (tp_use_tls hit, ps)
      | None \<Rightarrow>
          (let use_tls = tcp_looks_like_tls tcp host port
           in (use_tls, AList.update key \<lparr>tp_use_tls = use_tls, tp_at = finish\<rparr> ps)))"

definition apply_tls_grade :: "('s \<Rightarrow> string \<Rightarrow> 's) \<Rightarrow> ('s \<Rightarrow> string \<Rightarrow> 's) \<Rightarrow> 's \<Rightarrow> TlsGrade \<Rightarrow> 's" where
  "apply_tls_grade set_cipher_list set_ciphersuites settings grade =
     (case grade of
        Medium \<Rightarrow> settings
      | High \<Rightarrow> set_ciphersuites
          (set_cipher_list settings (''ECDHE-ECDSA-AES128-GCM-SHA256:ECDHE-RSA-AES128-GCM-SHA256:'' @
            ''ECDHE-ECDSA-AES256-GCM-SHA384:ECDHE-RSA-AES256-GCM-SHA384:'' @
            ''ECDHE-ECDSA-CHACHA20-POLY1305:ECDHE-RSA-CHACHA20-POLY1305''))
          ''TLS_AES_128_GCM_SHA256:TLS_AES_256_GCM_SHA384:TLS_CHACHA20_POLY1305_SHA256''
      | Unsafe \<Rightarrow> set_cipher_list settings ''ALL:@SECLEVEL=0'')"

lemmas edge_upstream_defs [run] = path_part_def path_components_def safe_file_def path_extension_def
  guess_mime_def consul_init_def consul_pick_def consul_set_def consul_url_def item_endpoint_def
  refresh_service_def consul_refresh_def consul_poll_def HELLO_def tcp_looks_like_tls_def host_port_def
  probe_upstream_tls_def apply_tls_grade_def

section \<open>Static files stay below the root\<close>

lemma push_components_Some:
  "push_components cs = Some p \<longleftrightarrow>
     ParentDir \<notin> set cs \<and> p = List.map_filter (\<lambda>c. case c of Normal s \<Rightarrow> Some s | _ \<Rightarrow> None) cs"
  by (induction cs arbitrary: p rule: push_components.induct) (auto simp: List.map_filter_simps)

lemma push_components_set:
  "push_components cs = Some p \<Longrightarrow> s \<in> set p \<Longrightarrow> Normal s \<in> set cs"
  by (induction cs arbitrary: p rule: push_components.induct) auto

lemma push_components_None: "push_components cs = None \<longleftrightarrow> ParentDir \<in> set cs"
  by (induction cs rule: push_components.induct) auto

lemma path_part_dot: "path_part ''.'' = []"
  by (simp add: path_part_def)

lemma path_components_set:
  "set (path_components rel) =
     (\<Union>c \<in> set (split_on (\<lambda>c. c = CHR ''/'') rel). set (path_part c)) \<union>
     (if take 1 (split_on (\<lambda>c. c = CHR ''/'') rel) = [''.''] then {CurDir} else {})"
  by (cases "split_on (\<lambda>c. c = CHR ''/'') rel") (simp_all add: path_components_def path_part_dot)

lemma Normal_path_part: "Normal s \<in> set (path_part c) \<longleftrightarrow> s = c \<and> c \<notin> {[], ''.'', ''..''}"
  by (auto simp: path_part_def)

lemma Parent_path_part: "ParentDir \<in> set (path_part c) \<longleftrightarrow> c = ''..''"
  by (auto simp: path_part_def)

lemma path_components_Normal:
  assumes "Normal s \<in> set (path_components rel)"
  shows "s \<notin> {[], ''.'', ''..''} \<and> CHR ''/'' \<notin> set s \<and> set s \<subseteq> set rel"
proof -
  have s: "s \<in> set (split_on (\<lambda>c. c = CHR ''/'') rel)" and "s \<notin> {[], ''.'', ''..''}"
    using assms by (auto simp: path_components_set Normal_path_part split: if_splits)
  then show ?thesis
    using split_on_clean [OF s] split_on_subset [OF s] by blast
qed

lemma path_components_Parent:
  "ParentDir \<in> set (path_components rel) \<longleftrightarrow> ''..'' \<in> set (split_on (\<lambda>c. c = CHR ''/'') rel)"
  by (auto simp: path_components_set Parent_path_part)

section \<open>Round robin\<close>

fun pick_many :: "nat \<Rightarrow> string \<Rightarrow> ConsulState \<Rightarrow> (string \<times> u16) option list" where
  "pick_many 0 service st = []"
| "pick_many (Suc n) service st =
     fst (consul_pick service st) # pick_many n service (snd (consul_pick service st))"

lemma pick_many_nth:
  assumes "map_of (cs_endpoints st) service = Some eps" and "eps \<noteq> []" and "unat (cs_rr st) + n < 2 ^ 64"
  shows "pick_many n service st = map (\<lambda>i. Some (eps ! ((unat (cs_rr st) + i) mod length eps))) [0..<n]"
  using assms
proof (induction n arbitrary: st)
  case (Suc n)
  let ?st = "st\<lparr>cs_rr := cs_rr st + 1\<rparr>"
  have rr: "unat (cs_rr st + 1) = unat (cs_rr st) + 1"
    using Suc.prems(3) by (simp add: unat_word_ariths)
  have pick: "consul_pick service st = (Some (eps ! (unat (cs_rr st) mod length eps)), ?st)"
    using Suc.prems by (simp add: consul_pick_def)
  have "pick_many n service ?st = map (\<lambda>i. Some (eps ! ((unat (cs_rr st) + 1 + i) mod length eps))) [0..<n]"
    using Suc.IH [of ?st] Suc.prems rr by simp
  then show ?case
    by (simp add: pick upt_conv_Cons map_Suc_upt [symmetric] o_def del: upt_Suc)
qed simp

lemma mset_rotate_eq: "mset (rotate n xs) = mset xs"
proof (induction n)
  case (Suc n)
  then show ?case by (cases "rotate n xs") (simp_all add: rotate1_hd_tl)
qed simp

lemma rotated_perm:
  assumes "xs \<noteq> []"
  shows "mset (map (\<lambda>i. xs ! ((r + i) mod length xs)) [0..<length xs]) = mset xs"
proof -
  have "map (\<lambda>i. xs ! ((r + i) mod length xs)) [0..<length xs] = rotate r xs"
    using assms by (intro nth_equalityI) (simp_all add: nth_rotate)
  then show ?thesis by (metis mset_rotate_eq)
qed

section \<open>What the Consul table holds\<close>

definition consul_ok :: "ConsulState \<Rightarrow> bool" where
  "consul_ok st \<longleftrightarrow>
     (\<forall>service eps. map_of (cs_endpoints st) service = Some eps \<longrightarrow>
        eps \<noteq> [] \<and> (\<forall>(addr, port) \<in> set eps. addr \<noteq> [] \<and> port \<noteq> 0))"

lemma item_endpoint_ok: "item_endpoint item = Some (addr, port) \<Longrightarrow> addr \<noteq> [] \<and> port \<noteq> 0"
  by (auto simp: item_endpoint_def Let_def or_else_def filter_opt_def split: if_splits option.splits)

lemma refresh_service_ok: "consul_ok st \<Longrightarrow> consul_ok (refresh_service fetch cfg service st)"
  by (auto simp: consul_ok_def refresh_service_def consul_set_def Let_def update_conv' map_filter_def
      dest: item_endpoint_ok split: option.splits if_splits)

lemma refresh_service_dom:
  "dom (map_of (cs_endpoints st)) \<subseteq> dom (map_of (cs_endpoints (refresh_service fetch cfg service st)))"
  by (auto simp: refresh_service_def consul_set_def Let_def update_conv' split: option.splits)

lemma consul_refresh_ok:
  "consul_ok st \<Longrightarrow> consul_ok (consul_refresh fetch cfg services st)"
  by (induction services arbitrary: st) (simp_all add: consul_refresh_def refresh_service_ok)

lemma consul_refresh_dom:
  "dom (map_of (cs_endpoints st)) \<subseteq> dom (map_of (cs_endpoints (consul_refresh fetch cfg services st)))"
proof (induction services arbitrary: st)
  case (Cons a services)
  then show ?case
    using subset_trans [OF refresh_service_dom Cons.IH] by (simp add: consul_refresh_def)
qed (simp add: consul_refresh_def)

datatype consul_op =
  Poll "string \<Rightarrow> string option \<Rightarrow> consul_item list option" EdgeGlobals "string list"
| Pick string

fun consul_step :: "ConsulState \<Rightarrow> consul_op \<Rightarrow> ConsulState" where
  "consul_step st (Poll fetch globals services) = consul_poll fetch globals services st"
| "consul_step st (Pick service) = snd (consul_pick service st)"

lemma consul_pick_ok: "consul_ok st \<Longrightarrow> consul_ok (snd (consul_pick service st))"
  by (simp add: consul_pick_def consul_ok_def split: option.split)

lemma consul_step_mono:
  "dom (map_of (cs_endpoints st)) \<subseteq> dom (map_of (cs_endpoints (consul_step st op)))"
proof (cases op)
  case Poll
  then show ?thesis
    using consul_refresh_dom by (auto simp: consul_poll_def split: option.split)
qed (auto simp: consul_pick_def split: option.split)

interpretation consul_sys: invariant_system consul_step consul_ok
proof
  fix st op
  assume "consul_ok st"
  then show "consul_ok (consul_step st op)"
    by (cases op) (simp_all add: consul_poll_def consul_refresh_ok consul_pick_ok split: option.split)
qed

lemma consul_init_ok: "consul_ok consul_init"
  by (simp add: consul_ok_def consul_init_def)

lemma consul_run_mono:
  "dom (map_of (cs_endpoints st)) \<subseteq> dom (map_of (cs_endpoints (foldl consul_step st ops)))"
proof (induction ops arbitrary: st)
  case (Cons a ops)
  then show ?case
    using subset_trans [OF consul_step_mono Cons.IH] by simp
qed simp

section \<open>Properties\<close>

text \<open>C15: A static file path is the configured root followed by at least one component, and no
  component is empty, a dot name, or contains a slash or a NUL byte; a request is refused exactly
  when its path (query removed) contains a NUL byte or a dot-dot segment.\<close>
theorem safe_file_confined:
  fixes root url_path
  defines "rel \<equiv> trim_start_matches CHR ''/'' (before CHR ''?'' url_path)"
  shows "(safe_file root url_path = None \<longleftrightarrow> CHR 0x00 \<in> set rel \<or> ''..'' \<in> set (split_on (\<lambda>c. c = CHR ''/'') rel)) \<and>
    (case safe_file root url_path of
      Some (r, parts) \<Rightarrow> r = root \<and> parts \<noteq> [] \<and>
        list_all (\<lambda>s. s \<notin> {[], ''.'', ''..''} \<and> CHR ''/'' \<notin> set s \<and> CHR 0x00 \<notin> set s) parts
    | None \<Rightarrow> True)"
proof (cases "CHR 0x00 \<in> set rel \<or> push_components (path_components rel) = None")
  case True
  then show ?thesis
    using push_components_None [of "path_components rel"]
    by (auto simp: safe_file_def rel_def [symmetric] path_components_Parent)
next
  case False
  then obtain p where p: "push_components (path_components rel) = Some p" and nul: "CHR 0x00 \<notin> set rel"
    by auto
  have "s \<notin> {[], ''.'', ''..''} \<and> CHR ''/'' \<notin> set s \<and> CHR 0x00 \<notin> set s" if "s \<in> set p" for s
    using path_components_Normal [OF push_components_set [OF p that]] nul by blast
  then have "list_all (\<lambda>s. s \<notin> {[], ''.'', ''..''} \<and> CHR ''/'' \<notin> set s \<and> CHR 0x00 \<notin> set s) p"
    by (simp add: list_all_iff)
  moreover have "''..'' \<notin> set (split_on (\<lambda>c. c = CHR ''/'') rel)"
    using p push_components_None [of "path_components rel"] by (simp add: path_components_Parent)
  ultimately show ?thesis
    using nul by (simp add: safe_file_def rel_def [symmetric] p)
qed

text \<open>C38: Round robin is fair: while the counter does not wrap, as many consecutive picks as a
  service has endpoints return every endpoint exactly as often as it is registered.\<close>
theorem consul_round_robin:
  assumes "map_of (cs_endpoints st) service = Some eps" and "eps \<noteq> []"
    and "unat (cs_rr st) + length eps < 2 ^ 64"
  shows "mset (pick_many (length eps) service st) = mset (map Some eps)"
proof -
  have picks: "pick_many (length eps) service st =
      map Some (map (\<lambda>i. eps ! ((unat (cs_rr st) + i) mod length eps)) [0..<length eps])"
    using pick_many_nth [OF assms] by (simp add: o_def)
  have same: "mset (map Some xs) = mset (map Some eps)" if "mset xs = mset eps" for xs
    using that by simp
  show ?thesis
    unfolding picks by (rule same [OF rotated_perm [OF assms(2)]])
qed

theorem consul_round_robin_witness:
  "mset (pick_many (Suc (Suc 0)) ''s'' \<lparr>cs_endpoints = [(''s'', [(''a'', 80), (''b'', 81)])], cs_rr = 7\<rparr>) =
     {#Some (''a'', 80), Some (''b'', 81)#}"
  using consul_round_robin [of "\<lparr>cs_endpoints = [(''s'', [(''a'', 80), (''b'', 81)])], cs_rr = 7\<rparr>"
      "''s''" "[(''a'', 80), (''b'', 81)]"]
  by simp


end
