(* ===== verification/Forward_Plan.thy ===== *)
theory Forward_Plan
  imports Router Edge_Upstream
begin

text \<open>
  How a request becomes a forward plan, from src/src/proxy/forward.rs: the middlewares of the
  matched route, the path sent upstream, and the peer to connect to (a file root, a Consul
  endpoint, a probed address or a fixed one).  The Consul table and the TLS probe memory are
  passed through; errors are the status the proxy answers with.
\<close>

section \<open>Plans\<close>

record MiddlewareAction =
  ma_strip_prefix :: "string option"
  ma_request_headers :: "(string \<times> string) list"
  ma_response_headers :: "(string \<times> string) list"
  ma_forward_client_ip :: bool
  ma_geoip :: GeoIpPolicy
  ma_security :: SecurityPolicy
  ma_edge :: EdgePolicy
  ma_file_root :: "string option"

definition middleware_action_default :: MiddlewareAction where
  "middleware_action_default = \<lparr>ma_strip_prefix = None, ma_request_headers = [], ma_response_headers = [],
     ma_forward_client_ip = True, ma_geoip = geoip_default, ma_security = security_default,
     ma_edge = edge_policy_default, ma_file_root = None\<rparr>"

record ForwardPlan =
  fp_peer_host :: string
  fp_peer_port :: u16
  fp_upstream_url :: string
  fp_use_tls :: bool
  fp_middleware :: MiddlewareAction

datatype forward_error = HTTPStatus u16 | InternalError

record forward_state =
  fs_consul :: ConsulState
  fs_probes :: probes

fun apply_middleware :: "Middleware \<Rightarrow> MiddlewareAction \<Rightarrow> MiddlewareAction" where
  "apply_middleware (StripPrefix pre) action = action\<lparr>ma_strip_prefix := Some pre\<rparr>"
| "apply_middleware (RequestHeaders headers) action =
     action\<lparr>ma_request_headers := ma_request_headers action @ headers\<rparr>"
| "apply_middleware (ResponseHeaders headers) action =
     action\<lparr>ma_response_headers := ma_response_headers action @ headers\<rparr>"

definition apply_middlewares :: "Middleware list \<Rightarrow> MiddlewareAction" where
  "apply_middlewares middlewares = fold apply_middleware middlewares middleware_action_default"

definition strip_path_prefix :: "string \<Rightarrow> string \<Rightarrow> string" where
  "strip_path_prefix path_and_query pre =
     (let (path, query) = (case split_once CHR ''?'' path_and_query of
            Some (p, q) \<Rightarrow> (p, Some q) | None \<Rightarrow> (path_and_query, None));
          stripped = get_or path (strip_prefix pre path);
          new_path = (if stripped = [] then ''/'' else stripped)
      in case query of Some q \<Rightarrow> new_path @ ''?'' @ q | None \<Rightarrow> new_path)"

definition build_upstream_url :: "Backend \<Rightarrow> string \<Rightarrow> string" where
  "build_upstream_url backend path_and_query =
     (if be_use_tls backend then ''https'' else ''http'') @ ''://'' @ be_address backend @ path_and_query"

definition parse_backend_peer :: "string \<Rightarrow> u16 \<Rightarrow> forward_error + string \<times> u16" where
  "parse_backend_peer address fallback_port =
     (case rsplit_once CHR '':'' address of
        Some (host, port_str) \<Rightarrow>
          (case parse_word port_str of Some port \<Rightarrow> Inr (host, port) | None \<Rightarrow> Inl InternalError)
      | None \<Rightarrow> Inr (address, fallback_port))"

definition route_middleware :: "RouteTable \<Rightarrow> string \<Rightarrow> Route \<Rightarrow> MiddlewareAction" where
  "route_middleware table host route =
     (apply_middlewares (rt_middlewares route))\<lparr>ma_forward_client_ip := rt_forward_client_ip route,
       ma_geoip := rt_geoip route, ma_security := rt_security route, ma_edge := edge_for table host (rt_path route)\<rparr>"

definition upstream_path :: "MiddlewareAction \<Rightarrow> string \<Rightarrow> string" where
  "upstream_path middleware path_and_query =
     (case ma_strip_prefix middleware of
        Some pre \<Rightarrow> strip_path_prefix path_and_query pre
      | None \<Rightarrow> path_and_query)"

definition file_plan :: "string \<Rightarrow> string \<Rightarrow> MiddlewareAction \<Rightarrow> ForwardPlan" where
  "file_plan root path middleware =
     \<lparr>fp_peer_host = ''127.0.0.1'', fp_peer_port = 9, fp_upstream_url = ''file:'' @ root @ path, fp_use_tls = False,
      fp_middleware = middleware\<lparr>ma_file_root := Some root\<rparr>\<rparr>"

definition peer_plan :: "Backend \<Rightarrow> string \<Rightarrow> u16 \<Rightarrow> string \<Rightarrow> MiddlewareAction \<Rightarrow> ForwardPlan" where
  "peer_plan backend peer_host peer_port path middleware =
     \<lparr>fp_peer_host = peer_host, fp_peer_port = peer_port, fp_upstream_url = build_upstream_url backend path,
      fp_use_tls = be_use_tls backend, fp_middleware = middleware\<rparr>"

definition route_plan :: "(string \<Rightarrow> u16 \<Rightarrow> bytes \<Rightarrow> tcp_outcome) \<Rightarrow> nat \<Rightarrow> nat \<Rightarrow> Backend \<Rightarrow> MiddlewareAction \<Rightarrow> string \<Rightarrow>
    forward_state \<Rightarrow> (forward_error + ForwardPlan) \<times> forward_state" where
  "route_plan tcp now finish backend middleware path st =
     (case strip_prefix ''file:'' (be_address backend) of
        Some root \<Rightarrow> (Inr (file_plan root path middleware), st)
      | None \<Rightarrow>
     (case strip_prefix ''consul:'' (be_address backend) of
        Some service \<Rightarrow>
          (case consul_pick service (fs_consul st) of
             (None, c) \<Rightarrow> (Inl (HTTPStatus 503), st\<lparr>fs_consul := c\<rparr>)
           | (Some (peer_host, peer_port), c) \<Rightarrow>
               (let b = backend\<lparr>be_address := host_port peer_host peer_port, be_port := peer_port\<rparr>
                in (Inr (peer_plan b peer_host peer_port path middleware), st\<lparr>fs_consul := c\<rparr>)))
      | None \<Rightarrow>
     (case strip_prefix ''auto:'' (be_address backend) of
        Some rest \<Rightarrow>
          (case parse_backend_peer rest (be_port backend) of
             Inl e \<Rightarrow> (Inl e, st)
           | Inr (peer_host, peer_port) \<Rightarrow>
               (let (use_tls, ps) = probe_upstream_tls tcp now finish peer_host peer_port (fs_probes st);
                    b = backend\<lparr>be_address := host_port peer_host peer_port, be_port := peer_port, be_use_tls := use_tls\<rparr>
                in (Inr (peer_plan b peer_host peer_port path middleware), st\<lparr>fs_probes := ps\<rparr>)))
      | None \<Rightarrow>
          (case parse_backend_peer (be_address backend) (be_port backend) of
             Inl e \<Rightarrow> (Inl e, st)
           | Inr (peer_host, peer_port) \<Rightarrow> (Inr (peer_plan backend peer_host peer_port path middleware), st)))))"

definition resolve_forward :: "(string \<Rightarrow> u16 \<Rightarrow> bytes \<Rightarrow> tcp_outcome) \<Rightarrow> nat \<Rightarrow> nat \<Rightarrow> RouteTable \<Rightarrow> string \<Rightarrow> string \<Rightarrow>
    forward_state \<Rightarrow> (forward_error + ForwardPlan) \<times> forward_state" where
  "resolve_forward tcp now finish table host path_and_query st =
     (let path = before CHR ''?'' path_and_query in
      case match_route_entry table host path of
        None \<Rightarrow> (Inl (HTTPStatus 404), st)
      | Some route \<Rightarrow>
          (let middleware = route_middleware table host route
           in route_plan tcp now finish (rt_backend route) middleware (upstream_path middleware path_and_query) st))"

lemmas forward_plan_defs [run] = middleware_action_default_def apply_middlewares_def strip_path_prefix_def
  build_upstream_url_def parse_backend_peer_def route_middleware_def upstream_path_def file_plan_def peer_plan_def
  route_plan_def resolve_forward_def

section \<open>What a plan carries\<close>

lemma apply_middleware_policies [simp]:
  "ma_geoip (apply_middleware m a) = ma_geoip a" "ma_security (apply_middleware m a) = ma_security a"
  "ma_edge (apply_middleware m a) = ma_edge a" "ma_file_root (apply_middleware m a) = ma_file_root a"
  by (cases m; simp)+

lemma route_middleware_policies [simp]:
  "ma_geoip (route_middleware t h r) = rt_geoip r" "ma_security (route_middleware t h r) = rt_security r"
  "ma_edge (route_middleware t h r) = edge_for t h (rt_path r)"
  by (simp_all add: route_middleware_def)

definition same_policies :: "MiddlewareAction \<Rightarrow> MiddlewareAction \<Rightarrow> bool" where
  "same_policies a b \<longleftrightarrow> ma_geoip a = ma_geoip b \<and> ma_security a = ma_security b \<and> ma_edge a = ma_edge b \<and>
     ma_forward_client_ip a = ma_forward_client_ip b"

lemma plan_policies:
  "same_policies (fp_middleware (file_plan root path m)) m"
  "same_policies (fp_middleware (peer_plan b h p path m)) m"
  by (simp_all add: same_policies_def file_plan_def peer_plan_def)

lemma route_plan_policies:
  assumes "route_plan tcp now finish backend m path st = (Inr plan, st')"
  shows "same_policies (fp_middleware plan) m"
  using assms plan_policies unfolding route_plan_def Let_def
  by (auto split: option.splits sum.splits prod.splits)

lemma resolve_forward_route:
  assumes "resolve_forward tcp now finish table host paq st = (Inr plan, st')"
  obtains route where "match_route_entry table host (before CHR ''?'' paq) = Some route"
    and "ma_geoip (fp_middleware plan) = rt_geoip route"
    and "ma_security (fp_middleware plan) = rt_security route"
    and "ma_edge (fp_middleware plan) = edge_for table host (rt_path route)"
proof -
  obtain route where r: "match_route_entry table host (before CHR ''?'' paq) = Some route"
    using assms by (auto simp: resolve_forward_def split: option.splits)
  then have "same_policies (fp_middleware plan) (route_middleware table host route)"
    using assms by (auto simp: resolve_forward_def Let_def intro: route_plan_policies)
  then show thesis
    using that [OF r] by (simp add: same_policies_def)
qed

end
