(* ===== verification/Cert_Store.thy ===== *)
theory Cert_Store
  imports Router
begin

text \<open>
  The certificate store of src/src/tls/store.rs and the choice of a certificate for a TLS
  handshake (src/src/tls/sni.rs for OpenSSL, src/src/tls/resolver.rs for rustls).  The checks of
  certificate files and PEM data, and writing to disk, are parameters that say whether they
  succeed.  The lock around the store is the explicit state.
\<close>

section \<open>Operations\<close>

record CertPaths =
  cp_cert :: string
  cp_key :: string

datatype StoredCert = FileCert CertPaths | Pem bytes bytes

record CertStore =
  st_by_host :: "(string, StoredCert) hmap"
  st_default :: "StoredCert option"
  st_expected :: "string list"

definition cert_store_new :: CertStore where
  "cert_store_new = \<lparr>st_by_host = [], st_default = None, st_expected = []\<rparr>"

definition read_pem :: "(string \<Rightarrow> bytes option) \<Rightarrow> StoredCert \<Rightarrow> (bytes \<times> bytes) option" where
  "read_pem fs_read c =
     (case c of
        FileCert paths \<Rightarrow>
          Option.bind (fs_read (cp_cert paths)) (\<lambda>cert. map_option (Pair cert) (fs_read (cp_key paths)))
      | Pem cert key \<Rightarrow> Some (cert, key))"

definition store_is_empty :: "CertStore \<Rightarrow> bool" where
  "store_is_empty st \<longleftrightarrow> st_by_host st = []"

definition host_count :: "CertStore \<Rightarrow> nat" where
  "host_count st = length (st_by_host st)"

definition set_global_fallback :: "(string \<Rightarrow> string \<Rightarrow> bool) \<Rightarrow> string \<Rightarrow> string \<Rightarrow> CertStore \<Rightarrow> CertStore option" where
  "set_global_fallback valid_pair cert key st =
     (if \<not> valid_pair cert key then None
      else Some (if st_default st = None then st\<lparr>st_default := Some (FileCert \<lparr>cp_cert = cert, cp_key = key\<rparr>)\<rparr> else st))"

definition cert_normalize_host :: "string \<Rightarrow> string" where
  "cert_normalize_host host = to_ascii_lowercase (before CHR '':'' host)"

definition put_hosts :: "string list \<Rightarrow> StoredCert \<Rightarrow> (string, StoredCert) hmap \<Rightarrow> (string, StoredCert) hmap" where
  "put_hosts hosts c m = fold (\<lambda>host. AList.update (cert_normalize_host host) c) hosts m"

fun load_configs :: "(string \<Rightarrow> string \<Rightarrow> bool) \<Rightarrow> (string \<Rightarrow> string list \<Rightarrow> bool) \<Rightarrow> TlsConfig list \<Rightarrow>
    (string, StoredCert) hmap \<times> StoredCert option \<Rightarrow> ((string, StoredCert) hmap \<times> StoredCert option) option" where
  "load_configs valid_pair host_check [] acc = Some acc"
| "load_configs valid_pair host_check (entry # entries) (by_host, dflt) =
     (if tc_hosts entry = [] then load_configs valid_pair host_check entries (by_host, dflt)
      else case tc_source entry of
          File cert key \<Rightarrow>
            (if \<not> valid_pair cert key then None
             else if \<not> host_check cert (tc_hosts entry) then None
             else
               let c = FileCert \<lparr>cp_cert = cert, cp_key = key\<rparr>
               in load_configs valid_pair host_check entries
                    (put_hosts (tc_hosts entry) c by_host, or_else dflt (Some c)))
        | Acme _ _ _ _ _ \<Rightarrow> load_configs valid_pair host_check entries (by_host, dflt)
        | Kubernetes \<Rightarrow> load_configs valid_pair host_check entries (by_host, dflt))"

definition reload_from_configs :: "(string \<Rightarrow> string \<Rightarrow> bool) \<Rightarrow> (string \<Rightarrow> string list \<Rightarrow> bool) \<Rightarrow> TlsConfig list \<Rightarrow>
    CertStore \<Rightarrow> CertStore option" where
  "reload_from_configs valid_pair host_check configs st =
     map_option (\<lambda>(by_host, dflt).
         st\<lparr>st_by_host := by_host, st_default := (if dflt \<noteq> None then dflt else st_default st)\<rparr>)
       (load_configs valid_pair host_check configs ([], None))"

definition default_cert :: "((string, StoredCert) hmap \<Rightarrow> nat) \<Rightarrow> CertStore \<Rightarrow> StoredCert option" where
  "default_cert choice st =
     or_else (st_default st)
       (if st_by_host st = [] then None
        else Some (snd (st_by_host st ! (choice (st_by_host st) mod length (st_by_host st)))))"

definition default_paths :: "((string, StoredCert) hmap \<Rightarrow> nat) \<Rightarrow> CertStore \<Rightarrow> CertPaths option" where
  "default_paths choice st =
     (case default_cert choice st of Some (FileCert paths) \<Rightarrow> Some paths | _ \<Rightarrow> None)"

definition sni_suffix :: "string \<Rightarrow> string option" where
  "sni_suffix key = map_option (\<lambda>s. ''.'' @ s) (strip_prefix ''*.'' key)"

definition sni_covers :: "string \<Rightarrow> string \<Rightarrow> bool" where
  "sni_covers key host =
     (case sni_suffix key of
        Some suf \<Rightarrow> ends_with host suf \<and> length suf < length host
      | None \<Rightarrow> False)"

definition sni_score :: "string \<Rightarrow> nat" where
  "sni_score key = length (get_or [] (sni_suffix key))"

definition lookup_sni :: "CertStore \<Rightarrow> string \<Rightarrow> StoredCert option" where
  "lookup_sni st raw =
     (let host = cert_normalize_host raw in
      case map_of (st_by_host st) host of
        Some cert \<Rightarrow> Some cert
      | None \<Rightarrow> map_option snd (best_scan (\<lambda>key. sni_covers key host) sni_score (st_by_host st)))"

definition has_cert_for_host :: "CertStore \<Rightarrow> string \<Rightarrow> bool" where
  "has_cert_for_host st host \<longleftrightarrow> lookup_sni st host \<noteq> None"

definition set_expected_hosts :: "string list \<Rightarrow> CertStore \<Rightarrow> CertStore" where
  "set_expected_hosts hosts st =
     st\<lparr>st_expected := remdups (filter (\<lambda>h. h \<noteq> []) (map cert_normalize_host hosts))\<rparr>"

definition set_expected_from_config :: "Config \<Rightarrow> CertStore \<Rightarrow> CertStore" where
  "set_expected_from_config cfg st =
     set_expected_hosts (map si_host (cf_sites cfg) @ concat (map tc_hosts (cf_tls cfg))) st"

definition expects_host :: "CertStore \<Rightarrow> string \<Rightarrow> bool" where
  "expects_host st raw =
     (let host = cert_normalize_host raw in
      if host = [] then False
      else if host \<in> set (st_expected st) then True
      else list_ex (\<lambda>e. wildcard_covers_host e host) (st_expected st))"

definition has_any_cert :: "((string, StoredCert) hmap \<Rightarrow> nat) \<Rightarrow> CertStore \<Rightarrow> bool" where
  "has_any_cert choice st \<longleftrightarrow> 0 < host_count st \<or> default_paths choice st \<noteq> None"

definition insert_stored_for_hosts :: "string list \<Rightarrow> StoredCert \<Rightarrow> CertStore \<Rightarrow> CertStore" where
  "insert_stored_for_hosts hosts cert st =
     st\<lparr>st_default := or_else (st_default st) (Some cert),
        st_by_host := put_hosts (filter (\<lambda>h. h \<noteq> []) (map trim hosts)) cert (st_by_host st)\<rparr>"

definition insert_paths_for_hosts :: "string list \<Rightarrow> CertPaths \<Rightarrow> CertStore \<Rightarrow> CertStore" where
  "insert_paths_for_hosts hosts paths st = insert_stored_for_hosts hosts (FileCert paths) st"

definition remove_for_hosts :: "string list \<Rightarrow> CertStore \<Rightarrow> CertStore" where
  "remove_for_hosts hosts st =
     st\<lparr>st_by_host := fold (\<lambda>host. AList.delete (cert_normalize_host (trim host))) hosts (st_by_host st)\<rparr>"

definition path_join :: "string \<Rightarrow> string \<Rightarrow> string" where
  "path_join dir name =
     (if starts_with name ''/'' then name
      else if dir = [] \<or> ends_with dir ''/'' then dir @ name else dir @ ''/'' @ name)"

definition insert_pem_for_hosts :: "(bytes \<Rightarrow> bytes \<Rightarrow> bool) \<Rightarrow> (string \<Rightarrow> bytes \<Rightarrow> bool) \<Rightarrow> (string \<Rightarrow> string \<Rightarrow> bool) \<Rightarrow>
    (string \<Rightarrow> string list \<Rightarrow> bool) \<Rightarrow> string list \<Rightarrow> bytes \<Rightarrow> bytes \<Rightarrow> string \<Rightarrow> string \<Rightarrow> CertStore \<Rightarrow> CertStore option" where
  "insert_pem_for_hosts valid_pem fs_write valid_pair host_check hosts cert_pem key_pem certs_dir i st =
     (let cert_path = path_join certs_dir (i @ ''.pem''); key_path = path_join certs_dir (i @ ''.key'') in
      if valid_pem cert_pem key_pem \<and> fs_write cert_path cert_pem \<and> fs_write key_path key_pem \<and>
         valid_pair cert_path key_path \<and> host_check cert_path hosts
      then Some (insert_paths_for_hosts hosts \<lparr>cp_cert = cert_path, cp_key = key_path\<rparr> st) else None)"

definition insert_pem_in_memory_for_hosts :: "(bytes \<Rightarrow> bytes \<Rightarrow> bool) \<Rightarrow> (bytes \<Rightarrow> string list \<Rightarrow> bool) \<Rightarrow> string list \<Rightarrow>
    bytes \<Rightarrow> bytes \<Rightarrow> CertStore \<Rightarrow> CertStore option" where
  "insert_pem_in_memory_for_hosts valid_pem host_check_pem hosts cert_pem key_pem st =
     (if valid_pem cert_pem key_pem \<and> host_check_pem cert_pem hosts
      then Some (insert_stored_for_hosts hosts (Pem cert_pem key_pem) st) else None)"

definition cert_get :: "((string, StoredCert) hmap \<Rightarrow> nat) \<Rightarrow> CertStore \<Rightarrow> string \<Rightarrow> StoredCert option" where
  "cert_get choice st host = or_else (lookup_sni st host) (default_cert choice st)"

definition certificate_callback :: "((string, StoredCert) hmap \<Rightarrow> nat) \<Rightarrow> CertStore \<Rightarrow> string option \<Rightarrow> StoredCert option" where
  "certificate_callback choice st sni =
     or_else (Option.bind sni (lookup_sni st)) (if sni = None then default_cert choice st else None)"

definition resolve_cert :: "((string, StoredCert) hmap \<Rightarrow> nat) \<Rightarrow> CertStore \<Rightarrow> string option \<Rightarrow> StoredCert option" where
  "resolve_cert choice st server_name =
     (case server_name of Some name \<Rightarrow> lookup_sni st name | None \<Rightarrow> default_cert choice st)"

lemmas cert_store_defs [run] = cert_store_new_def set_global_fallback_def cert_normalize_host_def put_hosts_def
  reload_from_configs_def default_cert_def default_paths_def sni_suffix_def sni_covers_def sni_score_def
  lookup_sni_def set_expected_hosts_def expects_host_def insert_stored_for_hosts_def insert_paths_for_hosts_def
  remove_for_hosts_def path_join_def insert_pem_for_hosts_def insert_pem_in_memory_for_hosts_def cert_get_def
  certificate_callback_def resolve_cert_def

section \<open>Wildcards in the store\<close>

lemma sni_covers_iff: "sni_covers key host \<longleftrightarrow> (\<exists>l d. l \<noteq> [] \<and> key = CHR ''*'' # CHR ''.'' # d \<and> host = l @ CHR ''.'' # d)"
proof (cases "strip_prefix ''*.'' key")
  case None
  have "key \<noteq> CHR ''*'' # CHR ''.'' # d" for d
    using None strip_prefix_append [of "''*.''" d] by auto
  with None show ?thesis
    by (simp add: sni_covers_def sni_suffix_def)
next
  case (Some d)
  then have key: "key = CHR ''*'' # CHR ''.'' # d"
    using strip_prefix_Some [of "''*.''" key d] by simp
  have "sni_covers key host \<longleftrightarrow> suffix (CHR ''.'' # d) host \<and> Suc (length d) < length host"
    by (simp add: sni_covers_def sni_suffix_def Some ends_with_suffix)
  also have "\<dots> \<longleftrightarrow> (\<exists>l. l \<noteq> [] \<and> host = l @ CHR ''.'' # d)"
    unfolding suffix_def by (rule iffI) (elim exE conjE, simp)+
  finally show ?thesis by (simp add: key)
qed

lemma sni_score_wild: "sni_score (CHR ''*'' # CHR ''.'' # d) = Suc (length d)"
  by (simp add: sni_score_def sni_suffix_def strip_prefix_def)

lemma sni_covers_unique:
  assumes "sni_covers k h" and "sni_covers k' h" and "sni_score k = sni_score k'"
  shows "k = k'"
proof -
  obtain l d where k: "k = CHR ''*'' # CHR ''.'' # d" "h = l @ CHR ''.'' # d"
    using assms(1) by (auto simp: sni_covers_iff)
  obtain l' d' where k': "k' = CHR ''*'' # CHR ''.'' # d'" "h = l' @ CHR ''.'' # d'"
    using assms(2) by (auto simp: sni_covers_iff)
  have "length (CHR ''.'' # d) = length (CHR ''.'' # d')"
    using assms(3) by (simp add: k(1) k'(1) sni_score_wild)
  moreover have "l @ CHR ''.'' # d = l' @ CHR ''.'' # d'"
    by (rule trans [OF sym [OF k(2)] k'(2)])
  ultimately have "CHR ''.'' # d = CHR ''.'' # d'"
    by (metis append_eq_append_conv)
  then show ?thesis by (simp add: k(1) k'(1))
qed

lemma sni_score_pos: "sni_covers k h \<Longrightarrow> 0 < sni_score k"
  by (auto simp: sni_covers_iff sni_score_wild)

interpretation sni_index: wildcard_index sni_covers sni_score "\<lambda>_. True"
  by unfold_locales (auto intro: sni_covers_unique sni_score_pos)

text \<open>The wildcards above a host, nearest first: the host with its first labels replaced by a star.\<close>

definition wildcards_above :: "string \<Rightarrow> string list" where
  "wildcards_above host = map (\<lambda>i. CHR ''*'' # drop i host) (filter (\<lambda>i. host ! i = CHR ''.'') [1..<length host])"

lemma wildcards_above_set:
  "set (wildcards_above host) = (\<lambda>i. CHR ''*'' # drop i host) ` {i. 0 < i \<and> i < length host \<and> host ! i = CHR ''.''}"
  by (simp add: wildcards_above_def) (rule arg_cong [where f = "image _"], auto)

lemma wildcards_above_iff: "key \<in> set (wildcards_above host) \<longleftrightarrow> sni_covers key host"
proof
  assume "key \<in> set (wildcards_above host)"
  then obtain i where i: "0 < i" "i < length host" "host ! i = CHR ''.''" "key = CHR ''*'' # drop i host"
    by (auto simp: wildcards_above_def Suc_le_eq)
  then have "drop i host = CHR ''.'' # drop (Suc i) host"
    by (metis Cons_nth_drop_Suc)
  then show "sni_covers key host"
    unfolding sni_covers_iff using i append_take_drop_id [of i host]
    by (intro exI [of "\<lambda>l. \<exists>d. l \<noteq> [] \<and> key = _ # _ # d \<and> host = l @ _ # d" "take i host"]
        exI [of "\<lambda>d. take i host \<noteq> [] \<and> key = _ # _ # d \<and> host = take i host @ _ # d" "drop (Suc i) host"]) auto
next
  assume "sni_covers key host"
  then obtain l d where "l \<noteq> []" "key = CHR ''*'' # CHR ''.'' # d" "host = l @ CHR ''.'' # d"
    by (auto simp: sni_covers_iff)
  then show "key \<in> set (wildcards_above host)"
    unfolding wildcards_above_set by (intro image_eqI [where x = "length l"]) auto
qed

lemma sni_score_drop:
  assumes "i < length host" and "host ! i = CHR ''.''"
  shows "sni_score (CHR ''*'' # drop i host) = length host - i"
proof -
  have "drop i host = CHR ''.'' # drop (Suc i) host"
    using assms by (metis Cons_nth_drop_Suc)
  then show ?thesis
    using assms(1) by (simp add: sni_score_wild)
qed

lemma wildcards_above_sorted: "sorted_wrt (\<lambda>a b. sni_score b < sni_score a) (wildcards_above host)"
proof -
  have "sorted_wrt (<) (filter (\<lambda>i. host ! i = CHR ''.'') [1..<length host])"
    by (rule sorted_wrt_filter) simp
  then show ?thesis
    unfolding wildcards_above_def sorted_wrt_map
    by (rule sorted_wrt_mono_rel [rotated]) (auto simp: sni_score_drop)
qed

lemma find_sorted:
  assumes "sorted_wrt R xs" and "find P xs = Some x" and "y \<in> set xs" and "P y"
  shows "y = x \<or> R x y"
  using assms by (induction xs) (auto split: if_splits)

lemma scan_nearest:
  assumes "distinct (map fst m)"
  shows "map_option snd (best_scan (\<lambda>k. sni_covers k h) sni_score m) =
    Option.bind (find (\<lambda>k. k \<in> fst ` set m) (wildcards_above h)) (map_of m)"
proof (cases "find (\<lambda>k. k \<in> fst ` set m) (wildcards_above h)")
  case None
  then have "best_scan (\<lambda>k. sni_covers k h) sni_score m = None"
    unfolding sni_index.scan_None find_None_iff wildcards_above_iff by blast
  with None show ?thesis by simp
next
  case (Some k)
  then have "k \<in> set (wildcards_above h)" and kin: "k \<in> fst ` set m"
    unfolding find_Some_iff by auto
  then have cov: "sni_covers k h"
    by (simp add: wildcards_above_iff)
  obtain v where v: "map_of m k = Some v"
    using kin by (metis map_of_eq_None_iff not_None_eq)
  have max: "sni_score k' \<le> sni_score k" if "k' \<in> fst ` set m" "sni_covers k' h" for k'
    using find_sorted [OF wildcards_above_sorted Some, of k'] that by (auto simp: wildcards_above_iff)
  have "best_scan (\<lambda>k. sni_covers k h) sni_score m = Some (sni_score k, v)"
    using assms map_of_SomeD [OF v] cov max by (intro sni_index.scan_hit) auto
  with Some v show ?thesis by simp
qed

section \<open>Reachable stores\<close>

datatype store_op =
    SetFallback "string \<Rightarrow> string \<Rightarrow> bool" string string
  | Reload "string \<Rightarrow> string \<Rightarrow> bool" "string \<Rightarrow> string list \<Rightarrow> bool" "TlsConfig list"
  | InsertPaths "string list" CertPaths
  | InsertPem "bytes \<Rightarrow> bytes \<Rightarrow> bool" "bytes \<Rightarrow> string list \<Rightarrow> bool" "string list" bytes bytes
  | Remove "string list"
  | SetExpected "string list"

text \<open>A failing operation leaves the store as it is.\<close>

fun store_step :: "CertStore \<Rightarrow> store_op \<Rightarrow> CertStore" where
  "store_step st (SetFallback valid_pair cert key) = get_or st (set_global_fallback valid_pair cert key st)"
| "store_step st (Reload valid_pair host_check configs) = get_or st (reload_from_configs valid_pair host_check configs st)"
| "store_step st (InsertPaths hosts paths) = insert_paths_for_hosts hosts paths st"
| "store_step st (InsertPem valid_pem host_check hosts cert key) =
     get_or st (insert_pem_in_memory_for_hosts valid_pem host_check hosts cert key st)"
| "store_step st (Remove hosts) = remove_for_hosts hosts st"
| "store_step st (SetExpected hosts) = set_expected_hosts hosts st"

definition keys_ok :: "CertStore \<Rightarrow> bool" where
  "keys_ok st \<longleftrightarrow> distinct (map fst (st_by_host st))"

lemma put_hosts_distinct: "distinct (map fst m) \<Longrightarrow> distinct (map fst (put_hosts hosts c m))"
  unfolding put_hosts_def by (induction hosts arbitrary: m) (simp_all add: distinct_update)

lemma load_configs_distinct:
  "load_configs valid_pair host_check configs acc = Some (m, d) \<Longrightarrow> distinct (map fst (fst acc)) \<Longrightarrow> distinct (map fst m)"
  by (induction valid_pair host_check configs acc rule: load_configs.induct)
    (auto simp: put_hosts_distinct Let_def split: if_splits TlsSource.splits)

lemma delete_hosts_distinct:
  "distinct (map fst m) \<Longrightarrow> distinct (map fst (fold (\<lambda>host. AList.delete (f host)) hosts m))"
  by (induction hosts arbitrary: m) (simp_all add: distinct_delete)

interpretation store_sys: invariant_system store_step keys_ok
proof
  fix st op
  assume "keys_ok st"
  then show "keys_ok (store_step st op)"
    by (cases op) (auto simp: keys_ok_def set_global_fallback_def reload_from_configs_def insert_paths_for_hosts_def
        insert_stored_for_hosts_def insert_pem_in_memory_for_hosts_def remove_for_hosts_def set_expected_hosts_def
        put_hosts_distinct delete_hosts_distinct get_or_def dest: load_configs_distinct split: option.splits)
qed

section \<open>Properties\<close>


end
