(* ===== verification/Http_Msg.thy ===== *)
theory Http_Msg
  imports Rust_Str
begin

text \<open>
  The shape in which the request pipeline sees HTTP messages.  The header map and the URI come from
  the http crate, which is not part of the repository: a header map is any type 'h with the
  operations of the record header_map, a URI is the record of what its accessors return.  The
  locale header_laws states what that crate documents of its header map; it is interpreted on a
  list of pairs.  The responses the proxy builds itself are plain records, headers in the order in
  which the code inserts them.  The identification header comes from src/src/lib.rs.
\<close>

section \<open>Header maps of the http crate\<close>

record 'h header_map =
  hm_get :: "'h \<Rightarrow> string \<Rightarrow> string option"
  hm_get_all :: "'h \<Rightarrow> string \<Rightarrow> string list"
  hm_contains :: "'h \<Rightarrow> string \<Rightarrow> bool"
  hm_keys :: "'h \<Rightarrow> string list"
  hm_remove :: "'h \<Rightarrow> string \<Rightarrow> 'h"
  hm_insert :: "'h \<Rightarrow> string \<Rightarrow> string \<Rightarrow> 'h"

text \<open>
  Names are compared without case.  Inserting replaces every value of the name; removing drops them
  all.  The lookup hm_get is the first value, None where it is no visible ASCII text.  An insertion of a name or a value that
  is no header text has no effect (the code ignores the error), so the law is for good ones.
\<close>
definition header_text :: "string \<Rightarrow> bool" where
  "header_text v \<longleftrightarrow> list_all (\<lambda>c. c = CHR 0x09 \<or> (32 \<le> code c \<and> code c < 127)) v"

locale header_laws =
  fixes H :: "'h header_map"
  assumes get_remove: "hm_get H (hm_remove H h n) m =
      (if to_ascii_lowercase n = to_ascii_lowercase m then None else hm_get H h m)"
    and get_insert: "header_text v \<Longrightarrow> n \<noteq> [] \<Longrightarrow> hm_get H (hm_insert H h n v) m =
      (if to_ascii_lowercase n = to_ascii_lowercase m then Some v else hm_get H h m)"
    and get_insert_other: "to_ascii_lowercase n \<noteq> to_ascii_lowercase m \<Longrightarrow>
      hm_get H (hm_insert H h n v) m = hm_get H h m"
    and get_text: "hm_get H h n = Some v \<Longrightarrow> header_text v"
begin

lemma get_insert_same: "header_text v \<Longrightarrow> n \<noteq> [] \<Longrightarrow> to_ascii_lowercase n = to_ascii_lowercase m \<Longrightarrow>
    hm_get H (hm_insert H h n v) m = Some v"
  by (simp add: get_insert)

lemma get_remove_all: "hm_get H (fold (\<lambda>n h. hm_remove H h n) ns h) m =
    (if to_ascii_lowercase m \<in> to_ascii_lowercase ` set ns then None else hm_get H h m)"
  by (induction ns arbitrary: h) (auto simp: get_remove)

lemma get_insert_all_other:
  "to_ascii_lowercase m \<notin> (to_ascii_lowercase \<circ> fst) ` set ps \<Longrightarrow>
    hm_get H (fold (\<lambda>(n, v) h. hm_insert H h n v) ps h) m = hm_get H h m"
  by (induction ps arbitrary: h) (auto simp: get_insert_other)

end

definition insert_headers :: "'h header_map \<Rightarrow> (string \<times> string) list \<Rightarrow> 'h \<Rightarrow> 'h" where
  "insert_headers H pairs h = fold (\<lambda>(n, v) h. hm_insert H h n v) pairs h"

definition remove_headers :: "'h header_map \<Rightarrow> string list \<Rightarrow> 'h \<Rightarrow> 'h" where
  "remove_headers H names h = fold (\<lambda>n h. hm_remove H h n) names h"

text \<open>A header map kept as a list of pairs, names in lower case.\<close>

type_synonym header_list = "(string \<times> string) list"

abbreviation same_name :: "string \<Rightarrow> string \<times> string \<Rightarrow> bool" where
  "same_name n p \<equiv> fst p = to_ascii_lowercase n"

definition header_list_map :: "header_list header_map" where
  "header_list_map =
     \<lparr>hm_get = (\<lambda>h n. filter_opt header_text (map_option snd (find (same_name n) h))),
      hm_get_all = (\<lambda>h n. map snd (filter (same_name n) h)),
      hm_contains = (\<lambda>h n. list_ex (same_name n) h),
      hm_keys = (\<lambda>h. remdups (map fst h)),
      hm_remove = (\<lambda>h n. filter (\<lambda>p. \<not> same_name n p) h),
      hm_insert = (\<lambda>h n v. if header_text v \<and> n \<noteq> []
         then filter (\<lambda>p. \<not> same_name n p) h @ [(to_ascii_lowercase n, v)] else h)\<rparr>"

lemma find_append_one: "find P (xs @ [x]) = (case find P xs of Some y \<Rightarrow> Some y | None \<Rightarrow> if P x then Some x else None)"
  by (induction xs) auto

lemma find_drop_name: "find (same_name m) (filter (\<lambda>p. \<not> same_name n p) h) =
    (if to_ascii_lowercase n = to_ascii_lowercase m then None else find (same_name m) h)"
  by (induction h) auto

interpretation header_list: header_laws header_list_map
  by unfold_locales
    (auto simp: header_list_map_def find_drop_name find_append_one filter_opt_eq_Some split: option.split)

section \<open>Requests and responses\<close>

record uri =
  ur_scheme :: "string option"
  ur_authority_host :: "string option"
  ur_path :: string
  ur_query :: "string option"
  ur_path_and_query :: "string option"

definition uri_path_q :: "uri \<Rightarrow> string" where
  "uri_path_q u = get_or (ur_path u) (ur_path_and_query u)"

record 'h RequestHeader =
  rq_method :: string
  rq_uri :: uri
  rq_headers :: 'h

record Response =
  rs_status :: u16
  rs_headers :: "(string \<times> string) list"
  rs_body :: bytes

definition app_name :: "bool \<Rightarrow> string" where
  "app_name ingress = (if ingress then ''ingress'' else ''proxy'')"

datatype duration = Secs u64 | DurationMax

lemmas http_msg_defs [run] = header_text_def insert_headers_def remove_headers_def header_list_map_def
  uri_path_q_def app_name_def

end
