(* ===== verification/Grpc.thy ===== *)
theory Grpc
  imports Http_Msg
begin

text \<open>
  Traffic classes with their own rules: gRPC, gRPC-Web, Connect, server-sent events and WebSocket
  (src/src/proxy/grpc.rs) and the OCI registry API (src/src/proxy/registry.rs).  The header map is
  the parameter H, replacing the path of a URI is the parameter set_paq (None where the http crate
  rejects the text), environment variables are passed as the text they hold.
\<close>

section \<open>Classification\<close>

definition is_grpc_request :: "'h header_map \<Rightarrow> 'h \<Rightarrow> bool" where
  "is_grpc_request H headers =
     get_or False (map_option (\<lambda>ct. starts_with ct ''application/grpc'' \<and> \<not> starts_with ct ''application/grpc-web'')
       (hm_get H headers ''content-type''))"

definition is_native_grpc_request :: "'h header_map \<Rightarrow> 'h \<Rightarrow> bool" where
  "is_native_grpc_request H headers = is_grpc_request H headers"

definition is_grpc_rpc_path :: "string \<Rightarrow> bool" where
  "is_grpc_rpc_path raw =
     (let path = before CHR ''?'' raw in
      starts_with path ''/api/'' \<and> 5 < length path \<and> CHR ''.'' \<in> set path \<and> CHR ''/'' \<in> set path)"

definition grpc_request_host :: "string \<Rightarrow> string" where
  "grpc_request_host host = trim (before CHR '':'' host)"

definition is_machine_api_host :: "string \<Rightarrow> bool" where
  "is_machine_api_host host = eq_ignore_ascii_case (grpc_request_host host) ''api.omni.pertisk.com''"

definition is_h2c_only_upstream :: "string \<Rightarrow> u16 \<Rightarrow> bool" where
  "is_h2c_only_upstream host port \<longleftrightarrow> port = 8090 \<or> is_machine_api_host host"

definition is_grpc_web_request :: "'h header_map \<Rightarrow> 'h \<Rightarrow> string \<Rightarrow> string \<Rightarrow> bool" where
  "is_grpc_web_request H headers verb path =
     (let rpc = (verb = ''POST'' \<and> is_grpc_rpc_path path) in
      if get_or False (map_option (\<lambda>ct. starts_with ct ''application/grpc-web'') (hm_get H headers ''content-type'')) then rpc
      else if get_or False (map_option (\<lambda>v. trim v = ''1'') (hm_get H headers ''x-grpc-web'')) then rpc
      else if \<not> rpc then False
      else list_ex (\<lambda>name. starts_with name ''grpc-metadata-'') (hm_keys H headers))"

definition classify_grpc_request :: "'h header_map \<Rightarrow> 'h \<Rightarrow> string \<Rightarrow> string \<Rightarrow> string \<Rightarrow> bool \<times> bool" where
  "classify_grpc_request H headers verb path host =
     (let on_api_rpc = (verb = ''POST'' \<and> is_grpc_rpc_path path);
          is_grpc_web = (if on_api_rpc \<and> is_grpc_request H headers \<and> \<not> is_machine_api_host host then True
                         else is_grpc_web_request H headers verb path)
      in (is_grpc_request H headers \<or> is_grpc_web, is_grpc_web))"

definition is_connect_request :: "'h header_map \<Rightarrow> 'h \<Rightarrow> bool" where
  "is_connect_request H headers =
     (if hm_contains H headers ''connect-protocol-version'' then True
      else get_or False (map_option (\<lambda>ct. starts_with ct ''application/connect'') (hm_get H headers ''content-type'')))"

definition is_sse_request :: "'h header_map \<Rightarrow> string \<Rightarrow> string \<Rightarrow> 'h \<Rightarrow> bool" where
  "is_sse_request H verb raw headers =
     (if verb \<noteq> ''GET'' then False
      else if (case hm_get H headers ''accept'' of
          Some a \<Rightarrow> list_ex (\<lambda>p. starts_with (trim p) ''text/event-stream'') (split_on (\<lambda>c. c = CHR '','') a)
        | None \<Rightarrow> False) then True
      else let path = before CHR ''?'' raw
           in path = ''/events'' \<or> path = ''/api/events'' \<or> ends_with path ''/events'')"

definition grpc_rpc_method :: "string \<Rightarrow> string option" where
  "grpc_rpc_method raw = filter_opt (\<lambda>m. m \<noteq> []) (Some (last (split_on (\<lambda>c. c = CHR ''/'') (before CHR ''?'' raw))))"

definition is_grpc_server_streaming :: "string \<Rightarrow> bool" where
  "is_grpc_server_streaming path =
     (case grpc_rpc_method path of
        Some m \<Rightarrow> m \<in> {''Watch'', ''Subscribe'', ''Listen'', ''Stream'', ''Tail'', ''Events''}
      | None \<Rightarrow> False)"

definition is_long_lived_api_stream :: "'h header_map \<Rightarrow> string \<Rightarrow> string \<Rightarrow> 'h \<Rightarrow> bool" where
  "is_long_lived_api_stream H verb raw headers =
     (if is_sse_request H verb raw headers then True
      else let path = before CHR ''?'' raw in
        if verb = ''GET'' \<and> path = ''/api/live'' then True
        else verb = ''POST'' \<and> is_grpc_rpc_path path \<and>
             (is_grpc_server_streaming path \<or> is_connect_request H headers))"

definition lists_token :: "string \<Rightarrow> string \<Rightarrow> bool" where
  "lists_token token v = list_ex (\<lambda>p. eq_ignore_ascii_case (trim p) token) (split_on (\<lambda>c. c = CHR '','') v)"

definition is_websocket_upgrade :: "'h header_map \<Rightarrow> string \<Rightarrow> 'h \<Rightarrow> bool" where
  "is_websocket_upgrade H verb headers =
     (if verb \<noteq> ''GET'' then False
      else if \<not> get_or False (map_option (lists_token ''websocket'') (hm_get H headers ''upgrade'')) then False
      else get_or False (map_option (lists_token ''upgrade'') (hm_get H headers ''connection'')))"

definition is_grpc_like_request :: "'h header_map \<Rightarrow> 'h \<Rightarrow> string \<Rightarrow> string \<Rightarrow> bool" where
  "is_grpc_like_request H headers verb path \<longleftrightarrow> is_grpc_request H headers \<or> is_grpc_web_request H headers verb path"

definition is_h3_incompatible_request :: "'h header_map \<Rightarrow> 'h \<Rightarrow> string \<Rightarrow> string \<Rightarrow> bool" where
  "is_h3_incompatible_request H headers verb path \<longleftrightarrow>
     is_sse_request H verb path headers \<or> is_grpc_like_request H headers verb path \<or>
     (verb = ''POST'' \<and> is_grpc_rpc_path path)"

definition uses_h2c_upstream :: "bool \<Rightarrow> bool \<Rightarrow> bool" where
  "uses_h2c_upstream is_grpc is_grpc_web \<longleftrightarrow> is_grpc \<and> \<not> is_grpc_web"

section \<open>Upstream requests and responses\<close>

definition rebuild_upstream_path :: "(uri \<Rightarrow> string \<Rightarrow> uri option) \<Rightarrow> 'h RequestHeader \<Rightarrow> string \<Rightarrow> 'h RequestHeader option" where
  "rebuild_upstream_path set_paq req new_path =
     (let query = get_or [] (map_option (\<lambda>q. ''?'' @ q) (ur_query (rq_uri req)))
      in map_option (\<lambda>u. req\<lparr>rq_uri := u\<rparr>) (set_paq (rq_uri req) (new_path @ query)))"

definition rewrite_upstream_grpc_path :: "(uri \<Rightarrow> string \<Rightarrow> uri option) \<Rightarrow> 'h RequestHeader \<Rightarrow> 'h RequestHeader option" where
  "rewrite_upstream_grpc_path set_paq req =
     (case strip_prefix ''/api/'' (ur_path (rq_uri req)) of
        Some stripped \<Rightarrow>
          rebuild_upstream_path set_paq req
            (if stripped = [] then ''/'' else ''/'' @ trim_start_matches CHR ''/'' stripped)
      | None \<Rightarrow>
          if ur_path (rq_uri req) = ''/api'' then rebuild_upstream_path set_paq req ''/''
          else Some req)"

datatype grpc_error = RequiresPost | RequiresHttp2

definition grpc_message :: "grpc_error \<Rightarrow> string" where
  "grpc_message e = (case e of RequiresPost \<Rightarrow> ''gRPC requires POST'' | RequiresHttp2 \<Rightarrow> ''gRPC requires HTTP/2'')"

definition validate_downstream :: "string \<Rightarrow> bool \<Rightarrow> bool \<Rightarrow> grpc_error option" where
  "validate_downstream verb is_http2 is_grpc_web =
     (if verb \<noteq> ''POST'' then Some RequiresPost
      else if \<not> is_grpc_web \<and> \<not> is_http2 then Some RequiresHttp2
      else None)"

definition prepare_upstream_request :: "'h header_map \<Rightarrow> bool \<Rightarrow> 'h \<Rightarrow> 'h" where
  "prepare_upstream_request H is_grpc_web headers =
     (let h = remove_headers H [''connection'', ''upgrade'', ''transfer-encoding'', ''keep-alive'', ''proxy-connection''] headers
      in if \<not> is_grpc_web \<and> \<not> hm_contains H h ''te'' then hm_insert H h ''te'' ''trailers'' else h)"

definition strip_hop_by_hop_response_headers :: "'h header_map \<Rightarrow> 'h \<Rightarrow> 'h" where
  "strip_hop_by_hop_response_headers H headers =
     remove_headers H [''transfer-encoding'', ''connection'', ''keep-alive'', ''proxy-connection''] headers"

definition prepare_streaming_response_headers :: "'h header_map \<Rightarrow> 'h \<Rightarrow> 'h" where
  "prepare_streaming_response_headers H headers =
     insert_headers H [(''cache-control'', ''no-cache, no-transform''), (''x-accel-buffering'', ''no''), (''Alt-Svc'', ''clear'')]
       (remove_headers H [''content-length'', ''content-encoding''] (strip_hop_by_hop_response_headers H headers))"

definition prepare_upstream_streaming_request :: "'h header_map \<Rightarrow> 'h \<Rightarrow> 'h" where
  "prepare_upstream_streaming_request H headers = hm_insert H headers ''accept-encoding'' ''identity''"

definition respond_error :: "u16 \<Rightarrow> string \<Rightarrow> bool \<Rightarrow> Response" where
  "respond_error grpc_status message is_grpc_web =
     \<lparr>rs_status = 200,
      rs_headers = [(''content-type'', if is_grpc_web then ''application/grpc-web+proto'' else ''application/grpc''),
                    (''grpc-status'', show_word grpc_status)] @
                   (if message \<noteq> [] then [(''grpc-message'', message)] else []),
      rs_body = []\<rparr>"

definition env_timeout :: "string option \<Rightarrow> duration" where
  "env_timeout var =
     (let secs = get_or 3600 (Option.bind var (\<lambda>v. parse_word (trim v)))
      in if secs = (0 :: u64) then DurationMax else Secs secs)"

definition grpc_upstream_timeout :: "(string \<Rightarrow> string option) \<Rightarrow> duration" where
  "grpc_upstream_timeout env = env_timeout (env ''PERTISK_GRPC_UPSTREAM_REQUEST_TIMEOUT_SECS'')"

definition grpc_h2_ping_interval :: "(string \<Rightarrow> string option) \<Rightarrow> duration" where
  "grpc_h2_ping_interval env =
     Secs (get_or 20 (filter_opt (\<lambda>n. 0 < n)
       (Option.bind (env ''PERTISK_GRPC_H2C_KEEPALIVE_SECS'') (\<lambda>v. parse_word (trim v)))))"

record stream_timeouts =
  to_read :: "duration option"
  to_write :: "duration option"

definition session_timeouts :: "duration \<Rightarrow> stream_timeouts" where
  "session_timeouts t =
     (case t of DurationMax \<Rightarrow> \<lparr>to_read = None, to_write = None\<rparr>
              | Secs s \<Rightarrow> \<lparr>to_read = Some (Secs s), to_write = Some (Secs s)\<rparr>)"

definition prepare_long_lived_downstream_session :: "(string \<Rightarrow> string option) \<Rightarrow> stream_timeouts" where
  "prepare_long_lived_downstream_session env = session_timeouts (grpc_upstream_timeout env)"

datatype ErrorSource = UpstreamSource | DownstreamSource | InternalSource | UnsetSource

datatype ErrorType = StatusError u16 | WriteError | ReadError | ConnectionClosed | H2Error | OtherError

record pingora_error =
  er_source :: ErrorSource
  er_type :: ErrorType
  er_display :: string

definition is_benign_downstream_disconnect :: "pingora_error \<Rightarrow> bool" where
  "is_benign_downstream_disconnect e =
     (if er_source e \<noteq> DownstreamSource then False
      else if er_type e \<in> {ConnectionClosed, ReadError, WriteError} then True
      else if er_type e = H2Error then
        contains_str (er_display e) ''stream no longer needed'' \<or> contains_str (er_display e) ''Client closed H2'' \<or>
        contains_str (er_display e) ''CANCEL'' \<or> contains_str (er_display e) ''connection reset''
      else False)"

definition merge_cookie_headers :: "'h header_map \<Rightarrow> 'h \<Rightarrow> 'h" where
  "merge_cookie_headers H headers =
     (let values = filter (\<lambda>s. s \<noteq> []) (map trim (hm_get_all H headers ''cookie''))
      in if length values \<le> 1 then headers
         else hm_insert H (hm_remove H headers ''cookie'') ''cookie'' (join ''; '' values))"

section \<open>OCI registry\<close>

definition is_oci_registry_path :: "string \<Rightarrow> bool" where
  "is_oci_registry_path raw =
     (let path = before CHR ''?'' raw in path = ''/v2'' \<or> starts_with path ''/v2/'' \<or> path = ''/service/token'')"

definition is_registry_blob_upload :: "string \<Rightarrow> string \<Rightarrow> bool" where
  "is_registry_blob_upload verb raw =
     (if verb \<notin> {''PUT'', ''PATCH''} then False
      else let path = before CHR ''?'' raw
           in (path = ''/v2'' \<or> contains_str path ''/v2/'') \<and> contains_str path ''/blobs/uploads/'')"

definition registry_upstream_timeout :: "(string \<Rightarrow> string option) \<Rightarrow> duration" where
  "registry_upstream_timeout env = env_timeout (env ''PERTISK_REGISTRY_UPSTREAM_REQUEST_TIMEOUT_SECS'')"

definition forward_proto_port_ssl :: "bool \<Rightarrow> string \<times> string \<times> string" where
  "forward_proto_port_ssl downstream_tls =
     (if downstream_tls then (''https'', ''443'', ''on'') else (''http'', ''80'', ''off''))"

definition registry_upstream_header_pairs :: "string \<Rightarrow> string \<Rightarrow> string \<Rightarrow> string option \<Rightarrow> bool \<Rightarrow> (string \<times> string) list" where
  "registry_upstream_header_pairs host verb path client_ip downstream_tls =
     (let (proto, port, ssl) = forward_proto_port_ssl downstream_tls in
      [(''X-Forwarded-Proto'', proto), (''X-Forwarded-Host'', host), (''X-Forwarded-Port'', port),
       (''X-Forwarded-Ssl'', ssl), (''Accept-Encoding'', ''identity'')] @
      (case filter_opt (\<lambda>s. s \<noteq> []) client_ip of
         Some ip \<Rightarrow> [(''X-Real-IP'', ip), (''X-Forwarded-For'', ip)] | None \<Rightarrow> []) @
      (if is_registry_blob_upload verb path then [(''Connection'', ''close'')] else []))"

definition normalize_registry_token_request :: "'h header_map \<Rightarrow> 'h RequestHeader \<Rightarrow> 'h RequestHeader" where
  "normalize_registry_token_request H req =
     (if rq_method req \<noteq> ''POST'' then req
      else if ur_path (rq_uri req) \<noteq> ''/service/token'' then req
      else
        let has_query = (case ur_query (rq_uri req) of Some q \<Rightarrow> q \<noteq> [] | None \<Rightarrow> False);
            content_length = get_or ''0'' (hm_get H (rq_headers req) ''content-length'');
            body_empty = (content_length = ''0'' \<or> content_length = [])
        in if has_query \<or> body_empty
           then req\<lparr>rq_method := ''GET'', rq_headers := hm_remove H (rq_headers req) ''content-length''\<rparr>
           else req)"

definition REGISTRY_FORWARD_HEADERS :: "string list" where
  "REGISTRY_FORWARD_HEADERS = [''x-forwarded-host'', ''x-forwarded-port'', ''x-forwarded-proto'',
     ''x-forwarded-ssl'', ''x-real-ip'', ''x-forwarded-for'']"

definition prepare_registry_upstream_request :: "'h header_map \<Rightarrow> string \<Rightarrow> string \<Rightarrow> string \<Rightarrow> string option \<Rightarrow> bool \<Rightarrow> 'h \<Rightarrow> 'h" where
  "prepare_registry_upstream_request H verb path host client_ip downstream_tls headers =
     insert_headers H (registry_upstream_header_pairs host verb path client_ip downstream_tls)
       (remove_headers H REGISTRY_FORWARD_HEADERS (hm_remove H headers ''cookie''))"

definition prepare_registry_downstream_session :: "(string \<Rightarrow> string option) \<Rightarrow> stream_timeouts" where
  "prepare_registry_downstream_session env = session_timeouts (registry_upstream_timeout env)"

definition rewrite_registry_location_value :: "string \<Rightarrow> bool \<Rightarrow> string option" where
  "rewrite_registry_location_value loc downstream_tls =
     (if \<not> downstream_tls then None else map_option (\<lambda>rest. ''https://'' @ rest) (strip_prefix ''http://'' loc))"

definition rewrite_registry_location_to_https :: "'h header_map \<Rightarrow> 'h \<Rightarrow> 'h" where
  "rewrite_registry_location_to_https H headers =
     (case hm_get H headers ''location'' of
        None \<Rightarrow> headers
      | Some loc \<Rightarrow>
          (case rewrite_registry_location_value loc True of
             Some https \<Rightarrow> hm_insert H (hm_remove H headers ''location'') ''location'' https
           | None \<Rightarrow> headers))"

definition prepare_registry_response_headers :: "'h header_map \<Rightarrow> bool \<Rightarrow> 'h \<Rightarrow> 'h" where
  "prepare_registry_response_headers H downstream_tls headers =
     (let h = hm_insert H (hm_remove H headers ''set-cookie'') ''Alt-Svc'' ''clear''
      in if downstream_tls then rewrite_registry_location_to_https H h else h)"

lemmas grpc_defs [run] = is_grpc_request_def is_grpc_rpc_path_def grpc_request_host_def is_machine_api_host_def
  is_h2c_only_upstream_def is_grpc_web_request_def classify_grpc_request_def is_connect_request_def is_sse_request_def
  grpc_rpc_method_def is_grpc_server_streaming_def is_long_lived_api_stream_def lists_token_def is_websocket_upgrade_def
  is_grpc_like_request_def is_h3_incompatible_request_def uses_h2c_upstream_def rebuild_upstream_path_def
  rewrite_upstream_grpc_path_def grpc_message_def validate_downstream_def prepare_upstream_request_def
  prepare_upstream_streaming_request_def respond_error_def env_timeout_def grpc_upstream_timeout_def
  grpc_h2_ping_interval_def merge_cookie_headers_def

lemmas registry_defs [run] = is_oci_registry_path_def is_registry_blob_upload_def registry_upstream_timeout_def
  forward_proto_port_ssl_def registry_upstream_header_pairs_def normalize_registry_token_request_def
  REGISTRY_FORWARD_HEADERS_def prepare_registry_upstream_request_def rewrite_registry_location_value_def
  rewrite_registry_location_to_https_def prepare_registry_response_headers_def

section \<open>Facts\<close>

text \<open>gRPC-Web is recognised on RPC paths only, so a request that must speak HTTP/2 end to end is
  never forced to HTTP/1.1 on another path.\<close>
lemma grpc_web_rpc_only: "snd (classify_grpc_request H h v p host) \<Longrightarrow> v = ''POST'' \<and> is_grpc_rpc_path p"
  by (auto simp: classify_grpc_request_def is_grpc_web_request_def Let_def split: if_splits)

lemma grpc_web_is_grpc: "snd (classify_grpc_request H h v p host) \<Longrightarrow> fst (classify_grpc_request H h v p host)"
  by (simp add: classify_grpc_request_def Let_def)

lemma native_grpc_on_machine_api:
  "is_machine_api_host host \<Longrightarrow> is_grpc_request H h \<Longrightarrow> hm_get H h ''x-grpc-web'' = None \<Longrightarrow>
   list_all (\<lambda>n. \<not> starts_with n ''grpc-metadata-'') (hm_keys H h) \<Longrightarrow>
   classify_grpc_request H h v p host = (True, False)"
  by (cases "hm_get H h ''content-type''")
    (auto simp: classify_grpc_request_def is_grpc_web_request_def is_grpc_request_def Let_def list_ex_iff list_all_iff)

lemma validate_downstream_ok:
  "validate_downstream v http2 web = None \<longleftrightarrow> v = ''POST'' \<and> (web \<or> http2)"
  by (simp add: validate_downstream_def)

lemma registry_location_https:
  "rewrite_registry_location_value loc tls = Some l \<longleftrightarrow>
     tls \<and> (\<exists>rest. loc = ''http://'' @ rest \<and> l = ''https://'' @ rest)"
  by (auto simp: rewrite_registry_location_value_def strip_prefix_Some)

context header_laws
begin

lemma registry_request_no_cookie:
  "hm_get H (prepare_registry_upstream_request H v p host ip tls h) ''cookie'' = None"
proof -
  let ?h = "remove_headers H REGISTRY_FORWARD_HEADERS (hm_remove H h ''cookie'')"
  have "hm_get H (insert_headers H (registry_upstream_header_pairs host v p ip tls) ?h) ''cookie'' = hm_get H ?h ''cookie''"
    unfolding insert_headers_def
    by (rule get_insert_all_other)
      (auto simp: registry_upstream_header_pairs_def forward_proto_port_ssl_def to_ascii_lowercase_def lower_char_def
        is_upper_def split: option.splits if_splits)
  then show ?thesis
    by (simp add: prepare_registry_upstream_request_def remove_headers_def get_remove_all get_remove)
qed

lemma registry_response_no_session:
  "hm_get H (prepare_registry_response_headers H tls h) ''set-cookie'' = None"
  by (auto simp: prepare_registry_response_headers_def rewrite_registry_location_to_https_def Let_def
      get_remove get_insert_other to_ascii_lowercase_def lower_char_def is_upper_def split: option.splits)

lemma streaming_response_headers:
  "hm_get H (prepare_streaming_response_headers H h) ''content-length'' = None"
  "hm_get H (prepare_streaming_response_headers H h) ''transfer-encoding'' = None"
  by (auto simp: prepare_streaming_response_headers_def strip_hop_by_hop_response_headers_def insert_headers_def
      remove_headers_def get_remove get_insert_other to_ascii_lowercase_def lower_char_def is_upper_def)

end

lemmas registry_list_headers = header_list.registry_request_no_cookie header_list.registry_response_no_session
  header_list.streaming_response_headers

end
