(* ===== verification/Respond.thy ===== *)
theory Respond
  imports Http_Msg
begin

text \<open>
  The responses the proxy writes itself: health probes (src/src/health.rs) and refusals, pages and
  redirects (src/src/deny.rs).  A response is what is handed to the session; writing it to the
  socket is not modelled.  Values that come from a request may be refused by the header map: the
  parameter valid_value tells, and the pipeline then ends with the error Fail.
\<close>

datatype outcome = Proceed | Reply Response | Fail

section \<open>Health probes\<close>

definition API_HEALTH_BODY :: string where
  "API_HEALTH_BODY = [CHR 0x7B, CHR 0x22] @ ''status'' @ [CHR 0x22, CHR 0x3A, CHR 0x22] @ ''ok'' @ [CHR 0x22, CHR 0x7D]"

definition is_health_path :: "string \<Rightarrow> bool" where
  "is_health_path path \<longleftrightarrow>
     path \<in> {''/api/health'', ''/health'', ''/healthz'', ''/readyz'', ''/live'', ''/ready''}"

definition is_json_health_path :: "string \<Rightarrow> bool" where
  "is_json_health_path path \<longleftrightarrow> path \<in> {''/api/health'', ''/health'', ''/live'', ''/ready''}"

definition is_health_path_bytes :: "bytes \<Rightarrow> bool" where
  "is_health_path_bytes path \<longleftrightarrow>
     path \<in> set (map as_bytes [''/api/health'', ''/health'', ''/healthz'', ''/readyz'', ''/live'', ''/ready''])"

definition is_json_health_path_bytes :: "bytes \<Rightarrow> bool" where
  "is_json_health_path_bytes path \<longleftrightarrow>
     path \<in> set (map as_bytes [''/api/health'', ''/health'', ''/live'', ''/ready''])"

definition health_body :: "string \<Rightarrow> string" where
  "health_body path = (if is_json_health_path path then API_HEALTH_BODY else ''ok'')"

definition health_content_type :: "string \<Rightarrow> string" where
  "health_content_type path = (if is_json_health_path path then ''application/json'' else ''text/plain'')"

definition try_respond_health :: "bool \<Rightarrow> string \<Rightarrow> string \<Rightarrow> string \<Rightarrow> Response option" where
  "try_respond_health ingress verb path server =
     (if \<not> is_health_path path then None
      else
        let body = health_body path;
            headers = [(''Content-Type'', health_content_type path), (''Content-Length'', show_nat (length body)),
                       (''Server'', server), (''X-App-Name'', app_name ingress)]
        in if verb = ''GET'' then Some \<lparr>rs_status = 200, rs_headers = headers, rs_body = as_bytes body\<rparr>
           else if verb = ''HEAD'' then Some \<lparr>rs_status = 200, rs_headers = headers, rs_body = []\<rparr>
           else None)"

section \<open>Refusals and redirects\<close>

definition deny_enabled :: "string option \<Rightarrow> bool" where
  "deny_enabled var =
     (case var of
        Some raw \<Rightarrow> let v = to_ascii_lowercase (trim raw) in \<not> (v = ''0'' \<or> v = ''false'' \<or> v = ''off'' \<or> v = ''no'')
      | None \<Rightarrow> True)"

definition installer_hosts_from :: "string \<Rightarrow> string list" where
  "installer_hosts_from raw =
     filter (\<lambda>s. s \<noteq> [] \<and> CHR ''/'' \<notin> set s)
       (map (\<lambda>s. to_ascii_lowercase (trim_end_matches CHR '':'' (trim_end_matches CHR ''.'' (trim s))))
         (split_on (\<lambda>c. c = CHR '','') raw))"

definition is_installer_host :: "string option \<Rightarrow> string \<Rightarrow> bool" where
  "is_installer_host var raw_host =
     (let host = to_ascii_lowercase (trim_end_matches CHR ''.'' (trim (before CHR '':'' raw_host))) in
      if host = [] then False
      else list_ex (\<lambda>configured. configured = host) (installer_hosts_from (get_or [] var)))"

definition respond_installer :: "bool \<Rightarrow> string \<Rightarrow> string \<Rightarrow> Response" where
  "respond_installer ingress script server =
     \<lparr>rs_status = 200,
      rs_headers = [(''Content-Type'', ''text/plain; charset=utf-8''), (''Content-Length'', show_nat (length script)),
                    (''Cache-Control'', ''no-store''), (''Server'', server), (''X-App-Name'', app_name ingress)],
      rs_body = as_bytes script\<rparr>"

definition DENY_BODY :: string where
  "DENY_BODY = ''not found''"

definition unknown_host_status :: "bool \<Rightarrow> u16" where
  "unknown_host_status tls = (if tls then 421 else 404)"

definition deny_headers :: "(string \<times> string) list" where
  "deny_headers = [(''Content-Type'', ''text/plain''), (''Content-Length'', show_nat (length DENY_BODY))]"

definition respond_pingora :: "bool \<Rightarrow> bool \<Rightarrow> string \<Rightarrow> Response" where
  "respond_pingora ingress tls server =
     \<lparr>rs_status = (if tls then 421 else 404),
      rs_headers = deny_headers @ [(''Server'', server), (''X-App-Name'', app_name ingress)],
      rs_body = as_bytes DENY_BODY\<rparr>"

definition h3_response :: "bool \<Rightarrow> bool \<Rightarrow> Response" where
  "h3_response ingress tls =
     \<lparr>rs_status = unknown_host_status tls,
      rs_headers = [(''content-type'', ''text/plain''), (''content-length'', show_nat (length DENY_BODY)),
                    (''server'', ''pertisk-proxy/h3''), (''x-app-name'', app_name ingress)],
      rs_body = as_bytes DENY_BODY\<rparr>"

definition GEOIP_BODY :: string where
  "GEOIP_BODY = ''forbidden''"

definition respond_forbidden :: "bool \<Rightarrow> string \<Rightarrow> string \<Rightarrow> Response" where
  "respond_forbidden ingress server reason =
     \<lparr>rs_status = 403,
      rs_headers = [(''Content-Type'', ''text/plain''), (''Content-Length'', show_nat (length GEOIP_BODY)),
                    (''Server'', server), (''X-App-Name'', app_name ingress), (''X-Pertisk-Block'', reason)],
      rs_body = as_bytes GEOIP_BODY\<rparr>"

definition respond_html :: "bool \<Rightarrow> string \<Rightarrow> u16 \<Rightarrow> string \<Rightarrow> string \<Rightarrow> (string \<times> string) list \<Rightarrow> Response" where
  "respond_html ingress server status content_type body extra_headers =
     \<lparr>rs_status = status,
      rs_headers = [(''Content-Type'', content_type), (''Content-Length'', show_nat (length body)),
                    (''Server'', server), (''X-App-Name'', app_name ingress)] @ extra_headers,
      rs_body = as_bytes body\<rparr>"

definition respond_redirect :: "(string \<Rightarrow> bool) \<Rightarrow> bool \<Rightarrow> string \<Rightarrow> string \<Rightarrow> string option \<Rightarrow> outcome" where
  "respond_redirect valid_value ingress server location set_cookie =
     (if \<not> valid_value location then Fail
      else if (case set_cookie of Some c \<Rightarrow> \<not> valid_value c | None \<Rightarrow> False) then Fail
      else Reply
        \<lparr>rs_status = 302,
         rs_headers = [(''Location'', location), (''Content-Length'', ''0''), (''Server'', server),
                       (''X-App-Name'', app_name ingress)] @
                      (case set_cookie of Some c \<Rightarrow> [(''Set-Cookie'', c)] | None \<Rightarrow> []),
         rs_body = []\<rparr>)"

definition h3_forbidden :: "bool \<Rightarrow> string \<Rightarrow> Response" where
  "h3_forbidden ingress reason =
     \<lparr>rs_status = 403,
      rs_headers = [(''content-type'', ''text/plain''), (''content-length'', show_nat (length GEOIP_BODY)),
                    (''server'', ''pertisk-proxy/h3''), (''x-app-name'', app_name ingress), (''x-pertisk-block'', reason)],
      rs_body = as_bytes GEOIP_BODY\<rparr>"

lemmas respond_defs [run] = API_HEALTH_BODY_def is_health_path_def is_json_health_path_def health_body_def
  health_content_type_def try_respond_health_def deny_enabled_def installer_hosts_from_def is_installer_host_def
  respond_installer_def DENY_BODY_def unknown_host_status_def deny_headers_def respond_pingora_def h3_response_def
  GEOIP_BODY_def respond_forbidden_def respond_html_def respond_redirect_def h3_forbidden_def

section \<open>Facts\<close>

lemma inj_as_bytes: "inj as_bytes"
  by (simp add: inj_def as_bytes_inj)

lemma health_paths_agree: "is_health_path_bytes (as_bytes p) = is_health_path p"
  "is_json_health_path_bytes (as_bytes p) = is_json_health_path p"
  by (simp_all only: is_health_path_bytes_def is_health_path_def is_json_health_path_bytes_def is_json_health_path_def
      set_map inj_image_mem_iff [OF inj_as_bytes] list.set)

lemma json_health_is_health: "is_json_health_path p \<Longrightarrow> is_health_path p"
  by (auto simp: is_json_health_path_def is_health_path_def)

text \<open>The declared length of a page is the length of its body.\<close>
lemma respond_html_length:
  "map_of (rs_headers (respond_html i s st ct body ex)) ''Content-Length'' = Some (show_nat (length (rs_body (respond_html i s st ct body ex))))"
  by (simp add: respond_html_def as_bytes_def)

lemma health_head_like_get:
  "try_respond_health i ''HEAD'' p s = map_option (\<lambda>r. r\<lparr>rs_body := []\<rparr>) (try_respond_health i ''GET'' p s)"
  by (simp add: try_respond_health_def Let_def)

lemma installer_host_clean:
  "h \<in> set (installer_hosts_from raw) \<Longrightarrow> h \<noteq> [] \<and> CHR ''/'' \<notin> set h \<and> to_ascii_lowercase h = h"
  by (auto simp: installer_hosts_from_def)

lemma no_installer: "\<not> is_installer_host None host"
  by (simp add: is_installer_host_def installer_hosts_from_def Let_def trim_end_matches_def to_ascii_lowercase_def)

end
