(* ===== verification/Telemetry.thy ===== *)
theory Telemetry
  imports Rust_Str
begin

text \<open>
  What the proxy counts and what it logs: the counters of src/src/metrics.rs and the in-memory log of
  src/src/log.rs.  Counters are 64-bit words (an atomic addition wraps around), the log buffer is a
  list with the newest entry last.  Time stamps are natural numbers; the lower-casing of text that is
  not ASCII is the parameter lower.
\<close>

section \<open>Log levels\<close>

datatype LogLevel = Debug | Info | Warn | LevelError

fun level_code :: "LogLevel \<Rightarrow> nat" where
  "level_code Debug = 0"
| "level_code Info = 1"
| "level_code Warn = 2"
| "level_code LevelError = 3"

lemma level_code_inj: "level_code a = level_code b \<Longrightarrow> a = b"
  by (cases a; cases b) simp_all

instantiation LogLevel :: linorder
begin

definition less_eq_LogLevel :: "LogLevel \<Rightarrow> LogLevel \<Rightarrow> bool" where
  "less_eq_LogLevel a b \<longleftrightarrow> level_code a \<le> level_code b"

definition less_LogLevel :: "LogLevel \<Rightarrow> LogLevel \<Rightarrow> bool" where
  "less_LogLevel a b \<longleftrightarrow> level_code a < level_code b"

instance
  by standard (auto simp: less_eq_LogLevel_def less_LogLevel_def intro: level_code_inj)

end

definition min_ui_log_level :: "nat \<Rightarrow> LogLevel" where
  "min_ui_log_level stored =
     (if stored = level_code Debug then Debug
      else if stored = level_code Info then Info
      else if stored = level_code Warn then Warn
      else LevelError)"

definition set_min_ui_log_level :: "LogLevel \<Rightarrow> nat" where
  "set_min_ui_log_level level = level_code level"

definition ui_log_enabled :: "nat \<Rightarrow> LogLevel \<Rightarrow> bool" where
  "ui_log_enabled stored level \<longleftrightarrow> min_ui_log_level stored \<le> level"

section \<open>Log entries\<close>

datatype LogEntryType = RequestEntry | ResponseEntry | HealthCheckEntry | ConfigReloadEntry | TracingEntry | ErrorEntry

record ProxyLogEntry =
  le_timestamp :: nat
  le_level :: LogLevel
  le_host :: "string option"
  le_path :: "string option"
  le_upstream :: "string option"
  le_status :: "u16 option"
  le_duration_ms :: "u64 option"
  le_message :: string
  le_entry_type :: LogEntryType
  le_protocol :: "string option"
  le_encoding :: "string option"
  le_method :: "string option"

definition response_entry :: "nat \<Rightarrow> string \<Rightarrow> string \<Rightarrow> string \<Rightarrow> u16 \<Rightarrow> u64 \<Rightarrow> string option \<Rightarrow> string option \<Rightarrow>
    string option \<Rightarrow> ProxyLogEntry" where
  "response_entry now host path upstream status duration_ms protocol encoding verb =
     \<lparr>le_timestamp = now,
      le_level = (if 500 \<le> status then LevelError else if 400 \<le> status then Warn else Info),
      le_host = Some host, le_path = Some path, le_upstream = Some upstream, le_status = Some status,
      le_duration_ms = Some duration_ms, le_message = [], le_entry_type = ResponseEntry,
      le_protocol = protocol, le_encoding = encoding, le_method = verb\<rparr>"

definition health_check_entry :: "nat \<Rightarrow> string \<Rightarrow> bool \<Rightarrow> ProxyLogEntry" where
  "health_check_entry now upstream ok =
     \<lparr>le_timestamp = now, le_level = (if ok then Info else Warn), le_host = None, le_path = None,
      le_upstream = Some upstream, le_status = None, le_duration_ms = None,
      le_message = (if ok then ''healthy'' else ''unhealthy''), le_entry_type = HealthCheckEntry,
      le_protocol = None, le_encoding = None, le_method = None\<rparr>"

definition error_entry :: "nat \<Rightarrow> string \<Rightarrow> ProxyLogEntry" where
  "error_entry now message =
     \<lparr>le_timestamp = now, le_level = LevelError, le_host = None, le_path = None, le_upstream = None,
      le_status = None, le_duration_ms = None, le_message = message, le_entry_type = ErrorEntry,
      le_protocol = None, le_encoding = None, le_method = None\<rparr>"

definition config_reload_entry :: "nat \<Rightarrow> string \<Rightarrow> ProxyLogEntry" where
  "config_reload_entry now message =
     \<lparr>le_timestamp = now, le_level = Info, le_host = None, le_path = None, le_upstream = None,
      le_status = None, le_duration_ms = None, le_message = message, le_entry_type = ConfigReloadEntry,
      le_protocol = None, le_encoding = None, le_method = None\<rparr>"

definition tracing_event :: "nat \<Rightarrow> LogLevel \<Rightarrow> string \<Rightarrow> string \<Rightarrow> ProxyLogEntry" where
  "tracing_event now level source message =
     \<lparr>le_timestamp = now, le_level = level, le_host = None, le_path = None, le_upstream = Some source,
      le_status = None, le_duration_ms = None, le_message = message, le_entry_type = TracingEntry,
      le_protocol = None, le_encoding = None, le_method = None\<rparr>"

definition error_with_context :: "nat \<Rightarrow> string \<Rightarrow> string \<Rightarrow> string \<Rightarrow> string \<Rightarrow> ProxyLogEntry" where
  "error_with_context now host path upstream message =
     \<lparr>le_timestamp = now, le_level = LevelError, le_host = Some host, le_path = Some path,
      le_upstream = Some upstream, le_status = None, le_duration_ms = None, le_message = message,
      le_entry_type = ErrorEntry, le_protocol = None, le_encoding = None, le_method = None\<rparr>"

definition is_system :: "ProxyLogEntry \<Rightarrow> bool" where
  "is_system e \<longleftrightarrow> le_entry_type e \<in> {HealthCheckEntry, ConfigReloadEntry, TracingEntry} \<or>
     (le_entry_type e = ErrorEntry \<and> le_host e = None)"

definition has_domain :: "ProxyLogEntry \<Rightarrow> bool" where
  "has_domain e \<longleftrightarrow> le_host e \<noteq> None"

definition is_repeatable_system_entry :: "ProxyLogEntry \<Rightarrow> bool" where
  "is_repeatable_system_entry e \<longleftrightarrow> le_entry_type e \<in> {HealthCheckEntry, ConfigReloadEntry, TracingEntry}"

definition repeatable_signature :: "ProxyLogEntry \<Rightarrow> (LogEntryType \<times> string \<times> string) option" where
  "repeatable_signature e =
     (if \<not> is_repeatable_system_entry e then None
      else Some (le_entry_type e, get_or [] (le_upstream e), le_message e))"

text \<open>One step of the loop that collapses repeated system entries; the list holds what is kept, oldest first.\<close>
definition collapses :: "ProxyLogEntry \<Rightarrow> ProxyLogEntry \<Rightarrow> bool" where
  "collapses last_entry e \<longleftrightarrow> repeatable_signature e \<noteq> None \<and> repeatable_signature last_entry = repeatable_signature e"

definition dedupe_push :: "ProxyLogEntry list \<Rightarrow> ProxyLogEntry \<Rightarrow> ProxyLogEntry list" where
  "dedupe_push out e =
     (if out \<noteq> [] \<and> collapses (last out) e
      then butlast out @ [(last out)\<lparr>le_timestamp := le_timestamp e\<rparr>]
      else out @ [e])"

definition dedupe_consecutive_system_logs :: "ProxyLogEntry list \<Rightarrow> ProxyLogEntry list" where
  "dedupe_consecutive_system_logs entries = foldl dedupe_push [] entries"

section \<open>The log buffer\<close>

record ProxyLog =
  pl_max_entries :: nat
  pl_entries :: "ProxyLogEntry list"

definition proxy_log_new :: "nat \<Rightarrow> ProxyLog" where
  "proxy_log_new max_entries = \<lparr>pl_max_entries = max_entries, pl_entries = []\<rparr>"

definition push_sync :: "nat \<Rightarrow> ProxyLogEntry \<Rightarrow> ProxyLog \<Rightarrow> ProxyLog" where
  "push_sync stored e l =
     (if \<not> ui_log_enabled stored (le_level e) then l
      else
        let es = pl_entries l @ [e] in
        if pl_max_entries l < length es
        then l\<lparr>pl_entries := drop (length es - pl_max_entries l) es\<rparr>
        else l\<lparr>pl_entries := es\<rparr>)"

definition log_recent :: "nat \<Rightarrow> ProxyLog \<Rightarrow> ProxyLogEntry list" where
  "log_recent limit l = drop (length (pl_entries l) - limit) (pl_entries l)"

definition log_len :: "ProxyLog \<Rightarrow> nat" where
  "log_len l = length (pl_entries l)"

section \<open>Counters\<close>

record SiteProtocolCounters =
  sp_h2_requests_total :: u64
  sp_h3_requests_total :: u64

record ProxyMetrics =
  http_requests_total :: u64
  https_requests_total :: u64
  h3_requests_total :: u64
  h2_requests_total :: u64
  upstream_errors_total :: u64
  geoip_blocked_total :: u64
  waf_blocked_total :: u64
  waf_logged_total :: u64
  bot_challenged_total :: u64
  bot_blocked_total :: u64
  captcha_passed_total :: u64
  captcha_failed_total :: u64
  grpc_requests_total :: u64
  active_connections :: u64
  bytes_sent_total :: u64
  bytes_received_total :: u64
  site_protocol_requests :: "(string, SiteProtocolCounters) hmap"

definition metrics_new :: ProxyMetrics where
  "metrics_new =
     \<lparr>http_requests_total = 0, https_requests_total = 0, h3_requests_total = 0, h2_requests_total = 0,
      upstream_errors_total = 0, geoip_blocked_total = 0, waf_blocked_total = 0, waf_logged_total = 0,
      bot_challenged_total = 0, bot_blocked_total = 0, captcha_passed_total = 0, captcha_failed_total = 0,
      grpc_requests_total = 0, active_connections = 0, bytes_sent_total = 0, bytes_received_total = 0,
      site_protocol_requests = []\<rparr>"

definition inc_http_requests :: "ProxyMetrics \<Rightarrow> ProxyMetrics" where
  "inc_http_requests m = m\<lparr>http_requests_total := http_requests_total m + 1\<rparr>"

definition inc_https_requests :: "ProxyMetrics \<Rightarrow> ProxyMetrics" where
  "inc_https_requests m = m\<lparr>https_requests_total := https_requests_total m + 1\<rparr>"

definition inc_h3_requests :: "ProxyMetrics \<Rightarrow> ProxyMetrics" where
  "inc_h3_requests m = m\<lparr>h3_requests_total := h3_requests_total m + 1\<rparr>"

definition inc_h2_requests :: "ProxyMetrics \<Rightarrow> ProxyMetrics" where
  "inc_h2_requests m = m\<lparr>h2_requests_total := h2_requests_total m + 1\<rparr>"

datatype http_version = HTTP_2 | HTTP_3 | HTTP_other

definition inc_site_protocol_requests :: "(string \<Rightarrow> string) \<Rightarrow> string \<Rightarrow> http_version \<Rightarrow> ProxyMetrics \<Rightarrow> ProxyMetrics" where
  "inc_site_protocol_requests lower raw version m =
     (let host = to_lowercase lower (trim raw) in
      if host = [] then m
      else
        let entry = get_or \<lparr>sp_h2_requests_total = 0, sp_h3_requests_total = 0\<rparr> (map_of (site_protocol_requests m) host);
            entry' = (case version of
                HTTP_2 \<Rightarrow> entry\<lparr>sp_h2_requests_total := sp_h2_requests_total entry + 1\<rparr>
              | HTTP_3 \<Rightarrow> entry\<lparr>sp_h3_requests_total := sp_h3_requests_total entry + 1\<rparr>
              | HTTP_other \<Rightarrow> entry)
        in m\<lparr>site_protocol_requests := AList.update host entry' (site_protocol_requests m)\<rparr>)"

definition site_protocol_snapshot :: "ProxyMetrics \<Rightarrow> (string, u64 \<times> u64) hmap" where
  "site_protocol_snapshot m =
     map (\<lambda>(host, c). (host, (sp_h2_requests_total c, sp_h3_requests_total c))) (site_protocol_requests m)"

definition inc_upstream_errors :: "ProxyMetrics \<Rightarrow> ProxyMetrics" where
  "inc_upstream_errors m = m\<lparr>upstream_errors_total := upstream_errors_total m + 1\<rparr>"

definition inc_geoip_blocked :: "ProxyMetrics \<Rightarrow> ProxyMetrics" where
  "inc_geoip_blocked m = m\<lparr>geoip_blocked_total := geoip_blocked_total m + 1\<rparr>"

definition inc_waf_blocked :: "ProxyMetrics \<Rightarrow> ProxyMetrics" where
  "inc_waf_blocked m = m\<lparr>waf_blocked_total := waf_blocked_total m + 1\<rparr>"

definition inc_waf_logged :: "ProxyMetrics \<Rightarrow> ProxyMetrics" where
  "inc_waf_logged m = m\<lparr>waf_logged_total := waf_logged_total m + 1\<rparr>"

definition inc_bot_challenged :: "ProxyMetrics \<Rightarrow> ProxyMetrics" where
  "inc_bot_challenged m = m\<lparr>bot_challenged_total := bot_challenged_total m + 1\<rparr>"

definition inc_bot_blocked :: "ProxyMetrics \<Rightarrow> ProxyMetrics" where
  "inc_bot_blocked m = m\<lparr>bot_blocked_total := bot_blocked_total m + 1\<rparr>"

definition inc_captcha_passed :: "ProxyMetrics \<Rightarrow> ProxyMetrics" where
  "inc_captcha_passed m = m\<lparr>captcha_passed_total := captcha_passed_total m + 1\<rparr>"

definition inc_captcha_failed :: "ProxyMetrics \<Rightarrow> ProxyMetrics" where
  "inc_captcha_failed m = m\<lparr>captcha_failed_total := captcha_failed_total m + 1\<rparr>"

definition inc_grpc_requests :: "ProxyMetrics \<Rightarrow> ProxyMetrics" where
  "inc_grpc_requests m = m\<lparr>grpc_requests_total := grpc_requests_total m + 1\<rparr>"

definition inc_active_connections :: "ProxyMetrics \<Rightarrow> ProxyMetrics" where
  "inc_active_connections m = m\<lparr>active_connections := active_connections m + 1\<rparr>"

definition dec_active_connections :: "ProxyMetrics \<Rightarrow> ProxyMetrics" where
  "dec_active_connections m = m\<lparr>active_connections := active_connections m - 1\<rparr>"

definition add_bytes_sent :: "u64 \<Rightarrow> ProxyMetrics \<Rightarrow> ProxyMetrics" where
  "add_bytes_sent n m = (if 0 < n then m\<lparr>bytes_sent_total := bytes_sent_total m + n\<rparr> else m)"

definition add_bytes_received :: "u64 \<Rightarrow> ProxyMetrics \<Rightarrow> ProxyMetrics" where
  "add_bytes_received n m = (if 0 < n then m\<lparr>bytes_received_total := bytes_received_total m + n\<rparr> else m)"

definition prometheus_escape_label_value :: "string \<Rightarrow> string" where
  "prometheus_escape_label_value v =
     concat (map (\<lambda>c. if c = CHR 0x0A then [CHR 0x5C, CHR ''n''] else [c])
       (concat (map (\<lambda>c. if c = CHR 0x22 then [CHR 0x5C, CHR 0x22] else [c])
         (concat (map (\<lambda>c. if c = CHR 0x5C then [CHR 0x5C, CHR 0x5C] else [c]) v)))))"

definition metrics_enabled_from_env :: "string option \<Rightarrow> bool" where
  "metrics_enabled_from_env var =
     get_or True (map_option (\<lambda>v. to_ascii_lowercase (trim v) \<notin> {''0'', ''false'', ''no'', ''off''}) var)"

lemmas counter_defs [run] = metrics_new_def inc_http_requests_def inc_https_requests_def inc_h3_requests_def
  inc_h2_requests_def inc_site_protocol_requests_def inc_upstream_errors_def inc_geoip_blocked_def
  inc_waf_blocked_def inc_waf_logged_def inc_bot_challenged_def inc_bot_blocked_def inc_captcha_passed_def
  inc_captcha_failed_def inc_grpc_requests_def inc_active_connections_def dec_active_connections_def
  add_bytes_sent_def add_bytes_received_def

lemmas log_defs [run] = min_ui_log_level_def set_min_ui_log_level_def ui_log_enabled_def response_entry_def
  health_check_entry_def error_entry_def config_reload_entry_def tracing_event_def error_with_context_def
  is_repeatable_system_entry_def repeatable_signature_def collapses_def dedupe_push_def
  dedupe_consecutive_system_logs_def proxy_log_new_def push_sync_def log_recent_def less_eq_LogLevel_def

section \<open>The buffer keeps the newest entries\<close>

lemma min_level_stored [simp]: "min_ui_log_level (set_min_ui_log_level level) = level"
  by (cases level) (simp_all add: min_ui_log_level_def set_min_ui_log_level_def)

definition newest :: "nat \<Rightarrow> 'a list \<Rightarrow> 'a list" where
  "newest n xs = drop (length xs - n) xs"

lemma newest_snoc: "newest n (newest n xs @ [x]) = newest n (xs @ [x])"
  by (cases "n \<le> length xs") (auto simp: newest_def drop_append Suc_diff_le)

lemma newest_newest: "newest k (newest n xs) = newest (min k n) xs"
  by (cases "k \<le> n"; cases "n \<le> length xs") (auto simp: newest_def min_def)

lemma newest_Nil [simp]: "newest n [] = []"
  by (simp add: newest_def)

lemma push_sync_newest:
  "pl_max_entries (push_sync s e l) = pl_max_entries l \<and>
   pl_entries (push_sync s e l) = (if ui_log_enabled s (le_level e)
     then newest (pl_max_entries l) (pl_entries l @ [e]) else pl_entries l)"
  by (auto simp: push_sync_def newest_def Let_def)

lemma pushes_newest:
  "pl_max_entries (foldl (\<lambda>l e. push_sync s e l) (proxy_log_new n) es) = n \<and>
   pl_entries (foldl (\<lambda>l e. push_sync s e l) (proxy_log_new n) es) =
     newest n (filter (\<lambda>e. ui_log_enabled s (le_level e)) es)"
  by (induction es rule: rev_induct) (simp_all add: push_sync_newest newest_snoc, simp add: proxy_log_new_def)

lemma log_recent_newest: "log_recent k l = newest k (pl_entries l)"
  by (simp add: log_recent_def newest_def)

section \<open>Collapsed system entries\<close>

lemma signature_stamp [simp]: "repeatable_signature (e\<lparr>le_timestamp := t\<rparr>) = repeatable_signature e"
  "is_repeatable_system_entry (e\<lparr>le_timestamp := t\<rparr>) = is_repeatable_system_entry e"
  by (simp_all add: repeatable_signature_def is_repeatable_system_entry_def)

lemma collapses_repeatable:
  "collapses a e \<Longrightarrow> is_repeatable_system_entry e \<and> is_repeatable_system_entry a"
  by (auto simp: collapses_def repeatable_signature_def split: if_splits)

lemma dedupe_push_apart:
  assumes "successively (\<lambda>a b. \<not> collapses a b) out"
  shows "successively (\<lambda>a b. \<not> collapses a b) (dedupe_push out e)"
proof (cases "out \<noteq> [] \<and> collapses (last out) e")
  case True
  then obtain xs x where "out = xs @ [x]" by (metis append_butlast_last_id)
  with True assms show ?thesis
    by (auto simp: dedupe_push_def successively_append_iff collapses_def)
next
  case False
  with assms show ?thesis by (auto simp: dedupe_push_def successively_append_iff)
qed

lemma dedupe_apart: "successively (\<lambda>a b. \<not> collapses a b) (dedupe_consecutive_system_logs es)"
  unfolding dedupe_consecutive_system_logs_def
  by (induction es rule: rev_induct) (simp_all add: dedupe_push_apart)

lemma dedupe_push_keeps:
  "filter (\<lambda>e. \<not> is_repeatable_system_entry e) (dedupe_push out e) =
   filter (\<lambda>e. \<not> is_repeatable_system_entry e) (out @ [e])"
proof (cases "out \<noteq> [] \<and> collapses (last out) e")
  case True
  then obtain xs x where "out = xs @ [x]" by (metis append_butlast_last_id)
  with True collapses_repeatable show ?thesis by (auto simp: dedupe_push_def)
qed (auto simp: dedupe_push_def)

lemma dedupe_keeps:
  "filter (\<lambda>e. \<not> is_repeatable_system_entry e) (dedupe_consecutive_system_logs es) =
   filter (\<lambda>e. \<not> is_repeatable_system_entry e) es"
  unfolding dedupe_consecutive_system_logs_def
  by (induction es rule: rev_induct) (simp_all add: dedupe_push_keeps)

lemma dedupe_fix:
  "successively (\<lambda>a b. \<not> collapses a b) es \<Longrightarrow> dedupe_consecutive_system_logs es = es"
  unfolding dedupe_consecutive_system_logs_def
  by (induction es rule: rev_induct) (auto simp: successively_append_iff dedupe_push_def)

text \<open>The log view.  Whatever has been pushed, the log shows the newest entries at or above the
  minimum level, in order, at most as many as asked for and as the buffer holds.  Collapsing
  repeated system entries leaves no two neighbours with the same signature, drops no entry of a
  request, and a second pass changes nothing.\<close>
lemma log_view:
  "log_recent k (foldl (\<lambda>l e. push_sync s e l) (proxy_log_new n) es) =
     newest (min k n) (filter (\<lambda>e. min_ui_log_level s \<le> le_level e) es) \<and>
   successively (\<lambda>a b. \<not> collapses a b) (dedupe_consecutive_system_logs es) \<and>
   filter (\<lambda>e. \<not> is_repeatable_system_entry e) (dedupe_consecutive_system_logs es) =
     filter (\<lambda>e. \<not> is_repeatable_system_entry e) es \<and>
   dedupe_consecutive_system_logs (dedupe_consecutive_system_logs es) = dedupe_consecutive_system_logs es"
  using dedupe_apart dedupe_keeps dedupe_fix [OF dedupe_apart]
  by (simp add: log_recent_newest pushes_newest newest_newest ui_log_enabled_def)

end
