(* ===== verification/Gateway.thy ===== *)
theory Gateway
  imports Security Edge_Auth Forward_Plan Cert_Store Grpc Respond Telemetry
begin

text \<open>
  The request pipeline of the proxy over HTTP/1.1 and HTTP/2, from src/src/proxy/mod.rs: what happens
  to a request before it is forwarded (request_filter), where it goes (upstream_peer), what is sent
  upstream (upstream_request_filter), and what is done with the response.  Each block of
  request_filter that may answer the request is one definition; request_filter runs them in the
  order of the code, the first answer ends it.

  The shared tables behind mutexes are the record gw_state, passed through.  The record env holds
  what is outside the repository or outside the process: the header map, the digests, the HTTP
  client of the authentication service, the GeoIP database reader, sockets, files, environment
  variables and the HTML template of the challenge page.  Every reading of a clock and every random
  number has its own field in the record moment.
\<close>

section \<open>Sessions, contexts and state\<close>

datatype socket_addr = Inet string | UnixSocket

record written_response =
  wr_status :: u16
  wr_content_length :: "string option"
  wr_content_encoding :: "string option"

record 'h Session =
  sn_req :: "'h RequestHeader"
  sn_http2 :: bool
  sn_ssl :: bool
  sn_client_addr :: "socket_addr option"
  sn_peer_addr :: "socket_addr option"
  sn_written :: "written_response option"

record RequestCtx =
  rc_strip_prefix :: "string option"
  rc_request_headers :: "(string \<times> string) list"
  rc_response_headers :: "(string \<times> string) list"
  rc_forward_client_ip :: bool
  rc_geoip :: GeoIpPolicy
  rc_security :: SecurityPolicy
  rc_edge :: EdgePolicy
  rc_file_root :: "string option"
  rc_is_grpc :: bool
  rc_is_grpc_web :: bool
  rc_is_long_lived_stream :: bool
  rc_is_websocket :: bool
  rc_is_registry :: bool
  rc_cache_body :: bytes
  rc_cache_status :: u16
  rc_cache_collect :: bool
  rc_cache_key :: "string option"
  rc_cache_type :: string
  rc_rate_client :: "string option"
  rc_rate_host :: "string option"
  rc_log_started :: "nat option"
  rc_log_upstream :: "string option"
  rc_metrics_counted :: bool

definition ctx_default :: RequestCtx where
  "ctx_default =
     \<lparr>rc_strip_prefix = None, rc_request_headers = [], rc_response_headers = [], rc_forward_client_ip = False,
      rc_geoip = geoip_default, rc_security = security_default, rc_edge = edge_policy_default, rc_file_root = None,
      rc_is_grpc = False, rc_is_grpc_web = False, rc_is_long_lived_stream = False, rc_is_websocket = False,
      rc_is_registry = False, rc_cache_body = [], rc_cache_status = 0, rc_cache_collect = False, rc_cache_key = None,
      rc_cache_type = [], rc_rate_client = None, rc_rate_host = None, rc_log_started = None, rc_log_upstream = None,
      rc_metrics_counted = False\<rparr>"

definition ctx_from_middleware :: "MiddlewareAction \<Rightarrow> RequestCtx" where
  "ctx_from_middleware mw =
     \<lparr>rc_strip_prefix = ma_strip_prefix mw, rc_request_headers = ma_request_headers mw,
      rc_response_headers = ma_response_headers mw, rc_forward_client_ip = ma_forward_client_ip mw,
      rc_geoip = ma_geoip mw, rc_security = ma_security mw, rc_edge = ma_edge mw, rc_file_root = ma_file_root mw,
      rc_is_grpc = False, rc_is_grpc_web = False, rc_is_long_lived_stream = False, rc_is_websocket = False,
      rc_is_registry = False, rc_cache_body = [], rc_cache_status = 0, rc_cache_collect = False, rc_cache_key = None,
      rc_cache_type = [], rc_rate_client = None, rc_rate_host = None, rc_log_started = None, rc_log_upstream = None,
      rc_metrics_counted = False\<rparr>"

record Gateway =
  gw_router :: RouteTable
  gw_cert_store :: CertStore
  gw_auto_https :: bool
  gw_https_port :: u16
  gw_enable_h3 :: bool
  gw_h3_port :: u16
  gw_http01_store :: "(string, string) hmap option"

record gw_state =
  gs_forward :: forward_state
  gs_windows :: windows
  gs_cache :: CacheInner
  gs_rates :: rate_map
  gs_metrics :: ProxyMetrics
  gs_log :: ProxyLog

record ('h, 'm) env =
  ev_headers :: "'h header_map"
  ev_var :: "string \<Rightarrow> string option"
  ev_ingress :: bool
  ev_lower :: "string \<Rightarrow> string"
  ev_hmac :: "string \<Rightarrow> bytes \<Rightarrow> bytes"
  ev_mac :: "string \<Rightarrow> string"
  ev_send :: "string \<Rightarrow> (string \<times> string) list \<Rightarrow> u16 option"
  ev_engine :: "'m GeoIpEngine"
  ev_mm_country :: "'m \<Rightarrow> ip_addr \<Rightarrow> string option"
  ev_mm_asn :: "'m \<Rightarrow> ip_addr \<Rightarrow> u32 option"
  ev_tcp :: "string \<Rightarrow> u16 \<Rightarrow> bytes \<Rightarrow> tcp_outcome"
  ev_read_file :: "string \<times> string list \<Rightarrow> bytes option"
  ev_valid_name :: "string \<Rightarrow> bool"
  ev_valid_value :: "string \<Rightarrow> bool"
  ev_set_paq :: "uri \<Rightarrow> string \<Rightarrow> uri option"
  ev_render :: "challenge_fields \<Rightarrow> string"
  ev_install_script :: string
  ev_log_level :: nat
  ev_log_enabled :: bool

record moment =
  mo_probe_start :: nat
  mo_probe_end :: nat
  mo_x4xx :: u64
  mo_rate :: u64
  mo_auth :: u64
  mo_cache :: nat
  mo_log :: nat
  mo_verify :: u64
  mo_challenge :: u64
  mo_a :: u32
  mo_b :: u32
  mo_bot :: nat
  mo_cookie :: u64

section \<open>What a session tells\<close>

abbreviation sn_uri :: "'h Session \<Rightarrow> uri" where
  "sn_uri sn \<equiv> rq_uri (sn_req sn)"

abbreviation sn_get :: "('h, 'm) env \<Rightarrow> 'h Session \<Rightarrow> string \<Rightarrow> string option" where
  "sn_get env sn \<equiv> hm_get (ev_headers env) (rq_headers (sn_req sn))"

definition request_host :: "('h, 'm) env \<Rightarrow> 'h RequestHeader \<Rightarrow> string" where
  "request_host env req =
     (case filter_opt (\<lambda>h. h \<noteq> []) (map_option trim (hm_get (ev_headers env) (rq_headers req) ''host'')) of
        Some host \<Rightarrow> before CHR '':'' host
      | None \<Rightarrow> get_or [] (ur_authority_host (rq_uri req)))"

definition downstream_protocol_label :: "'h Session \<Rightarrow> string" where
  "downstream_protocol_label sn = (if sn_http2 sn then ''h2'' else ''http/1.1'')"

definition protocol_short :: "string \<Rightarrow> string" where
  "protocol_short label = (if label = ''h2'' then ''2'' else if label = ''http/1.1'' then ''1.1'' else label)"

definition server_name :: "'h Session \<Rightarrow> string" where
  "server_name sn = ''pertisk-proxy/'' @ downstream_protocol_label sn"

definition header_str :: "('h, 'm) env \<Rightarrow> 'h RequestHeader \<Rightarrow> string \<Rightarrow> string option" where
  "header_str env req name = hm_get (ev_headers env) (rq_headers req) name"

fun urldecode_loop :: "string \<Rightarrow> string option" where
  "urldecode_loop [] = Some []"
| "urldecode_loop (c # cs) =
     (if c = CHR ''+'' then map_option (Cons CHR '' '') (urldecode_loop cs)
      else (case cs of
          h # l # rest \<Rightarrow>
            if c = CHR ''%'' then
              (case (to_digit 16 h, to_digit 16 l) of
                 (Some hi, Some lo) \<Rightarrow> map_option (Cons (char_of (hi * 16 + lo))) (urldecode_loop rest)
               | _ \<Rightarrow> None)
            else map_option (Cons c) (urldecode_loop cs)
        | _ \<Rightarrow> map_option (Cons c) (urldecode_loop cs)))"

definition urlencoding_decode :: "string \<Rightarrow> string option" where
  "urlencoding_decode input = filter_opt utf8_ok (urldecode_loop input)"

definition decoded_query_param :: "string \<Rightarrow> string \<Rightarrow> string option" where
  "decoded_query_param query key =
     map_option (\<lambda>v. get_or (replace_char CHR ''+'' CHR '' '' v) (urlencoding_decode v)) (query_param query key)"

definition as_inet :: "socket_addr \<Rightarrow> string option" where
  "as_inet a = (case a of Inet ip \<Rightarrow> Some ip | UnixSocket \<Rightarrow> None)"

definition session_client_ip :: "('h, 'm) env \<Rightarrow> 'h Session \<Rightarrow> string option" where
  "session_client_ip env sn =
     resolve_client_ip (Option.bind (or_else (sn_client_addr sn) (sn_peer_addr sn)) as_inet)
       (sn_get env sn ''x-forwarded-for'') (sn_get env sn ''x-real-ip'')"

definition is_downstream_tls :: "('h, 'm) env \<Rightarrow> 'h Session \<Rightarrow> bool" where
  "is_downstream_tls env sn =
     (if sn_ssl sn then True
      else if sn_http2 sn then True
      else ur_scheme (sn_uri sn) \<in> {Some ''https'', Some ''wss''} \<or> sn_get env sn ''x-forwarded-proto'' = Some ''https'')"

definition is_plain_http :: "('h, 'm) env \<Rightarrow> 'h Session \<Rightarrow> bool" where
  "is_plain_http env sn =
     (if sn_get env sn ''x-forwarded-proto'' = Some ''https'' then False
      else ur_scheme (sn_uri sn) \<notin> {Some ''https'', Some ''wss''})"

definition alt_svc_header_value :: "bool \<Rightarrow> u16 \<Rightarrow> string \<Rightarrow> RequestCtx \<Rightarrow> string option" where
  "alt_svc_header_value enable_h3 h3_port host ctx =
     (if rc_is_grpc ctx \<or> rc_is_long_lived_stream ctx \<or> is_machine_api_host host then Some ''clear''
      else if enable_h3 then
        let port = [CHR 0x22] @ '':'' @ show_word h3_port @ [CHR 0x22] @ ''; ma=86400; persist=1''
        in Some (''h3='' @ port @ '', h3-29='' @ port)
      else None)"

section \<open>Before routing\<close>

definition with_metrics :: "(ProxyMetrics \<Rightarrow> ProxyMetrics) \<Rightarrow> gw_state \<Rightarrow> gw_state" where
  "with_metrics f st = st\<lparr>gs_metrics := f (gs_metrics st)\<rparr>"

definition early_request_filter :: "('h, 'm) env \<Rightarrow> nat \<Rightarrow> 'h Session \<Rightarrow> RequestCtx \<Rightarrow> gw_state \<Rightarrow>
    (RequestCtx \<times> stream_timeouts option) \<times> gw_state" where
  "early_request_filter env now sn ctx st =
     (let H = ev_headers env; req = sn_req sn; h = rq_headers req; path = ur_path (rq_uri req); verb = rq_method req;
          st1 = with_metrics inc_active_connections st;
          (is_grpc, is_grpc_web) = classify_grpc_request H h verb path (request_host env req);
          websocket = is_websocket_upgrade H verb h;
          long_lived = (websocket \<or> is_long_lived_api_stream H verb path h);
          registry = is_oci_registry_path path;
          timeouts = (if registry then Some (prepare_registry_downstream_session (ev_var env))
                      else if long_lived then Some (prepare_long_lived_downstream_session (ev_var env))
                      else None);
          ctx1 = ctx\<lparr>rc_log_started := Some now, rc_metrics_counted := True, rc_is_long_lived_stream := long_lived,
                     rc_is_websocket := websocket, rc_is_registry := registry\<rparr>;
          ctx2 = (if is_grpc then ctx1\<lparr>rc_is_grpc := True, rc_is_grpc_web := is_grpc_web\<rparr> else ctx1)
      in ((ctx2, timeouts), st1))"

text \<open>A stage answers the request (Some) or lets it pass on (None).\<close>

type_synonym stage = "RequestCtx \<Rightarrow> gw_state \<Rightarrow> outcome option \<times> RequestCtx \<times> gw_state"

fun run_stages :: "stage list \<Rightarrow> RequestCtx \<Rightarrow> gw_state \<Rightarrow> outcome \<times> RequestCtx \<times> gw_state" where
  "run_stages [] ctx st = (Proceed, ctx, st)"
| "run_stages (f # fs) ctx st =
     (case f ctx st of
        (Some out, ctx', st') \<Rightarrow> (out, ctx', st')
      | (None, ctx', st') \<Rightarrow> run_stages fs ctx' st')"

definition probe_stage :: "('h, 'm) env \<Rightarrow> 'h Session \<Rightarrow> stage" where
  "probe_stage env sn ctx st =
     (map_option Reply (try_respond_health (ev_ingress env) (rq_method (sn_req sn)) (ur_path (sn_uri sn)) (server_name sn)), ctx, st)"

definition acme_stage :: "('h, 'm) env \<Rightarrow> Gateway \<Rightarrow> 'h Session \<Rightarrow> stage" where
  "acme_stage env gw sn ctx st =
     (case Option.bind (gw_http01_store gw) (\<lambda>store.
         Option.bind (strip_prefix ''/.well-known/acme-challenge/'' (ur_path (sn_uri sn))) (\<lambda>raw.
           let token = trim_end_matches CHR ''/'' raw in if token = [] then None else map_of store token)) of
        Some body \<Rightarrow>
          (Some (Reply \<lparr>rs_status = 200, rs_headers = [(''Content-Type'', ''text/plain''), (''X-App-Name'', app_name (ev_ingress env))],
             rs_body = as_bytes body\<rparr>), ctx, st)
      | None \<Rightarrow> (None, ctx, st))"

definition installer_stage :: "('h, 'm) env \<Rightarrow> 'h Session \<Rightarrow> stage" where
  "installer_stage env sn ctx st =
     (if is_installer_host (ev_var env ''PERTISK_INSTALLER_HOST'') (request_host env (sn_req sn))
      then (Some (Reply (respond_installer (ev_ingress env) (ev_install_script env) (server_name sn))), ctx, st)
      else (None, ctx, st))"

definition redirect_https :: "('h, 'm) env \<Rightarrow> Gateway \<Rightarrow> string \<Rightarrow> string \<Rightarrow> outcome" where
  "redirect_https env gw host path_q =
     (let port_suffix = (if gw_https_port gw = 443 then [] else '':'' @ show_word (gw_https_port gw));
          target = ''https://'' @ host @ port_suffix @ path_q
      in if \<not> ev_valid_value env target then Fail
         else Reply \<lparr>rs_status = 308,
           rs_headers = [(''Location'', target), (''Content-Length'', ''0''), (''X-App-Name'', app_name (ev_ingress env))],
           rs_body = []\<rparr>)"

definition auto_https_stage :: "('h, 'm) env \<Rightarrow> Gateway \<Rightarrow> 'h Session \<Rightarrow> stage" where
  "auto_https_stage env gw sn ctx st =
     (if gw_auto_https gw \<and> is_plain_http env sn then
        let host0 = request_host env (sn_req sn);
            host = (if host0 = [] then ''localhost'' else host0)
        in if deny_enabled (ev_var env ''PERTISK_DEFAULT_DENY'') \<and> host \<noteq> [] \<and> host \<noteq> ''localhost'' \<and>
              \<not> has_host (gw_router gw) host
           then (Some (Reply (respond_pingora (ev_ingress env) False (server_name sn))), ctx, st)
           else if \<not> has_cert_for_host (gw_cert_store gw) host then (Some Proceed, ctx, st)
           else (Some (redirect_https env gw host (uri_path_q (sn_uri sn))), ctx, st)
      else (None, ctx, st))"

definition unknown_host_stage :: "('h, 'm) env \<Rightarrow> Gateway \<Rightarrow> 'h Session \<Rightarrow> stage" where
  "unknown_host_stage env gw sn ctx st =
     (let host = request_host env (sn_req sn) in
      if deny_enabled (ev_var env ''PERTISK_DEFAULT_DENY'') \<and> host \<noteq> [] \<and> \<not> has_host (gw_router gw) host
      then (Some (Reply (respond_pingora (ev_ingress env) (is_downstream_tls env sn) (server_name sn))), ctx, st)
      else (None, ctx, st))"

section \<open>Route policies\<close>

definition reset_ctx :: "MiddlewareAction \<Rightarrow> RequestCtx \<Rightarrow> RequestCtx" where
  "reset_ctx mw ctx =
     (ctx_from_middleware mw)\<lparr>rc_is_grpc := rc_is_grpc ctx, rc_is_grpc_web := rc_is_grpc_web ctx,
        rc_is_long_lived_stream := rc_is_long_lived_stream ctx, rc_is_websocket := rc_is_websocket ctx,
        rc_is_registry := rc_is_registry ctx\<rparr>"

definition route_stage :: "('h, 'm) env \<Rightarrow> moment \<Rightarrow> Gateway \<Rightarrow> 'h Session \<Rightarrow> stage" where
  "route_stage env t gw sn ctx st =
     (case resolve_forward (ev_tcp env) (mo_probe_start t) (mo_probe_end t) (gw_router gw)
             (request_host env (sn_req sn)) (uri_path_q (sn_uri sn)) (gs_forward st) of
        (Inr plan, fs) \<Rightarrow> (None, reset_ctx (fp_middleware plan) ctx, st\<lparr>gs_forward := fs\<rparr>)
      | (Inl _, fs) \<Rightarrow> (None, ctx, st\<lparr>gs_forward := fs\<rparr>))"

definition too_many :: "('h, 'm) env \<Rightarrow> 'h Session \<Rightarrow> string \<Rightarrow> outcome" where
  "too_many env sn body =
     Reply (respond_html (ev_ingress env) (server_name sn) 429 ''text/plain'' body [(''Retry-After'', ''1'')])"

definition x4xx_stage :: "('h, 'm) env \<Rightarrow> moment \<Rightarrow> 'h Session \<Rightarrow> stage" where
  "x4xx_stage env t sn ctx st =
     (if 0 < ep_x4xx_limit_rps (rc_edge ctx) \<and>
         x4xx_blocked (mo_x4xx t) (get_or ''-'' (session_client_ip env sn)) (request_host env (sn_req sn))
           (ep_x4xx_limit_rps (rc_edge ctx)) (gs_windows st)
      then (Some (too_many env sn ''too many errors''), ctx, st)
      else (None, ctx, st))"

definition rate_key :: "string option \<Rightarrow> string \<Rightarrow> string" where
  "rate_key client_ip host = ''rps|'' @ get_or ''-'' client_ip @ ''|'' @ host"

definition rate_stage :: "('h, 'm) env \<Rightarrow> moment \<Rightarrow> 'h Session \<Rightarrow> stage" where
  "rate_stage env t sn ctx st =
     (let client_ip = session_client_ip env sn;
          host = request_host env (sn_req sn);
          (limited, w) = (if 0 < ep_rate_limit_rps (rc_edge ctx)
             then rate_limited (mo_rate t) (rate_key client_ip host) (ep_rate_limit_rps (rc_edge ctx)) (gs_windows st)
             else (False, gs_windows st));
          st1 = st\<lparr>gs_windows := w\<rparr>
      in if limited then (Some (too_many env sn ''too many requests''), ctx, st1)
         else (None, ctx\<lparr>rc_rate_client := client_ip, rc_rate_host := Some host\<rparr>, st1))"

definition auth_ok :: "('h, 'm) env \<Rightarrow> moment \<Rightarrow> 'h Session \<Rightarrow> RouteAuth \<Rightarrow> bool" where
  "auth_ok env t sn auth =
     (case auth of
        Forward url \<Rightarrow> forward_auth_ok (ev_send env) url (request_host env (sn_req sn)) (ur_path (sn_uri sn)) (sn_get env sn)
      | other \<Rightarrow> auth_header_ok (ev_hmac env) (mo_auth t) other (sn_get env sn) (get_or [] (ur_query (sn_uri sn))))"

definition auth_stage :: "('h, 'm) env \<Rightarrow> moment \<Rightarrow> 'h Session \<Rightarrow> stage" where
  "auth_stage env t sn ctx st =
     (case ep_auth (rc_edge ctx) of
        None \<Rightarrow> (None, ctx, st)
      | Some auth \<Rightarrow>
          if auth_ok env t sn auth then (None, ctx, st)
          else
            let extra = [(''X-Pertisk-Block'', ''auth'')] @
                  (case auth of
                     Basic _ _ \<Rightarrow> [(''WWW-Authenticate'', ''Basic realm='' @ [CHR 0x22] @ ''pertisk'' @ [CHR 0x22])]
                   | _ \<Rightarrow> [])
            in (Some (Reply (respond_html (ev_ingress env) (server_name sn) 401 ''text/plain'' ''unauthorized'' extra)), ctx, st))"

definition file_stage :: "('h, 'm) env \<Rightarrow> 'h Session \<Rightarrow> stage" where
  "file_stage env sn ctx st =
     (case rc_file_root ctx of
        None \<Rightarrow> (None, ctx, st)
      | Some root \<Rightarrow>
          (case Option.bind (safe_file root (ur_path (sn_uri sn))) (\<lambda>p. map_option (\<lambda>body. (p, body)) (ev_read_file env p)) of
             Some ((_, parts), body) \<Rightarrow>
               (Some (Reply \<lparr>rs_status = 200,
                  rs_headers = [(''Content-Type'', guess_mime (join ''/'' parts)), (''Content-Length'', show_nat (length body)),
                                (''Server'', server_name sn), (''X-App-Name'', app_name (ev_ingress env))],
                  rs_body = body\<rparr>), ctx, st)
           | None \<Rightarrow>
               (Some (Reply (respond_html (ev_ingress env) (server_name sn) 404 ''text/plain'' ''not found'' [])), ctx, st)))"

definition cache_key_of :: "('h, 'm) env \<Rightarrow> 'h Session \<Rightarrow> string" where
  "cache_key_of env sn = ''GET '' @ request_host env (sn_req sn) @ uri_path_q (sn_uri sn)"

definition cache_applies :: "Gateway \<Rightarrow> 'h Session \<Rightarrow> RequestCtx \<Rightarrow> bool" where
  "cache_applies gw sn ctx \<longleftrightarrow> \<not> rc_is_grpc ctx \<and> \<not> rc_is_websocket ctx \<and> \<not> rc_is_long_lived_stream ctx \<and>
     rq_method (sn_req sn) = ''GET'' \<and> ep_auth (rc_edge ctx) = None \<and> cache_enabled (tb_globals (gw_router gw)) (rc_edge ctx)"

definition cache_hit :: "('h, 'm) env \<Rightarrow> CachedResponse \<Rightarrow> Response" where
  "cache_hit env hit =
     \<lparr>rs_status = (if 100 \<le> cr_status hit \<and> cr_status hit < 1000 then cr_status hit else 200),
      rs_headers = filter (\<lambda>(n, v). ev_valid_name env n \<and> ev_valid_value env v) (cr_headers hit) @
        [(''X-Cache'', ''HIT''), (''X-App-Name'', app_name (ev_ingress env))],
      rs_body = cr_body hit\<rparr>"

definition cache_stage :: "('h, 'm) env \<Rightarrow> moment \<Rightarrow> Gateway \<Rightarrow> 'h Session \<Rightarrow> stage" where
  "cache_stage env t gw sn ctx st =
     (if \<not> cache_applies gw sn ctx then (None, ctx, st)
      else
        let key = cache_key_of env sn;
            (found, c) = cache_get (mo_cache t) key (gs_cache st);
            st1 = st\<lparr>gs_cache := c\<rparr>
        in case found of
             Some hit \<Rightarrow> (Some (Reply (cache_hit env hit)), ctx, st1)
           | None \<Rightarrow> (None, ctx\<lparr>rc_cache_collect := True, rc_cache_key := Some key\<rparr>, st1))"

definition geoip_decision :: "('h, 'm) env \<Rightarrow> 'h Session \<Rightarrow> RequestCtx \<Rightarrow> Decision" where
  "geoip_decision env sn ctx =
     evaluate_ip (ev_mm_country env) (ev_mm_asn env) (ev_engine env) (rc_geoip ctx) (session_client_ip env sn)"

definition geoip_reason :: "Decision \<Rightarrow> string" where
  "geoip_reason d = (case d of BlockCountry \<Rightarrow> ''geoip-country'' | BlockAsn \<Rightarrow> ''geoip-asn'' | Allow \<Rightarrow> [])"

definition geoip_stage :: "('h, 'm) env \<Rightarrow> moment \<Rightarrow> 'h Session \<Rightarrow> stage" where
  "geoip_stage env t sn ctx st =
     (if \<not> geoip_is_active (rc_geoip ctx) then (None, ctx, st)
      else
        let d = geoip_decision env sn ctx in
        if d = Allow then (None, ctx, st)
        else
          let reason = geoip_reason d;
              entry = error_with_context (mo_log t) (request_host env (sn_req sn)) (ur_path (sn_uri sn))
                (get_or ''-'' (session_client_ip env sn)) (''GeoIP blocked ('' @ reason @ '')'');
              st1 = (with_metrics inc_geoip_blocked st)\<lparr>gs_log := push_sync (ev_log_level env) entry (gs_log st)\<rparr>
          in (Some (Reply (respond_forbidden (ev_ingress env) (server_name sn) reason)), ctx, st1))"

definition challenge_reply :: "('h, 'm) env \<Rightarrow> moment \<Rightarrow> 'h Session \<Rightarrow> u16 \<Rightarrow> string \<Rightarrow> string \<Rightarrow>
    (string \<times> string) list \<Rightarrow> outcome" where
  "challenge_reply env t sn status next_path reason extra =
     Reply (respond_html (ev_ingress env) (server_name sn) status ''text/html; charset=utf-8''
       (ev_render env (challenge_page (ev_mac env) (mo_challenge t) (mo_a t) (mo_b t) next_path reason)) extra)"

definition captcha_ttl :: "SecurityPolicy \<Rightarrow> u64" where
  "captcha_ttl p = (if cp_enabled (sp_captcha p) then cookie_ttl_secs (sp_captcha p) else 86400)"

definition captcha_stage :: "('h, 'm) env \<Rightarrow> moment \<Rightarrow> 'h Session \<Rightarrow> stage" where
  "captcha_stage env t sn ctx st =
     (let path = ur_path (sn_uri sn); query = get_or [] (ur_query (sn_uri sn)) in
      if \<not> is_captcha_path path then (None, ctx, st)
      else if path = CAPTCHA_VERIFY_PATH then
        let next_path = decoded_query_param query ''next'' in
        (case verify_and_pass_cookie (ev_mac env) (mo_verify t) (decoded_query_param query ''token'')
                (decoded_query_param query ''answer'') next_path (session_client_ip env sn) (captcha_ttl (rc_security ctx)) of
           Inr (set_cookie, location) \<Rightarrow>
             (Some (respond_redirect (ev_valid_value env) (ev_ingress env) (server_name sn) location (Some set_cookie)), ctx,
              with_metrics inc_captcha_passed st)
         | Inl _ \<Rightarrow>
             (Some (challenge_reply env t sn 403 (get_or ''/'' next_path) ''retry'' [(''X-Pertisk-Block'', ''captcha-failed'')]), ctx,
              with_metrics inc_captcha_failed st))
      else (Some (challenge_reply env t sn 200 (get_or ''/'' (decoded_query_param query ''next'')) ''check'' []), ctx, st))"

definition request_view :: "('h, 'm) env \<Rightarrow> 'h Session \<Rightarrow> RequestView" where
  "request_view env sn =
     \<lparr>rv_method = rq_method (sn_req sn), rv_path = ur_path (sn_uri sn), rv_query = get_or [] (ur_query (sn_uri sn)),
      rv_user_agent = header_str env (sn_req sn) ''user-agent'', rv_accept = header_str env (sn_req sn) ''accept'',
      rv_accept_language = header_str env (sn_req sn) ''accept-language'', rv_cookie = header_str env (sn_req sn) ''cookie'',
      rv_client_ip = session_client_ip env sn\<rparr>"

definition security_stage :: "('h, 'm) env \<Rightarrow> moment \<Rightarrow> 'h Session \<Rightarrow> stage" where
  "security_stage env t sn ctx st =
     (if \<not> security_is_active (rc_security ctx) then (None, ctx, st)
      else
        let (d, rates) = security_evaluate (ev_mac env) (mo_bot t) (mo_cookie t) (rc_security ctx) (request_view env sn) (gs_rates st);
            st1 = st\<lparr>gs_rates := rates\<rparr>;
            path = ur_path (sn_uri sn); query = get_or [] (ur_query (sn_uri sn))
        in case sd_action d of
             SecAllow \<Rightarrow> (None, ctx, st1)
           | SecLog \<Rightarrow> (None, ctx, with_metrics inc_waf_logged st1)
           | SecChallenge \<Rightarrow>
               (Some (challenge_reply env t sn 403 (if query = [] then path else path @ ''?'' @ query) (sd_reason d)
                  [(''X-Pertisk-Block'', sd_reason d)]), ctx,
                if starts_with (sd_reason d) ''bot'' then with_metrics inc_bot_challenged st1 else st1)
           | SecBlock \<Rightarrow>
               (Some (Reply (respond_forbidden (ev_ingress env) (server_name sn) (sd_reason d))), ctx,
                if starts_with (sd_reason d) ''waf'' then with_metrics inc_waf_blocked st1
                else if starts_with (sd_reason d) ''bot'' then with_metrics inc_bot_blocked st1 else st1))"

definition grpc_stage :: "'h Session \<Rightarrow> stage" where
  "grpc_stage sn ctx st =
     (if \<not> rc_is_grpc ctx then (None, ctx, st)
      else case validate_downstream (rq_method (sn_req sn)) (sn_http2 sn) (rc_is_grpc_web ctx) of
             Some e \<Rightarrow> (Some (Reply (respond_error 2 (grpc_message e) (rc_is_grpc_web ctx))), ctx, st)
           | None \<Rightarrow> (None, ctx, st))"

definition request_filter :: "('h, 'm) env \<Rightarrow> moment \<Rightarrow> Gateway \<Rightarrow> 'h Session \<Rightarrow> RequestCtx \<Rightarrow> gw_state \<Rightarrow>
    outcome \<times> RequestCtx \<times> gw_state" where
  "request_filter env t gw sn =
     run_stages [probe_stage env sn, acme_stage env gw sn, installer_stage env sn, auto_https_stage env gw sn,
       unknown_host_stage env gw sn, route_stage env t gw sn, x4xx_stage env t sn, rate_stage env t sn,
       auth_stage env t sn, file_stage env sn, cache_stage env t gw sn, geoip_stage env t sn,
       captcha_stage env t sn, security_stage env t sn, grpc_stage sn]"

section \<open>Upstream\<close>

datatype alpn = AlpnH1 | AlpnH2

text \<open>The options of the peer that the proxy sets; None stands for the default of the library.\<close>
record HttpPeer =
  hp_host :: string
  hp_port :: u16
  hp_tls :: bool
  hp_sni :: string
  hp_verify_cert :: "bool option"
  hp_alpn :: "alpn option"
  hp_max_h2_streams :: "nat option"
  hp_h2_ping_interval :: "duration option"
  hp_read_timeout :: "duration option"
  hp_write_timeout :: "duration option"
  hp_idle_timeout :: "duration option"

definition peer_new :: "string \<Rightarrow> u16 \<Rightarrow> bool \<Rightarrow> string \<Rightarrow> HttpPeer" where
  "peer_new host port tls sni =
     \<lparr>hp_host = host, hp_port = port, hp_tls = tls, hp_sni = sni, hp_verify_cert = None, hp_alpn = None,
      hp_max_h2_streams = None, hp_h2_ping_interval = None, hp_read_timeout = None, hp_write_timeout = None,
      hp_idle_timeout = None\<rparr>"

definition set_peer_timeouts :: "duration \<Rightarrow> HttpPeer \<Rightarrow> HttpPeer" where
  "set_peer_timeouts timeout p =
     (if timeout = DurationMax then p
      else p\<lparr>hp_read_timeout := Some timeout, hp_write_timeout := Some timeout, hp_idle_timeout := Some timeout\<rparr>)"

definition configure_upstream_peer :: "(string \<Rightarrow> string option) \<Rightarrow> string \<Rightarrow> u16 \<Rightarrow> string \<Rightarrow> bool \<Rightarrow> RequestCtx \<Rightarrow> HttpPeer" where
  "configure_upstream_peer var peer_host peer_port sni use_tls ctx =
     (let p0 = peer_new peer_host peer_port use_tls sni;
          p1 = (if use_tls then p0\<lparr>hp_verify_cert := Some False\<rparr> else p0);
          p2 = (if is_h2c_only_upstream sni peer_port \<or> uses_h2c_upstream (rc_is_grpc ctx) (rc_is_grpc_web ctx)
                then p1\<lparr>hp_alpn := Some AlpnH2, hp_max_h2_streams := Some 128,
                        hp_h2_ping_interval := Some (grpc_h2_ping_interval var)\<rparr>
                else if rc_is_websocket ctx then p1\<lparr>hp_alpn := Some AlpnH1\<rparr>
                else p1)
      in if rc_is_grpc ctx \<or> rc_is_long_lived_stream ctx then set_peer_timeouts (grpc_upstream_timeout var) p2
         else if rc_is_registry ctx then set_peer_timeouts (registry_upstream_timeout var) p2
         else p2)"

definition upstream_peer :: "('h, 'm) env \<Rightarrow> moment \<Rightarrow> Gateway \<Rightarrow> 'h Session \<Rightarrow> RequestCtx \<Rightarrow> gw_state \<Rightarrow>
    (forward_error + HttpPeer) \<times> RequestCtx \<times> gw_state" where
  "upstream_peer env t gw sn ctx st =
     (let host = request_host env (sn_req sn) in
      case resolve_forward (ev_tcp env) (mo_probe_start t) (mo_probe_end t) (gw_router gw) host
             (uri_path_q (sn_uri sn)) (gs_forward st) of
        (Inl e, fs) \<Rightarrow> (Inl e, ctx, st\<lparr>gs_forward := fs\<rparr>)
      | (Inr plan, fs) \<Rightarrow>
          (let ctx1 = (if rc_strip_prefix ctx = None \<and> rc_request_headers ctx = [] \<and> rc_response_headers ctx = []
                       then reset_ctx (fp_middleware plan) ctx else ctx);
               peer = configure_upstream_peer (ev_var env) (fp_peer_host plan) (fp_peer_port plan) host (fp_use_tls plan) ctx1
           in (Inr peer, ctx1\<lparr>rc_log_upstream := Some (fp_peer_host plan @ '':'' @ show_word (fp_peer_port plan))\<rparr>,
               st\<lparr>gs_forward := fs\<rparr>)))"

definition inject_forwarded_client_ip :: "'h header_map \<Rightarrow> string \<Rightarrow> 'h \<Rightarrow> 'h" where
  "inject_forwarded_client_ip H client_ip h =
     insert_headers H (forwarded_client_ip_header_pairs client_ip (hm_get H h ''x-forwarded-for'')) h"

definition strip_upstream_path :: "(uri \<Rightarrow> string \<Rightarrow> uri option) \<Rightarrow> RequestCtx \<Rightarrow> 'h RequestHeader \<Rightarrow> 'h RequestHeader option" where
  "strip_upstream_path set_paq ctx req =
     (case rc_strip_prefix ctx of
        None \<Rightarrow> Some req
      | Some pre \<Rightarrow>
          if rc_is_grpc_web ctx then Some req
          else
            (case strip_prefix pre (ur_path (rq_uri req)) of
               None \<Rightarrow> Some req
             | Some stripped \<Rightarrow>
                 map_option (\<lambda>u. req\<lparr>rq_uri := u\<rparr>) (set_paq (rq_uri req) (if stripped = [] then ''/'' else stripped))))"

definition forward_headers :: "('h, 'm) env \<Rightarrow> 'h Session \<Rightarrow> RequestCtx \<Rightarrow> 'h \<Rightarrow> 'h" where
  "forward_headers env sn ctx h =
     (let H = ev_headers env; host = request_host env (sn_req sn);
          h1 = (if host \<noteq> [] then hm_insert H h ''Host'' host else h);
          h2 = (if \<not> rc_is_registry ctx \<and> is_downstream_tls env sn
                then insert_headers H [(''X-Forwarded-Proto'', ''https''), (''X-Forwarded-Host'', host)] h1 else h1)
      in if rc_is_registry ctx then h2
         else (case session_client_ip env sn of Some ip \<Rightarrow> inject_forwarded_client_ip H ip h2 | None \<Rightarrow> h2))"

definition registry_upstream :: "('h, 'm) env \<Rightarrow> 'h Session \<Rightarrow> 'h RequestHeader \<Rightarrow> 'h RequestHeader" where
  "registry_upstream env sn req =
     (if is_oci_registry_path (ur_path (rq_uri req)) then
        let H = ev_headers env; r = normalize_registry_token_request H req;
            client_ip = Option.bind (sn_client_addr sn) as_inet
        in r\<lparr>rq_headers := prepare_registry_upstream_request H (rq_method r) (ur_path (rq_uri r))
               (request_host env (sn_req sn)) client_ip (is_downstream_tls env sn) (rq_headers r)\<rparr>
      else req)"

definition grpc_upstream :: "('h, 'm) env \<Rightarrow> RequestCtx \<Rightarrow> 'h RequestHeader \<Rightarrow> 'h RequestHeader option" where
  "grpc_upstream env ctx req =
     (let H = ev_headers env;
          r1 = (if rc_is_grpc ctx \<or> rc_is_long_lived_stream ctx
                then req\<lparr>rq_headers := prepare_upstream_streaming_request H (rq_headers req)\<rparr> else req)
      in if \<not> rc_is_grpc ctx then Some r1
         else map_option (\<lambda>r2. r2\<lparr>rq_headers := prepare_upstream_request H (rc_is_grpc_web ctx) (rq_headers r2)\<rparr>)
                (if rc_is_grpc_web ctx then Some r1 else rewrite_upstream_grpc_path (ev_set_paq env) r1))"

definition upstream_request_filter :: "('h, 'm) env \<Rightarrow> 'h Session \<Rightarrow> RequestCtx \<Rightarrow> 'h RequestHeader \<Rightarrow> 'h RequestHeader option" where
  "upstream_request_filter env sn ctx req =
     Option.bind (strip_upstream_path (ev_set_paq env) ctx (req\<lparr>rq_headers := forward_headers env sn ctx (rq_headers req)\<rparr>)) (\<lambda>r.
       grpc_upstream env ctx
         (registry_upstream env sn
           (r\<lparr>rq_headers := merge_cookie_headers (ev_headers env) (insert_headers (ev_headers env) (rc_request_headers ctx) (rq_headers r))\<rparr>)))"

section \<open>Responses\<close>

record 'h ResponseHeader =
  up_status :: u16
  up_headers :: 'h

definition is_event_stream :: "'h header_map \<Rightarrow> 'h \<Rightarrow> bool" where
  "is_event_stream H h = (case hm_get H h ''content-type'' of Some ct \<Rightarrow> starts_with ct ''text/event-stream'' | None \<Rightarrow> False)"

definition response_cacheable :: "'h header_map \<Rightarrow> 'h ResponseHeader \<Rightarrow> bool" where
  "response_cacheable H resp \<longleftrightarrow> 200 \<le> up_status resp \<and> up_status resp < 300 \<and>
     get_or True (map_option (\<lambda>v. let l = to_ascii_lowercase v in \<not> contains_str l ''no-store'' \<and> \<not> contains_str l ''private'')
       (hm_get H (up_headers resp) ''cache-control''))"

definition response_headers_for :: "('h, 'm) env \<Rightarrow> 'h Session \<Rightarrow> RequestCtx \<Rightarrow> 'h ResponseHeader \<Rightarrow> 'h" where
  "response_headers_for env sn ctx resp =
     (let H = ev_headers env;
          streaming = (rc_is_long_lived_stream ctx \<or> (rc_is_grpc ctx \<and> is_grpc_server_streaming (ur_path (sn_uri sn))))
      in if rc_is_websocket ctx \<or> up_status resp = 101 then up_headers resp
         else if streaming \<and> 200 \<le> up_status resp \<and> up_status resp < 300
         then prepare_streaming_response_headers H (up_headers resp)
         else if rc_is_grpc ctx \<or> rc_is_long_lived_stream ctx \<or> sn_http2 sn
         then strip_hop_by_hop_response_headers H (up_headers resp)
         else up_headers resp)"

definition collect_decision :: "'h header_map \<Rightarrow> 'h ResponseHeader \<Rightarrow> RequestCtx \<Rightarrow> RequestCtx" where
  "collect_decision H resp ctx =
     (if \<not> rc_cache_collect ctx then ctx
      else if response_cacheable H resp
      then ctx\<lparr>rc_cache_collect := True,
               rc_cache_type := get_or ''application/octet-stream'' (hm_get H (up_headers resp) ''content-type'')\<rparr>
      else ctx\<lparr>rc_cache_collect := False\<rparr>)"

definition response_filter :: "('h, 'm) env \<Rightarrow> u64 \<Rightarrow> 'h Session \<Rightarrow> 'h ResponseHeader \<Rightarrow> RequestCtx \<Rightarrow> gw_state \<Rightarrow>
    'h ResponseHeader \<times> RequestCtx \<times> gw_state" where
  "response_filter env now sn resp ctx st =
     (let H = ev_headers env;
          ctx1 = (if is_event_stream H (up_headers resp) then ctx\<lparr>rc_is_long_lived_stream := True\<rparr> else ctx);
          resp1 = resp\<lparr>up_headers := response_headers_for env sn ctx1 resp\<rparr>;
          ctx2 = collect_decision H resp1 (ctx1\<lparr>rc_cache_status := up_status resp\<rparr>);
          st1 = (if 400 \<le> up_status resp \<and> up_status resp < 500
                 then (case (rc_rate_client ctx2, rc_rate_host ctx2) of
                         (Some ip, Some host) \<Rightarrow> st\<lparr>gs_windows := note_4xx now ip host (gs_windows st)\<rparr>
                       | _ \<Rightarrow> st)
                 else st)
      in (resp1, ctx2, st1))"

definition upstream_response_filter :: "('h, 'm) env \<Rightarrow> Gateway \<Rightarrow> 'h Session \<Rightarrow> 'h ResponseHeader \<Rightarrow> RequestCtx \<Rightarrow>
    'h ResponseHeader \<times> RequestCtx" where
  "upstream_response_filter env gw sn resp ctx =
     (let H = ev_headers env; host = request_host env (sn_req sn); tls = is_downstream_tls env sn;
          h1 = insert_headers H [(''Server'', server_name sn), (''X-App-Name'', app_name (ev_ingress env))] (up_headers resp);
          ctx1 = (if is_event_stream H h1 then ctx\<lparr>rc_is_long_lived_stream := True\<rparr> else ctx);
          h2 = (if is_oci_registry_path (ur_path (sn_uri sn)) then prepare_registry_response_headers H tls h1
                else case alt_svc_header_value (gw_enable_h3 gw) (gw_h3_port gw) host ctx1 of
                       Some alt_svc \<Rightarrow> hm_insert H h1 ''Alt-Svc'' alt_svc
                     | None \<Rightarrow> if tls then hm_insert H h1 ''Alt-Svc'' ''clear'' else h1)
      in (resp\<lparr>up_headers := insert_headers H (rc_response_headers ctx1) h2\<rparr>, ctx1))"

definition cached_response :: "RequestCtx \<Rightarrow> CachedResponse" where
  "cached_response ctx =
     \<lparr>cr_status = rc_cache_status ctx,
      cr_headers = [(''content-type'', rc_cache_type ctx), (''content-length'', show_nat (length (rc_cache_body ctx)))],
      cr_body = rc_cache_body ctx\<rparr>"

definition response_body_filter :: "((string, CacheEntry) hmap \<Rightarrow> nat) \<Rightarrow> nat \<Rightarrow> Gateway \<Rightarrow> bytes option \<Rightarrow> bool \<Rightarrow>
    RequestCtx \<Rightarrow> gw_state \<Rightarrow> RequestCtx \<times> gw_state" where
  "response_body_filter choice now gw body end_of_stream ctx st =
     (if \<not> rc_cache_collect ctx then (ctx, st)
      else
        let ctx1 = (case body of
              None \<Rightarrow> ctx
            | Some chunk \<Rightarrow>
                if length (rc_cache_body ctx) + length chunk \<le> 1024 * 1024
                then ctx\<lparr>rc_cache_body := rc_cache_body ctx @ chunk\<rparr>
                else ctx\<lparr>rc_cache_collect := False, rc_cache_body := []\<rparr>)
        in if end_of_stream \<and> rc_cache_collect ctx1 then
             (case rc_cache_key ctx1 of
                None \<Rightarrow> (ctx1, st)
              | Some key \<Rightarrow>
                  let g = tb_globals (gw_router gw);
                      ttl = unat (max (eg_cache_ttl_secs g) 1) * 10 ^ 9;
                      max_bytes = min (unat (eg_cache_size_mb g) * (1024 * 1024)) (2 ^ 64 - 1)
                  in (ctx1\<lparr>rc_cache_body := []\<rparr>,
                      st\<lparr>gs_cache := cache_put choice now key (cached_response ctx1) ttl max_bytes (gs_cache st)\<rparr>))
           else (ctx1, st))"

section \<open>Errors and logging\<close>

definition suppress_error_log :: "pingora_error \<Rightarrow> bool" where
  "suppress_error_log e = is_benign_downstream_disconnect e"

definition parse_len :: "string option \<Rightarrow> u64 option" where
  "parse_len v = Option.bind v parse_word"

definition record_request_metrics :: "('h, 'm) env \<Rightarrow> 'h Session \<Rightarrow> RequestCtx \<Rightarrow> string \<Rightarrow> bool \<Rightarrow> ProxyMetrics \<Rightarrow> ProxyMetrics" where
  "record_request_metrics env sn ctx host upstream_error m =
     (if host = [] then m
      else
        let m1 = (if is_downstream_tls env sn then
                    let x = inc_https_requests m
                    in if sn_http2 sn then inc_site_protocol_requests (ev_lower env) host HTTP_2 (inc_h2_requests x) else x
                  else inc_http_requests m);
            m2 = (if rc_is_grpc ctx then inc_grpc_requests m1 else m1);
            m3 = (if upstream_error then inc_upstream_errors m2 else m2);
            m4 = (case parse_len (sn_get env sn ''content-length'') of Some len \<Rightarrow> add_bytes_received len m3 | None \<Rightarrow> m3)
        in case parse_len (Option.bind (sn_written sn) wr_content_length) of Some len \<Rightarrow> add_bytes_sent len m4 | None \<Rightarrow> m4)"

definition log_entry_for :: "('h, 'm) env \<Rightarrow> nat \<Rightarrow> 'h Session \<Rightarrow> pingora_error option \<Rightarrow> RequestCtx \<Rightarrow> ProxyLogEntry option" where
  "log_entry_for env now sn e ctx =
     (let host = request_host env (sn_req sn); path = uri_path_q (sn_uri sn);
          upstream = get_or ''-'' (rc_log_upstream ctx);
          duration_ms = get_or 0 (map_option (\<lambda>s. of_nat ((now - s) div 10 ^ 6)) (rc_log_started ctx))
      in case e of
           Some err \<Rightarrow> if suppress_error_log err then None else Some (error_with_context now host path upstream (er_display err))
         | None \<Rightarrow>
             Some (response_entry now host path upstream (get_or 0 (map_option wr_status (sn_written sn))) duration_ms
               (Some (protocol_short (downstream_protocol_label sn))) (Option.bind (sn_written sn) wr_content_encoding)
               (Some (rq_method (sn_req sn)))))"

definition logging :: "('h, 'm) env \<Rightarrow> nat \<Rightarrow> 'h Session \<Rightarrow> pingora_error option \<Rightarrow> RequestCtx \<Rightarrow> gw_state \<Rightarrow> RequestCtx \<times> gw_state" where
  "logging env now sn e ctx st =
     (let host = request_host env (sn_req sn);
          upstream_error = (case e of Some err \<Rightarrow> er_source err = UpstreamSource | None \<Rightarrow> False);
          st1 = with_metrics (record_request_metrics env sn ctx host upstream_error) st;
          (ctx2, st2) = (if rc_metrics_counted ctx
             then (ctx\<lparr>rc_metrics_counted := False\<rparr>, with_metrics dec_active_connections st1) else (ctx, st1))
      in if \<not> ev_log_enabled env \<or> host = [] then (ctx2, st2)
         else case log_entry_for env now sn e ctx2 of
                Some entry \<Rightarrow> (ctx2, st2\<lparr>gs_log := push_sync (ev_log_level env) entry (gs_log st2)\<rparr>)
              | None \<Rightarrow> (ctx2, st2))"

record FailToProxy =
  fp_error_code :: u16
  fp_can_reuse_downstream :: bool

definition fail_to_proxy :: "pingora_error \<Rightarrow> RequestCtx \<Rightarrow> FailToProxy" where
  "fail_to_proxy e ctx =
     (if (rc_is_grpc ctx \<or> rc_is_long_lived_stream ctx) \<and> is_benign_downstream_disconnect e
      then \<lparr>fp_error_code = 0, fp_can_reuse_downstream = False\<rparr>
      else
        let c = (case er_type e of
              StatusError s \<Rightarrow> s
            | other \<Rightarrow>
                (case er_source e of
                   UpstreamSource \<Rightarrow> 502
                 | DownstreamSource \<Rightarrow> if other \<in> {WriteError, ReadError, ConnectionClosed} then 0 else 400
                 | _ \<Rightarrow> 500))
        in \<lparr>fp_error_code = c, fp_can_reuse_downstream = False\<rparr>)"

lemmas session_defs [run] = request_host_def downstream_protocol_label_def protocol_short_def server_name_def header_str_def
  urlencoding_decode_def decoded_query_param_def as_inet_def session_client_ip_def is_downstream_tls_def is_plain_http_def
  alt_svc_header_value_def

lemmas stage_defs = probe_stage_def acme_stage_def installer_stage_def auto_https_stage_def unknown_host_stage_def
  route_stage_def x4xx_stage_def rate_stage_def auth_stage_def file_stage_def cache_stage_def geoip_stage_def
  captcha_stage_def security_stage_def grpc_stage_def

declare stage_defs [run]

lemmas gateway_defs [run] = ctx_default_def ctx_from_middleware_def with_metrics_def early_request_filter_def
  redirect_https_def reset_ctx_def too_many_def rate_key_def auth_ok_def cache_key_of_def cache_applies_def cache_hit_def
  geoip_decision_def geoip_reason_def challenge_reply_def captcha_ttl_def request_view_def request_filter_def peer_new_def
  set_peer_timeouts_def configure_upstream_peer_def upstream_peer_def

end
