(* ===== verification/Admin_Auth.thy ===== *)
theory Admin_Auth
  imports Gateway
begin

text \<open>
  Who may use the management API, from src/src/api/mod.rs and the tables of users and sessions of
  src/src/db/mod.rs: sign-in, session tokens in memory, in the database and signed, the check in
  front of every protected route, and the change of a password.  HMAC-SHA256 in hexadecimal, bcrypt
  and the last time the chrono crate can represent are parameters; an Authorization header is given
  by its text, None when it is missing or not readable as text.  SQLite is the two tables together
  with which statements succeed; the times it stores as text are numbers, as the order of the texts
  is that of the times up to the year 9999.  Instants and calendar times are nanoseconds on one
  clock.  The text of a database error is not modelled.
\<close>

section \<open>Users and sessions in the database\<close>

record admin_db =
  ad_users :: "(string, string) hmap"
  ad_sessions :: "(string, string \<times> int) hmap"
  ad_tick :: nat
  ad_up :: "nat \<Rightarrow> bool"

definition admin_statement :: "admin_db \<Rightarrow> bool \<times> admin_db" where
  "admin_statement db = (ad_up db (ad_tick db), db\<lparr>ad_tick := Suc (ad_tick db)\<rparr>)"

definition DEFAULT_ADMIN_USERNAME :: string where
  "DEFAULT_ADMIN_USERNAME = ''admin''"

definition DEFAULT_ADMIN_PASSWORD :: string where
  "DEFAULT_ADMIN_PASSWORD = ''admin''"

definition seed_admin_user :: "(string \<Rightarrow> string option) \<Rightarrow> admin_db \<Rightarrow> bool \<times> admin_db" where
  "seed_admin_user hash db =
     (case admin_statement db of
        (False, db1) \<Rightarrow> (False, db1)
      | (True, db1) \<Rightarrow>
          if 0 < length (ad_users db1) then (True, db1)
          else
            (case hash DEFAULT_ADMIN_PASSWORD of
               None \<Rightarrow> (False, db1)
             | Some password_hash \<Rightarrow>
                 (case admin_statement db1 of
                    (False, db2) \<Rightarrow> (False, db2)
                  | (True, db2) \<Rightarrow> (True, db2\<lparr>ad_users := [(DEFAULT_ADMIN_USERNAME, password_hash)]\<rparr>))))"

definition get_user_password_hash :: "string \<Rightarrow> admin_db \<Rightarrow> string option option \<times> admin_db" where
  "get_user_password_hash username db =
     (case admin_statement db of (ok, db1) \<Rightarrow> (if ok then Some (map_of (ad_users db1) username) else None, db1))"

definition update_user_password :: "string \<Rightarrow> string option \<Rightarrow> admin_db \<Rightarrow> bool option \<times> admin_db" where
  "update_user_password username hashed db =
     (case hashed of
        None \<Rightarrow> (None, db)
      | Some h \<Rightarrow>
          (case admin_statement db of
             (False, db1) \<Rightarrow> (None, db1)
           | (True, db1) \<Rightarrow>
               (if map_of (ad_users db1) username = None then (Some False, db1)
                else (Some True, db1\<lparr>ad_users := AList.update username h (ad_users db1)\<rparr>))))"

definition insert_session :: "string \<Rightarrow> string \<Rightarrow> int \<Rightarrow> admin_db \<Rightarrow> bool \<times> admin_db" where
  "insert_session token username expires_at db =
     (case admin_statement db of
        (False, db1) \<Rightarrow> (False, db1)
      | (True, db1) \<Rightarrow> (True, db1\<lparr>ad_sessions := AList.update token (username, expires_at) (ad_sessions db1)\<rparr>))"

definition get_session :: "int \<Rightarrow> string \<Rightarrow> admin_db \<Rightarrow> (string \<times> int) option option \<times> admin_db" where
  "get_session now token db =
     (case admin_statement db of
        (ok, db1) \<Rightarrow> (if ok then Some (filter_opt (\<lambda>(_, e). now < e) (map_of (ad_sessions db1) token)) else None, db1))"

definition load_active_sessions :: "int \<Rightarrow> admin_db \<Rightarrow> (string \<times> string \<times> int) list option \<times> admin_db" where
  "load_active_sessions now db =
     (case admin_statement db of
        (ok, db1) \<Rightarrow> (if ok then Some (filter (\<lambda>(_, _, e). now < e) (ad_sessions db1)) else None, db1))"

section \<open>Tokens\<close>

record auth_env =
  ae_var :: "string \<Rightarrow> string option"
  ae_hmac_hex :: "string \<Rightarrow> string \<Rightarrow> string"
  ae_bcrypt_verify :: "string \<Rightarrow> string \<Rightarrow> bool"
  ae_max_utc_secs :: int

record SessionEntry =
  sx_username :: string
  sx_expires_at :: int

record AdminState =
  as_auth_required :: bool
  as_env_password :: "string option"
  as_sessions :: "(string, SessionEntry) hmap option"
  as_db :: "admin_db option"
  as_viewer_mode :: bool

definition nonblank :: "string option \<Rightarrow> string option" where
  "nonblank v = filter_opt (\<lambda>t. t \<noteq> []) (map_option trim v)"

definition session_ttl_secs :: "auth_env \<Rightarrow> u64" where
  "session_ttl_secs env =
     get_or 86400 (filter_opt (\<lambda>v. 0 < v) (Option.bind (ae_var env ''PERTISK_SESSION_TTL_SECS'') (\<lambda>s. parse_word (trim s))))"

definition session_signing_secret :: "auth_env \<Rightarrow> AdminState \<Rightarrow> string option" where
  "session_signing_secret env st =
     or_else (nonblank (ae_var env ''PERTISK_AUTH_SIGNING_SECRET''))
       (or_else (nonblank (as_env_password st)) (nonblank (ae_var env ''PERTISK_API_TOKEN'')))"

definition api_static_token :: "auth_env \<Rightarrow> string option" where
  "api_static_token env = nonblank (ae_var env ''PERTISK_API_TOKEN'')"

definition show_i64 :: "int \<Rightarrow> string" where
  "show_i64 i = (if i < 0 then ''-'' @ show_nat (nat (- i)) else show_nat (nat i))"

definition parse_i64 :: "string \<Rightarrow> int option" where
  "parse_i64 s =
     (case s of
        c # t \<Rightarrow>
          if c = CHR ''-'' then map_option (\<lambda>n. - int n) (filter_opt (\<lambda>n. n \<le> 2 ^ 63) (parse_digits t))
          else map_option int (parse_bounded (2 ^ 63) s)
      | [] \<Rightarrow> None)"

definition unix_secs :: "int \<Rightarrow> int" where
  "unix_secs now = now div 1000000000"

definition session_payload :: "string \<Rightarrow> int \<Rightarrow> string" where
  "session_payload username exp = ''pp1|'' @ username @ ''|'' @ show_i64 exp"

definition mint_signed_session_token :: "auth_env \<Rightarrow> int \<Rightarrow> string \<Rightarrow> string \<Rightarrow> u64 \<Rightarrow> string option" where
  "mint_signed_session_token env now secret username ttl_secs =
     (if username = [] \<or> CHR ''.'' \<in> set username then None
      else
        let exp = signed_take_bit 63 (unix_secs now + sint ttl_secs)
        in Some (''pp1.'' @ username @ ''.'' @ show_i64 exp @ ''.'' @ ae_hmac_hex env secret (session_payload username exp)))"

definition verify_signed_session_token :: "auth_env \<Rightarrow> int \<Rightarrow> string \<Rightarrow> string \<Rightarrow> string option" where
  "verify_signed_session_token env now secret token =
     (case split_on (\<lambda>c. c = CHR ''.'') token of
        [ver, username, exp_s, sig] \<Rightarrow>
          if ver \<noteq> ''pp1'' \<or> username = [] then None
          else
            (case parse_i64 exp_s of
               None \<Rightarrow> None
             | Some exp \<Rightarrow>
                 if exp < unix_secs now then None
                 else if \<not> eq_ignore_ascii_case (ae_hmac_hex env secret (session_payload username exp)) (trim sig) then None
                 else Some username)
      | _ \<Rightarrow> None)"

definition session_username :: "int \<Rightarrow> (string, SessionEntry) hmap \<Rightarrow> string \<Rightarrow> string option \<times> (string, SessionEntry) hmap" where
  "session_username now sessions token =
     (case map_of sessions token of
        None \<Rightarrow> (None, sessions)
      | Some entry \<Rightarrow>
          if now < sx_expires_at entry then (Some (sx_username entry), sessions) else (None, AList.delete token sessions))"

definition remembered :: "int \<Rightarrow> string \<Rightarrow> int \<Rightarrow> SessionEntry" where
  "remembered now username expires_at =
     \<lparr>sx_username = username, sx_expires_at = now + max (max ((expires_at - now) div 1000000000) 0) 1 * 1000000000\<rparr>"

section \<open>Authorization\<close>

definition lookup_session :: "int \<Rightarrow> string \<Rightarrow> AdminState \<Rightarrow> string option \<times> AdminState" where
  "lookup_session now token st =
     (case as_sessions st of
        None \<Rightarrow> (None, st)
      | Some sessions \<Rightarrow>
          (case session_username now sessions token of
             (Some username, sessions1) \<Rightarrow> (Some username, st\<lparr>as_sessions := Some sessions1\<rparr>)
           | (None, sessions1) \<Rightarrow>
               (case as_db st of
                  None \<Rightarrow> (None, st\<lparr>as_sessions := Some sessions1\<rparr>)
                | Some db \<Rightarrow>
                    (case get_session now token db of
                       (Some (Some (username, expires_at)), db1) \<Rightarrow>
                         (Some username, st\<lparr>as_db := Some db1,
                            as_sessions := Some (AList.update token (remembered now username expires_at) sessions1)\<rparr>)
                     | (_, db1) \<Rightarrow> (None, st\<lparr>as_db := Some db1, as_sessions := Some sessions1\<rparr>)))))"

definition resolve_username_from_token :: "auth_env \<Rightarrow> int \<Rightarrow> string \<Rightarrow> AdminState \<Rightarrow> string option \<times> AdminState" where
  "resolve_username_from_token env now token st =
     (if api_static_token env = Some token then (Some DEFAULT_ADMIN_USERNAME, st)
      else
        case lookup_session now token st of
          (Some username, st1) \<Rightarrow> (Some username, st1)
        | (None, st1) \<Rightarrow>
            (Option.bind (session_signing_secret env st1) (\<lambda>secret. verify_signed_session_token env now secret token), st1))"

definition extract_bearer :: "string option \<Rightarrow> string option" where
  "extract_bearer authorization = Option.bind authorization (\<lambda>v. map_option trim (strip_prefix ''Bearer '' v))"

definition resolve_username :: "auth_env \<Rightarrow> int \<Rightarrow> string option \<Rightarrow> AdminState \<Rightarrow> string option \<times> AdminState" where
  "resolve_username env now authorization st =
     (case extract_bearer authorization of
        None \<Rightarrow> (None, st)
      | Some token \<Rightarrow> resolve_username_from_token env now token st)"

definition require_auth_middleware :: "auth_env \<Rightarrow> int \<Rightarrow> string option \<Rightarrow> AdminState \<Rightarrow> bool \<times> AdminState" where
  "require_auth_middleware env now authorization st =
     (if \<not> as_auth_required st then (True, st)
      else case resolve_username env now authorization st of (user, st1) \<Rightarrow> (user \<noteq> None, st1))"

definition is_token_authorized :: "auth_env \<Rightarrow> int \<Rightarrow> string option \<Rightarrow> AdminState \<Rightarrow> bool \<times> AdminState" where
  "is_token_authorized env now token st =
     (if \<not> as_auth_required st then (True, st)
      else
        case nonblank token of
          None \<Rightarrow> (False, st)
        | Some t \<Rightarrow> (case resolve_username_from_token env now t st of (user, st1) \<Rightarrow> (user \<noteq> None, st1)))"

definition admin_password :: "auth_env \<Rightarrow> string option" where
  "admin_password env = or_else (nonblank (ae_var env ''PERTISK_ADMIN_PASSWORD'')) (nonblank (ae_var env ''PERTISK_PASSWORD''))"

definition build_state :: "auth_env \<Rightarrow> admin_db option \<Rightarrow> (string, SessionEntry) hmap option \<Rightarrow> AdminState" where
  "build_state env db sessions =
     \<lparr>as_auth_required = (db \<noteq> None \<or> admin_password env \<noteq> None), as_env_password = admin_password env, as_sessions = sessions,
      as_db = db, as_viewer_mode = False\<rparr>"

definition build_ingress_state :: "auth_env \<Rightarrow> admin_db option \<Rightarrow> (string, SessionEntry) hmap option \<Rightarrow> AdminState" where
  "build_ingress_state env db sessions =
     \<lparr>as_auth_required = (db \<noteq> None \<or> admin_password env \<noteq> None \<or>
        get_or False (map_option (\<lambda>s. trim s \<noteq> []) (ae_var env ''PERTISK_API_TOKEN''))),
      as_env_password = admin_password env, as_sessions = sessions, as_db = db, as_viewer_mode = True\<rparr>"

definition load_sessions_from_db :: "int \<Rightarrow> AdminState \<Rightarrow> AdminState" where
  "load_sessions_from_db now st =
     (case (as_db st, as_sessions st) of
        (Some db, Some sessions) \<Rightarrow>
          (case load_active_sessions now db of
             (None, db1) \<Rightarrow> st\<lparr>as_db := Some db1\<rparr>
           | (Some rows, db1) \<Rightarrow>
               st\<lparr>as_db := Some db1,
                  as_sessions := Some (fold (\<lambda>(token, username, e). AList.update token (remembered now username e)) rows sessions)\<rparr>)
      | _ \<Rightarrow> st)"

section \<open>Sign-in and change of password\<close>

datatype 'a api_result = ApiOk 'a | ApiErr nat string | Panicked

definition credentials :: "auth_env \<Rightarrow> string \<Rightarrow> string \<Rightarrow> AdminState \<Rightarrow> bool option option \<times> AdminState" where
  "credentials env username password st =
     (case as_db st of
        Some db \<Rightarrow>
          (case get_user_password_hash username db of
             (None, db1) \<Rightarrow> (None, st\<lparr>as_db := Some db1\<rparr>)
           | (Some None, db1) \<Rightarrow> (Some None, st\<lparr>as_db := Some db1\<rparr>)
           | (Some (Some h), db1) \<Rightarrow> (Some (Some (ae_bcrypt_verify env password h)), st\<lparr>as_db := Some db1\<rparr>))
      | None \<Rightarrow>
          (case as_env_password st of
             Some expected \<Rightarrow> (Some (Some (username = DEFAULT_ADMIN_USERNAME \<and> password = expected)), st)
           | None \<Rightarrow> (Some (Some False), st)))"

definition login_token :: "auth_env \<Rightarrow> int \<Rightarrow> string \<Rightarrow> string \<Rightarrow> AdminState \<Rightarrow> string" where
  "login_token env now uuid username st =
     get_or uuid (Option.bind (session_signing_secret env st)
       (\<lambda>secret. mint_signed_session_token env now secret username (session_ttl_secs env)))"

definition start_session :: "auth_env \<Rightarrow> int \<Rightarrow> string \<Rightarrow> string \<Rightarrow> (string, SessionEntry) hmap \<Rightarrow> AdminState \<Rightarrow>
    string api_result \<times> AdminState" where
  "start_session env now uuid username sessions st =
     (let ttl = uint (session_ttl_secs env); token = login_token env now uuid username st in
      if 2 ^ 63 \<le> unix_secs now + ttl then (Panicked, st)
      else
        let st1 = st\<lparr>as_sessions := Some (AList.update token \<lparr>sx_username = username, sx_expires_at = now + ttl * 1000000000\<rparr> sessions)\<rparr> in
        case as_db st1 of
          None \<Rightarrow> (ApiOk token, st1)
        | Some db \<Rightarrow>
            if ae_max_utc_secs env < unix_secs now + ttl then (Panicked, st1)
            else (ApiOk token, st1\<lparr>as_db := Some (snd (insert_session token username (now + ttl * 1000000000) db))\<rparr>))"

definition auth_login :: "auth_env \<Rightarrow> int \<Rightarrow> string \<Rightarrow> string \<Rightarrow> string \<Rightarrow> AdminState \<Rightarrow> string api_result \<times> AdminState" where
  "auth_login env now uuid user password st =
     (if \<not> as_auth_required st then (ApiOk [], st)
      else
        case as_sessions st of
          None \<Rightarrow> (ApiErr 503 ''login not configured'', st)
        | Some sessions \<Rightarrow>
            let username = trim user in
            if username = [] then (ApiErr 400 ''username required'', st)
            else
              (case credentials env username password st of
                 (None, st1) \<Rightarrow> (ApiErr 500 ''database error'', st1)
               | (Some (Some True), st1) \<Rightarrow> start_session env now uuid username sessions st1
               | (Some _, st1) \<Rightarrow> (ApiErr 401 ''invalid username or password'', st1)))"

definition auth_change_password :: "auth_env \<Rightarrow> int \<Rightarrow> string option \<Rightarrow> string \<Rightarrow> string \<Rightarrow> string option \<Rightarrow> AdminState \<Rightarrow>
    unit api_result \<times> AdminState" where
  "auth_change_password env now authorization current new hashed st =
     (if as_viewer_mode st \<or> as_db st = None
      then (ApiErr 403 ''password change is only available in proxy mode with local users'', st)
      else
        case resolve_username env now authorization st of
          (None, st1) \<Rightarrow> (ApiErr 401 ''not authenticated'', st1)
        | (Some username, st1) \<Rightarrow>
            let new_password = trim new in
            if length new_password < 6 then (ApiErr 400 ''new password must be at least 6 characters'', st1)
            else if new_password = current then (ApiErr 400 ''new password must be different from the current password'', st1)
            else
              (case as_db st1 of
                 None \<Rightarrow> (Panicked, st1)
               | Some db \<Rightarrow>
                   (case get_user_password_hash username db of
                      (None, db1) \<Rightarrow> (ApiErr 500 ''database error'', st1\<lparr>as_db := Some db1\<rparr>)
                    | (Some None, db1) \<Rightarrow>
                        (ApiErr 403 ''password change is only available for local database users'', st1\<lparr>as_db := Some db1\<rparr>)
                    | (Some (Some h), db1) \<Rightarrow>
                        if \<not> ae_bcrypt_verify env current h then (ApiErr 401 ''current password is incorrect'', st1\<lparr>as_db := Some db1\<rparr>)
                        else
                          (case update_user_password username hashed db1 of
                             (None, db2) \<Rightarrow> (ApiErr 500 ''database error'', st1\<lparr>as_db := Some db2\<rparr>)
                           | (Some False, db2) \<Rightarrow> (ApiErr 404 ''user not found'', st1\<lparr>as_db := Some db2\<rparr>)
                           | (Some True, db2) \<Rightarrow> (ApiOk (), st1\<lparr>as_db := Some db2\<rparr>)))))"

section \<open>Every accepted token was granted\<close>

datatype admin_event =
    Login int string string string
  | Access int "string option"
  | ChangePassword int "string option" string string "string option"
  | Restart int

text \<open>What happens to the state, with a record of the sessions granted to correct credentials.\<close>
type_synonym granted = "(string \<times> string \<times> int) list"

definition grants :: "auth_env \<Rightarrow> int \<Rightarrow> string \<Rightarrow> string \<Rightarrow> string \<Rightarrow> AdminState \<Rightarrow> granted" where
  "grants env now uuid user password st =
     (let username = trim user in
      if fst (credentials env username password st) = Some (Some True)
      then [(login_token env now uuid username st, username, now + uint (session_ttl_secs env) * 1000000000)] else [])"

fun admin_step :: "auth_env \<Rightarrow> AdminState \<times> granted \<Rightarrow> admin_event \<Rightarrow> AdminState \<times> granted" where
  "admin_step env (st, g) (Login now uuid user password) =
     (snd (auth_login env now uuid user password st), grants env now uuid user password st @ g)"
| "admin_step env (st, g) (Access now authorization) = (snd (require_auth_middleware env now authorization st), g)"
| "admin_step env (st, g) (ChangePassword now authorization current new hashed) =
     (snd (auth_change_password env now authorization current new hashed st), g)"
| "admin_step env (st, g) (Restart now) = (load_sessions_from_db now (st\<lparr>as_sessions := map_option (\<lambda>_. []) (as_sessions st)\<rparr>), g)"

definition mem_ok :: "granted \<Rightarrow> (string, SessionEntry) hmap \<Rightarrow> bool" where
  "mem_ok g sessions \<longleftrightarrow> (\<forall>token entry. map_of sessions token = Some entry \<longrightarrow>
     (\<exists>e. (token, sx_username entry, e) \<in> set g \<and> sx_expires_at entry \<le> e + 1000000000))"

definition db_ok :: "granted \<Rightarrow> admin_db \<Rightarrow> bool" where
  "db_ok g db \<longleftrightarrow> distinct (map fst (ad_sessions db)) \<and> (\<forall>row \<in> set (ad_sessions db). row \<in> set g)"

definition sessions_granted :: "AdminState \<times> granted \<Rightarrow> bool" where
  "sessions_granted s \<longleftrightarrow> (\<forall>m. as_sessions (fst s) = Some m \<longrightarrow> mem_ok (snd s) m) \<and> (\<forall>db. as_db (fst s) = Some db \<longrightarrow> db_ok (snd s) db)"

lemma mem_ok_mono: "mem_ok g m \<Longrightarrow> mem_ok (g' @ g) m"
  unfolding mem_ok_def by (metis UnI2 set_append)

lemma db_ok_mono: "db_ok g db \<Longrightarrow> db_ok (g' @ g) db"
  by (auto simp: db_ok_def)

lemma mem_ok_update:
  "mem_ok g m \<Longrightarrow> (token, sx_username x, e) \<in> set g \<Longrightarrow> sx_expires_at x \<le> e + 1000000000 \<Longrightarrow> mem_ok g (AList.update token x m)"
  by (auto simp: mem_ok_def update_conv')

lemma mem_ok_delete: "mem_ok g m \<Longrightarrow> mem_ok g (AList.delete token m)"
  by (auto simp: mem_ok_def delete_conv' split: if_splits)

lemma remembered_late: "now < e \<Longrightarrow> sx_expires_at (remembered now u e) \<le> e + 1000000000"
  "sx_username (remembered now u e) = u"
proof -
  have "(e - now) div 1000000000 * 1000000000 \<le> e - now" 
    using pos_mod_sign [of 1000000000 "e - now"] div_mult_mod_eq [of "e - now" 1000000000] by linarith
  then show "now < e \<Longrightarrow> sx_expires_at (remembered now u e) \<le> e + 1000000000" by (simp add: remembered_def max_def)
  show "sx_username (remembered now u e) = u" by (simp add: remembered_def)
qed

lemma statement_db_ok: "db_ok g db \<Longrightarrow> db_ok g (snd (admin_statement db))"
  by (simp add: admin_statement_def db_ok_def)

lemma get_session_granted:
  assumes "db_ok g db" and "get_session now token db = (r, db')"
  shows "db_ok g db' \<and> (\<forall>u e. r = Some (Some (u, e)) \<longrightarrow> (token, u, e) \<in> set g \<and> now < e)"
  using assms by (auto simp: get_session_def admin_statement_def db_ok_def dest: map_of_SomeD split: if_splits)

lemma lookup_session_granted:
  assumes "sessions_granted (st, g)" and "lookup_session now token st = (r, st')"
  shows "sessions_granted (st', g) \<and> (\<forall>u. r = Some u \<longrightarrow> (\<exists>e. (token, u, e) \<in> set g \<and> now < e + 1000000000)) \<and>
    as_env_password st' = as_env_password st"
proof (cases "as_sessions st")
  case None
  with assms show ?thesis by (auto simp: lookup_session_def)
next
  case (Some m)
  with assms(1) have m: "mem_ok g m" and d: "\<And>db. as_db st = Some db \<Longrightarrow> db_ok g db" by (auto simp: sessions_granted_def)
  obtain x m1 where x: "session_username now m token = (x, m1)" by fastforce
  have m1: "mem_ok g m1" using x m mem_ok_delete [OF m, of token] by (auto simp: session_username_def split: option.splits if_splits)
  show ?thesis
  proof (cases x)
    case (Some u)
    then obtain entry where "map_of m token = Some entry" "sx_username entry = u" "now < sx_expires_at entry"
      using x by (auto simp: session_username_def split: option.splits if_splits)
    with m have "\<exists>e. (token, u, e) \<in> set g \<and> now < e + 1000000000" unfolding mem_ok_def by fastforce
    then show ?thesis
      using assms Some x m1 \<open>as_sessions st = Some m\<close> by (auto simp: lookup_session_def sessions_granted_def)
  next
    case None
    show ?thesis
    proof (cases "as_db st")
      case (Some db)
      obtain q db1 where q: "get_session now token db = (q, db1)" by fastforce
      note s = get_session_granted [OF d [OF Some] q]
      show ?thesis
      proof (cases "\<exists>u e. q = Some (Some (u, e))")
        case True
        then obtain u e where ue: "q = Some (Some (u, e))" by blast
        with s have g: "(token, u, e) \<in> set g" "now < e" by auto
        then have "mem_ok g (AList.update token (remembered now u e) m1)"
          by (intro mem_ok_update [OF m1, of _ _ e]) (simp_all add: remembered_late)
        with assms(2) s g ue x None Some q \<open>as_sessions st = Some m\<close> show ?thesis
          by (auto simp: lookup_session_def sessions_granted_def)
      next
        case False
        with assms(2) s x None Some q m1 \<open>as_sessions st = Some m\<close> show ?thesis
          by (cases q) (auto simp: lookup_session_def sessions_granted_def split: option.splits)
      qed
    qed (use assms(2) x None m1 \<open>as_sessions st = Some m\<close> in \<open>auto simp: lookup_session_def sessions_granted_def\<close>)
  qed
qed

lemma resolve_token_granted:
  assumes "sessions_granted (st, g)" and "resolve_username_from_token env now token st = (r, st')"
  shows "sessions_granted (st', g) \<and> (\<forall>u. r = Some u \<longrightarrow>
    (api_static_token env = Some token \<and> u = DEFAULT_ADMIN_USERNAME) \<or> (\<exists>e. (token, u, e) \<in> set g \<and> now < e + 1000000000) \<or>
    (\<exists>secret. session_signing_secret env st = Some secret \<and> verify_signed_session_token env now secret token = Some u))"
proof -
  obtain x st1 where l: "lookup_session now token st = (x, st1)" by fastforce
  note g = lookup_session_granted [OF assms(1) l]
  then have "session_signing_secret env st1 = session_signing_secret env st" by (simp add: session_signing_secret_def)
  with g assms l show ?thesis
    by (cases x) (auto simp: resolve_username_from_token_def bind_eq_Some_conv split: if_splits)
qed

lemma resolve_username_granted: "sessions_granted (st, g) \<Longrightarrow> resolve_username env now a st = (r, st') \<Longrightarrow> sessions_granted (st', g)"
  by (auto simp: resolve_username_def dest: resolve_token_granted split: option.splits)

lemma credentials_granted:
  "sessions_granted (st, g) \<Longrightarrow> credentials env u p st = (r, st') \<Longrightarrow>
     sessions_granted (st', g) \<and> as_sessions st' = as_sessions st \<and> as_env_password st' = as_env_password st"
  by (auto simp: credentials_def get_user_password_hash_def admin_statement_def sessions_granted_def db_ok_def split: option.splits if_splits)

lemma set_alist_update: "set (AList.update k v m) \<subseteq> insert (k, v) (set m)"
  by (induction m) auto

lemma insert_session_granted:
  assumes "db_ok g db" and "(token, u, e) \<in> set g"
  shows "db_ok g (snd (insert_session token u e db))"
proof -
  have "set (AList.update token (u, e) (ad_sessions db)) \<subseteq> insert (token, (u, e)) (set (ad_sessions db))"
    by (rule set_alist_update)
  then show ?thesis using assms by (auto simp: insert_session_def admin_statement_def db_ok_def AList.distinct_update split: bool.split)
qed

lemma start_session_granted:
  assumes "sessions_granted (st, g)" and "as_sessions st = Some m"
    and "(login_token env now uuid u st, u, now + uint (session_ttl_secs env) * 1000000000) \<in> set g"
  shows "sessions_granted (snd (start_session env now uuid u m st), g)"
proof -
  let ?e = "now + uint (session_ttl_secs env) * 1000000000"
  have "mem_ok g (AList.update (login_token env now uuid u st) \<lparr>sx_username = u, sx_expires_at = ?e\<rparr> m)"
    using assms by (intro mem_ok_update [of _ _ _ _ ?e]) (simp_all add: sessions_granted_def)
  moreover have "db_ok g (snd (insert_session (login_token env now uuid u st) u ?e db))" if "as_db st = Some db" for db
    using assms that by (intro insert_session_granted) (simp_all add: sessions_granted_def)
  ultimately show ?thesis
    using assms(1) by (auto simp: start_session_def sessions_granted_def Let_def split: option.split)
qed

lemma granted_mono: "sessions_granted (st, g) \<Longrightarrow> sessions_granted (st, g' @ g)"
  by (simp add: sessions_granted_def mem_ok_mono db_ok_mono)

lemma auth_login_granted:
  assumes "sessions_granted (st, g)"
  shows "sessions_granted (snd (auth_login env now uuid user password st), grants env now uuid user password st @ g)"
proof -
  let ?g = "grants env now uuid user password st @ g"
  obtain r st1 where c: "credentials env (trim user) password st = (r, st1)" by fastforce
  from credentials_granted [OF granted_mono [OF assms] c]
  have st1: "sessions_granted (st1, ?g)" "as_sessions st1 = as_sessions st" "as_env_password st1 = as_env_password st" by simp_all
  then have t: "login_token env now uuid u st1 = login_token env now uuid u st" for u
    by (simp add: login_token_def session_signing_secret_def)
  have "sessions_granted (snd (start_session env now uuid (trim user) m st1), ?g)" if "as_sessions st = Some m" "r = Some (Some True)" for m
    using that c st1 by (intro start_session_granted) (simp_all add: t grants_def Let_def)
  with granted_mono [OF assms] st1 c show ?thesis
    by (auto simp: auth_login_def Let_def split: option.split bool.split)
qed

lemma change_password_granted:
  assumes "sessions_granted (st, g)"
  shows "sessions_granted (snd (auth_change_password env now a current new hashed st), g)"
proof -
  obtain r st1 where r: "resolve_username env now a st = (r, st1)" by fastforce
  note s1 = resolve_username_granted [OF assms r]
  have db: "sessions_granted (st1\<lparr>as_db := Some db'\<rparr>, g)" if "as_db st1 = Some db" "ad_sessions db' = ad_sessions db" for db db'
    using s1 that by (simp add: sessions_granted_def db_ok_def)
  show ?thesis
    using assms s1 db
    by (auto simp: auth_change_password_def r Let_def get_user_password_hash_def update_user_password_def admin_statement_def
        split: option.split bool.split prod.split)
qed

lemma load_sessions_granted:
  assumes "sessions_granted (st, g)"
  shows "sessions_granted (load_sessions_from_db now st, g)"
proof -
  have f: "mem_ok g (fold (\<lambda>(token, username, e). AList.update token (remembered now username e)) rows m)"
    if "mem_ok g m" "\<forall>(t, u, e) \<in> set rows. (t, u, e) \<in> set g \<and> now < e" for rows m
    using that
  proof (induction rows arbitrary: m)
    case (Cons row rows)
    obtain t u e where row: "row = (t, u, e)" using prod_cases3 by blast
    with Cons.prems have "mem_ok g (AList.update t (remembered now u e) m)"
      by (intro mem_ok_update [of _ _ _ _ e]) (simp_all add: remembered_late)
    with Cons row show ?case by simp
  qed simp
  have "mem_ok g (fold (\<lambda>(token, username, e). AList.update token (remembered now username e)) rows m)"
    if "as_sessions st = Some m" "as_db st = Some db" "rows = filter (\<lambda>(_, _, e). now < e) (ad_sessions db)" for m db rows
    using assms that by (intro f) (auto simp: sessions_granted_def db_ok_def)
  then show ?thesis
    using assms by (auto simp: load_sessions_from_db_def load_active_sessions_def admin_statement_def sessions_granted_def db_ok_def
        split: option.split)
qed

lemma admin_step_granted: "sessions_granted s \<Longrightarrow> sessions_granted (admin_step env s e)"
proof -
  assume s: "sessions_granted s"
  obtain st g where sg: "s = (st, g)" by fastforce
  show "sessions_granted (admin_step env s e)"
  proof (cases e)
    case (Login now uuid user password)
    then show ?thesis using s auth_login_granted by (simp add: sg)
  next
    case (Access now a)
    then show ?thesis using s resolve_username_granted [of st g env now a]
      by (auto simp: sg require_auth_middleware_def split: prod.split)
  next
    case (ChangePassword now a current new hashed)
    then show ?thesis using s change_password_granted by (simp add: sg)
  next
    case (Restart now)
    have "sessions_granted (st\<lparr>as_sessions := map_option (\<lambda>_. []) (as_sessions st)\<rparr>, g)"
      using s by (auto simp: sg sessions_granted_def mem_ok_def)
    then show ?thesis using load_sessions_granted by (simp add: sg Restart)
  qed
qed

interpretation admin_sys: invariant_system "admin_step env" sessions_granted for env
  by unfold_locales (rule admin_step_granted)


text \<open>A management API with one local user, and a sign-in.\<close>
definition demo_auth_env :: auth_env where
  "demo_auth_env = \<lparr>ae_var = (\<lambda>_. None), ae_hmac_hex = (\<lambda>_ _. []), ae_bcrypt_verify = (\<lambda>password h. password = h),
    ae_max_utc_secs = 8210266876799\<rparr>"

definition demo_admin :: AdminState where
  "demo_admin = build_state demo_auth_env (Some \<lparr>ad_users = [(''admin'', ''pass1'')], ad_sessions = [], ad_tick = 0, ad_up = (\<lambda>_. True)\<rparr>) (Some [])"

lemma demo_admin_eq: "demo_admin = \<lparr>as_auth_required = True, as_env_password = None, as_sessions = Some [],
    as_db = Some \<lparr>ad_users = [(''admin'', ''pass1'')], ad_sessions = [], ad_tick = 0, ad_up = (\<lambda>_. True)\<rparr>, as_viewer_mode = False\<rparr>"
  by (simp add: demo_admin_def build_state_def admin_password_def nonblank_def demo_auth_env_def or_else_def)

lemma demo_auth_facts:
  "session_ttl_secs demo_auth_env = 86400" "api_static_token demo_auth_env = None" "ae_bcrypt_verify demo_auth_env p h = (p = h)" "ae_max_utc_secs demo_auth_env = 8210266876799"
  "as_env_password s = None \<Longrightarrow> session_signing_secret demo_auth_env s = None"
  "as_env_password s = None \<Longrightarrow> login_token demo_auth_env now uuid u s = uuid" "trim ''admin'' = ''admin''"
  by (simp_all add: session_ttl_secs_def api_static_token_def session_signing_secret_def nonblank_def or_else_def login_token_def
      demo_auth_env_def) (simp add: run)

lemma demo_admin_fields: "as_auth_required demo_admin" "as_sessions demo_admin = Some []"
  by (simp_all add: demo_admin_eq)

lemma demo_credentials:
  "credentials demo_auth_env ''admin'' ''pass1'' demo_admin =
     (Some (Some True), demo_admin\<lparr>as_db := Some \<lparr>ad_users = [(''admin'', ''pass1'')], ad_sessions = [], ad_tick = 1, ad_up = (\<lambda>_. True)\<rparr>\<rparr>)"
  by (simp add: credentials_def demo_admin_eq get_user_password_hash_def admin_statement_def demo_auth_facts)

lemma demo_login:
  "auth_login demo_auth_env 0 ''u1'' ''admin'' ''pass1'' demo_admin =
     (ApiOk ''u1'', \<lparr>as_auth_required = True, as_env_password = None,
        as_sessions = Some [(''u1'', \<lparr>sx_username = ''admin'', sx_expires_at = 86400000000000\<rparr>)],
        as_db = Some \<lparr>ad_users = [(''admin'', ''pass1'')], ad_sessions = [(''u1'', ''admin'', 86400000000000)], ad_tick = 2, ad_up = (\<lambda>_. True)\<rparr>,
        as_viewer_mode = False\<rparr>)"
  "grants demo_auth_env 0 ''u1'' ''admin'' ''pass1'' demo_admin = [(''u1'', ''admin'', 86400000000000)]"
  by (simp_all add: auth_login_def grants_def Let_def demo_auth_facts demo_admin_fields demo_credentials)
    (simp_all add: demo_admin_eq start_session_def Let_def demo_auth_facts unix_secs_def insert_session_def admin_statement_def)


section \<open>A change of password keeps every session\<close>

definition keeps_session :: "string \<Rightarrow> AdminState \<Rightarrow> AdminState \<Rightarrow> bool" where
  "keeps_session token st st' \<longleftrightarrow> as_env_password st' = as_env_password st \<and>
     map_option (\<lambda>m. map_of m token) (as_sessions st') = map_option (\<lambda>m. map_of m token) (as_sessions st) \<and>
     map_option ad_sessions (as_db st') = map_option ad_sessions (as_db st) \<and>
     ((\<forall>db. as_db st = Some db \<longrightarrow> (\<forall>n. ad_up db n)) \<longrightarrow> (\<forall>db. as_db st' = Some db \<longrightarrow> (\<forall>n. ad_up db n)))"

lemma keeps_session_trans: "keeps_session t a b \<Longrightarrow> keeps_session t b c \<Longrightarrow> keeps_session t a c"
  unfolding keeps_session_def by (elim conjE, intro conjI) (blast intro: trans)+

lemma keeps_session_refl [simp]: "keeps_session t a a"
  by (simp add: keeps_session_def)

lemma session_username_other: "token \<noteq> other \<Longrightarrow> map_of (snd (session_username now m other)) token = map_of m token"
  by (simp add: session_username_def delete_conv' split: option.split)

lemma get_session_db: "snd (get_session now token db) = db\<lparr>ad_tick := Suc (ad_tick db)\<rparr>"
  by (simp add: get_session_def admin_statement_def)

lemma lookup_session_keeps:
  assumes "token \<noteq> other"
  shows "keeps_session token st (snd (lookup_session now other st))"
proof (cases "as_sessions st")
  case (Some m)
  obtain x m1 where m1: "session_username now m other = (x, m1)" by fastforce
  have o: "map_of m1 token = map_of m token" using session_username_other [OF assms, of now m] m1 by simp
  show ?thesis
  proof (cases "\<exists>db. x = None \<and> as_db st = Some db")
    case True
    then obtain db where db: "x = None" "as_db st = Some db" by blast
    obtain q db1 where q: "get_session now other db = (q, db1)" by fastforce
    have d: "ad_sessions db1 = ad_sessions db" "ad_up db1 = ad_up db" using get_session_db [of now other db] q by simp_all
    show ?thesis
      using Some m1 o db q d assms
      by (auto simp: lookup_session_def keeps_session_def update_conv' split: option.split)
  next
    case False
    then show ?thesis using Some m1 o
      by (cases x; cases "as_db st") (simp_all add: lookup_session_def keeps_session_def)
  qed
qed (simp add: lookup_session_def)

lemma resolve_username_keeps:
  assumes "extract_bearer a \<noteq> Some token" and "resolve_username env now a st = (r, st')"
  shows "keeps_session token st st'"
proof (cases "extract_bearer a")
  case (Some other)
  then have "keeps_session token st (snd (lookup_session now other st))" using assms(1) by (intro lookup_session_keeps) simp
  then show ?thesis
    using assms(2) Some by (auto simp: resolve_username_def resolve_username_from_token_def split: option.splits prod.splits if_splits)
qed (use assms(2) in \<open>simp add: resolve_username_def\<close>)

lemma change_password_keeps:
  assumes "extract_bearer a \<noteq> Some token" and "auth_change_password env now a current new hashed st = (ApiOk (), st')"
  shows "keeps_session token st st'"
proof -
  obtain r st1 where r: "resolve_username env now a st = (r, st1)" by fastforce
  from assms(2) obtain db db' where "as_db st1 = Some db" "st' = st1\<lparr>as_db := Some db'\<rparr>" "ad_sessions db' = ad_sessions db" "ad_up db' = ad_up db"
    by (auto simp: auth_change_password_def r Let_def get_user_password_hash_def update_user_password_def admin_statement_def
        split: option.splits bool.splits prod.splits if_splits)
  then have "keeps_session token st1 st'" by (simp add: keeps_session_def)
  with resolve_username_keeps [OF assms(1) r] show ?thesis by (rule keeps_session_trans)
qed

text \<open>What a lookup finds, from the entries for the token alone.\<close>
definition found :: "int \<Rightarrow> SessionEntry option option \<Rightarrow> (string \<times> int) option option \<Rightarrow> string option" where
  "found now mem row =
     Option.bind mem (\<lambda>x.
       case filter_opt (\<lambda>x. now < sx_expires_at x) x of
         Some x \<Rightarrow> Some (sx_username x)
       | None \<Rightarrow> Option.bind row (\<lambda>r. map_option fst (filter_opt (\<lambda>(_, e). now < e) r)))"

lemma lookup_session_found:
  assumes "\<forall>db. as_db st = Some db \<longrightarrow> (\<forall>n. ad_up db n)"
  shows "fst (lookup_session now token st) =
    found now (map_option (\<lambda>m. map_of m token) (as_sessions st)) (map_option (\<lambda>ss. map_of ss token) (map_option ad_sessions (as_db st)))"
proof (cases "as_sessions st")
  case (Some m)
  then show ?thesis
  proof (cases "filter_opt (\<lambda>x. now < sx_expires_at x) (map_of m token)")
    case None
    then have u: "fst (session_username now m token) = None"
      by (auto simp: session_username_def filter_opt_def split: option.splits if_splits)
    then obtain m1 where u1: "session_username now m token = (None, m1)" by (cases "session_username now m token") auto
    show ?thesis
    proof (cases "as_db st")
      case (Some db)
      then have g: "fst (get_session now token db) = Some (filter_opt (\<lambda>(_, e). now < e) (map_of (ad_sessions db) token))"
        using assms by (simp add: get_session_def admin_statement_def)
      obtain q db1 where q: "get_session now token db = (q, db1)" by fastforce
      have qe: "q = Some (filter_opt (\<lambda>(_, e). now < e) (map_of (ad_sessions db) token))" using g q by simp
      show ?thesis
      proof (cases "filter_opt (\<lambda>(_, e). now < e) (map_of (ad_sessions db) token)")
        case None
        with \<open>filter_opt _ (map_of m token) = None\<close> \<open>as_sessions st = Some m\<close> Some u1 q qe show ?thesis
          by (simp add: lookup_session_def found_def)
      next
        case (Some r)
        then obtain user e where r: "filter_opt (\<lambda>(_, e). now < e) (map_of (ad_sessions db) token) = Some (user, e)" by (cases r) simp
        show ?thesis
          unfolding lookup_session_def \<open>as_sessions st = Some m\<close> option.case u1 prod.case \<open>as_db st = Some db\<close> q qe r found_def option.map
          using None r by simp
      qed
    qed (use None u1 Some in \<open>simp add: lookup_session_def found_def\<close>)
  next
    case (Some x)
    then have "session_username now m token = (Some (sx_username x), m)"
      by (auto simp: session_username_def)
    with Some \<open>as_sessions st = Some m\<close> show ?thesis by (simp add: lookup_session_def found_def)
  qed
qed (simp add: lookup_session_def found_def)

lemma resolve_token_fst:
  "fst (resolve_username_from_token env now token st) =
     (if api_static_token env = Some token then Some DEFAULT_ADMIN_USERNAME
      else or_else (fst (lookup_session now token st))
        (Option.bind (session_signing_secret env st) (\<lambda>secret. verify_signed_session_token env now secret token)))"
proof -
  obtain x st1 where l: "lookup_session now token st = (x, st1)" by fastforce
  then have "as_env_password st1 = as_env_password st"
    by (auto simp: lookup_session_def split: option.splits prod.splits)
  then have "session_signing_secret env st1 = session_signing_secret env st" by (simp add: session_signing_secret_def)
  with l show ?thesis by (cases x) (simp_all add: resolve_username_from_token_def or_else_def)
qed

text \<open>C28: Sessions survive a change of password.  After the password of a user was changed successfully,
  every other token that was accepted before is still accepted for the same user, as long as it would
  have been without the change (with a database that works): the sessions of a user whose password
  was stolen are not ended.\<close>
theorem password_change_keeps_sessions:
  assumes "auth_change_password env t authorization current new hashed st = (ApiOk (), st')"
    and "extract_bearer authorization \<noteq> Some token" and "\<forall>db. as_db st = Some db \<longrightarrow> (\<forall>n. ad_up db n)"
  shows "fst (resolve_username_from_token env now token st') = fst (resolve_username_from_token env now token st)"
proof -
  have k: "keeps_session token st st'" by (rule change_password_keeps [OF assms(2,1)])
  with assms(3) have up: "\<forall>db. as_db st' = Some db \<longrightarrow> (\<forall>n. ad_up db n)" by (simp add: keeps_session_def)
  have "fst (lookup_session now token st') = fst (lookup_session now token st)"
    unfolding lookup_session_found [OF assms(3)] lookup_session_found [OF up] using k by (simp only: keeps_session_def)
  moreover have "session_signing_secret env st' = session_signing_secret env st"
    using k by (simp add: session_signing_secret_def keeps_session_def)
  ultimately show ?thesis by (simp only: resolve_token_fst)
qed

theorem password_change_keeps_sessions_witness:
  "\<exists>st'. auth_change_password demo_auth_env 1 (Some ''Bearer u1'') ''pass1'' ''newpass'' (Some ''newpass'')
       (snd (auth_login demo_auth_env 0 ''u1'' ''admin'' ''pass1'' demo_admin)) = (ApiOk (), st') \<and>
     fst (resolve_username_from_token demo_auth_env 2 ''u2'' st') =
       fst (resolve_username_from_token demo_auth_env 2 ''u2'' (snd (auth_login demo_auth_env 0 ''u1'' ''admin'' ''pass1'' demo_admin)))"
proof -
  let ?st = "snd (auth_login demo_auth_env 0 ''u1'' ''admin'' ''pass1'' demo_admin)"
  have b: "extract_bearer (Some ''Bearer u1'') = Some ''u1''" "trim ''newpass'' = ''newpass''"
    by (simp_all add: extract_bearer_def run)
  have "fst (auth_change_password demo_auth_env 1 (Some ''Bearer u1'') ''pass1'' ''newpass'' (Some ''newpass'') ?st) = ApiOk ()"
    by (simp add: auth_change_password_def resolve_username_def b resolve_username_from_token_def lookup_session_def session_username_def
        demo_login demo_auth_facts get_user_password_hash_def update_user_password_def admin_statement_def)
  then obtain st' where c: "auth_change_password demo_auth_env 1 (Some ''Bearer u1'') ''pass1'' ''newpass'' (Some ''newpass'') ?st = (ApiOk (), st')"
    by (metis prod.collapse)
  from password_change_keeps_sessions [OF this, of "''u2''"] c show ?thesis by (simp add: b demo_login)
qed

section \<open>Signed tokens\<close>

lemma show_i64_chars: "c \<in> set (show_i64 i) \<Longrightarrow> is_digit c \<or> c = CHR ''-''"
  using show_nat_digits [of "nat i"] show_nat_digits [of "nat (- i)"] by (auto simp: show_i64_def list_all_iff split: if_splits)

lemma parse_show_i64:
  assumes "- (2 ^ 63) \<le> i" and "i < 2 ^ 63"
  shows "parse_i64 (show_i64 i) = Some i"
proof (cases "i < 0")
  case True
  then show ?thesis using assms by (simp add: show_i64_def parse_i64_def filter_opt_def)
next
  case False
  obtain c t where c: "show_nat (nat i) = c # t" "is_digit c"
    using show_nat_digits [of "nat i"] by (cases "show_nat (nat i)") auto
  then have "c \<noteq> CHR ''-''" by (auto simp: is_digit_def)
  then have "parse_i64 (show_nat (nat i)) = map_option int (parse_bounded (2 ^ 63) (show_nat (nat i)))"
    using c by (simp add: parse_i64_def)
  with False assms show ?thesis by (simp add: show_i64_def parse_bounded_show_nat)
qed

lemma signed_i64_range: "- (2 ^ 63) \<le> signed_take_bit 63 (x :: int)" "signed_take_bit 63 x < 2 ^ 63"
  using signed_take_bit_int_greater_eq_minus_exp [of 63 x] signed_take_bit_int_less_exp [of 63 x] by simp_all

definition is_hex :: "string \<Rightarrow> bool" where
  "is_hex s \<longleftrightarrow> set s \<subseteq> set ''0123456789abcdef''"

lemma is_hex_trim:
  assumes h: "is_hex s"
  shows "trim s = s \<and> CHR ''.'' \<notin> set s"
proof
  have "list_all (\<lambda>c. 33 \<le> code c \<and> code c < 128) ''0123456789abcdef''" by simp
  then have "list_all (\<lambda>c. 33 \<le> code c \<and> code c < 128) s"
    using h unfolding is_hex_def list_all_iff by blast
  then show "trim s = s" by (rule trim_visible)
  have "CHR ''.'' \<notin> set ''0123456789abcdef''" by simp
  then show "CHR ''.'' \<notin> set s" using h unfolding is_hex_def by blast
qed

lemma split_signed_token:
  assumes "CHR ''.'' \<notin> set a" "CHR ''.'' \<notin> set b" "CHR ''.'' \<notin> set c" "CHR ''.'' \<notin> set d"
  shows "split_on (\<lambda>c. c = CHR ''.'') (a @ CHR ''.'' # b @ CHR ''.'' # c @ CHR ''.'' # d) = [a, b, c, d]"
proof -
  have n: "split_on (\<lambda>c. c = CHR ''.'') w = [w]" "split_on (\<lambda>c. c = CHR ''.'') (w @ CHR ''.'' # r) = w # split_on (\<lambda>c. c = CHR ''.'') r"
    if "CHR ''.'' \<notin> set w" for w r :: string
    using that by (auto intro!: split_on_none split_on_append)
  show ?thesis by (simp only: n(2) [OF assms(1)] n(2) [OF assms(2)] n(2) [OF assms(3)] n(1) [OF assms(4)])
qed

text \<open>C23: Signed session tokens.  A token signed at a sign-in is accepted, for the user it was issued
  to, by every replica that has the same signing secret, until its lifetime has passed and not longer.
  The signature is written in hexadecimal digits, as the hex crate does.\<close>
theorem signed_session_roundtrip:
  assumes "mint_signed_session_token env t secret user ttl = Some token"
    and "\<forall>k m. is_hex (ae_hmac_hex env k m)"
  shows "verify_signed_session_token env now secret token =
    (if unix_secs now \<le> signed_take_bit 63 (unix_secs t + sint ttl) then Some user else None)"
proof -
  let ?exp = "signed_take_bit 63 (unix_secs t + sint ttl)"
  let ?sig = "ae_hmac_hex env secret (session_payload user ?exp)"
  have u: "user \<noteq> []" "CHR ''.'' \<notin> set user"
    and token: "token = ''pp1'' @ CHR ''.'' # user @ CHR ''.'' # show_i64 ?exp @ CHR ''.'' # ?sig"
    using assms(1) by (auto simp: mint_signed_session_token_def Let_def split: if_splits)
  have sig: "trim ?sig = ?sig" "CHR ''.'' \<notin> set ?sig" using assms(2) is_hex_trim by blast+
  have e: "CHR ''.'' \<notin> set (show_i64 ?exp)" using show_i64_chars [of "CHR ''.''" ?exp] by (auto simp: is_digit_def)
  have "split_on (\<lambda>c. c = CHR ''.'') token = [''pp1'', user, show_i64 ?exp, ?sig]"
    unfolding token by (rule split_signed_token) (use u e sig in simp_all)
  then show ?thesis
    using u sig parse_show_i64 [OF signed_i64_range]
    by (simp add: verify_signed_session_token_def eq_ignore_ascii_case_def)
qed

theorem signed_session_roundtrip_witness:
  "\<exists>token. mint_signed_session_token demo_auth_env 0 ''secret'' ''admin'' 60 = Some token \<and>
     verify_signed_session_token demo_auth_env 60000000000 ''secret'' token = Some ''admin'' \<and>
     verify_signed_session_token demo_auth_env 61000000000 ''secret'' token = None"
proof -
  obtain token where m: "mint_signed_session_token demo_auth_env 0 ''secret'' ''admin'' 60 = Some token"
    by (simp add: mint_signed_session_token_def Let_def)
  have "\<forall>k m. is_hex (ae_hmac_hex demo_auth_env k m)" by (simp add: demo_auth_env_def is_hex_def)
  note r = signed_session_roundtrip [OF m this]
  have "sint (60 :: u64) = 60" by simp
  then show ?thesis using m r [of 60000000000] r [of 61000000000] by (simp add: unix_secs_def signed_take_bit_int_eq_self)
qed

end
