(* ===== verification/Gateway_Safety.thy ===== *)
theory Gateway_Safety
  imports Gateway
begin

text \<open>
  What the pipeline of the theory Gateway guarantees: a request that is forwarded has passed every
  policy of its route, with the exceptions the code makes (plain HTTP before the certificate
  exists, a route that cannot be resolved); how the peer of a Consul route advances; what the
  response cache collects; and what the life of a request does to the gauge of connections.
\<close>

section \<open>Stages that pass\<close>

text \<open>A pipeline whose stages never wave a request through lets it pass exactly when one stage after
  the other does.\<close>
definition answers_only :: "stage \<Rightarrow> bool" where
  "answers_only f \<longleftrightarrow> (\<forall>ctx st. fst (f ctx st) \<noteq> Some Proceed)"

fun passes :: "stage list \<Rightarrow> RequestCtx \<Rightarrow> gw_state \<Rightarrow> RequestCtx \<Rightarrow> gw_state \<Rightarrow> bool" where
  "passes [] ctx st ctx' st' \<longleftrightarrow> ctx' = ctx \<and> st' = st"
| "passes (f # fs) ctx st ctx' st' \<longleftrightarrow> (\<exists>ctx1 st1. f ctx st = (None, ctx1, st1) \<and> passes fs ctx1 st1 ctx' st')"

lemma run_stages_passes:
  "list_all answers_only fs \<Longrightarrow> run_stages fs ctx st = (Proceed, ctx', st') \<longleftrightarrow> passes fs ctx st ctx' st'"
proof (induction fs arbitrary: ctx st)
  case (Cons f fs)
  then have "fst (f ctx st) \<noteq> Some Proceed" by (simp add: answers_only_def)
  with Cons show ?case by (cases "f ctx st") (auto split: option.splits)
qed auto

lemma probe_stage_pass: "answers_only (probe_stage env sn)"
  "probe_stage env sn ctx st = (None, ctx', st') \<Longrightarrow> ctx' = ctx \<and> st' = st"
  by (auto simp: answers_only_def probe_stage_def)

lemma acme_stage_pass: "answers_only (acme_stage env gw sn)"
  "acme_stage env gw sn ctx st = (None, ctx', st') \<Longrightarrow> ctx' = ctx \<and> st' = st"
  by (auto simp: answers_only_def acme_stage_def split: option.splits)

lemma installer_stage_pass: "answers_only (installer_stage env sn)"
  "installer_stage env sn ctx st = (None, ctx', st') \<Longrightarrow> ctx' = ctx \<and> st' = st"
  by (auto simp: answers_only_def installer_stage_def split: if_splits)

lemma auto_https_stage_pass:
  "\<not> (gw_auto_https gw \<and> is_plain_http env sn) \<Longrightarrow> auto_https_stage env gw sn ctx st = (None, ctx, st)"
  by (auto simp: auto_https_stage_def)

lemma unknown_host_stage_pass: "answers_only (unknown_host_stage env gw sn)"
  "unknown_host_stage env gw sn ctx st = (None, ctx', st') \<Longrightarrow> ctx' = ctx \<and> st' = st"
  by (auto simp: answers_only_def unknown_host_stage_def Let_def split: if_splits)

text \<open>The plan the route gives for the request, and the context after routing.\<close>
definition plan_of :: "('h, 'm) env \<Rightarrow> moment \<Rightarrow> Gateway \<Rightarrow> 'h Session \<Rightarrow> gw_state \<Rightarrow> forward_error + ForwardPlan" where
  "plan_of env t gw sn st = fst (resolve_forward (ev_tcp env) (mo_probe_start t) (mo_probe_end t) (gw_router gw)
     (request_host env (sn_req sn)) (uri_path_q (sn_uri sn)) (gs_forward st))"

definition routed_ctx :: "('h, 'm) env \<Rightarrow> moment \<Rightarrow> Gateway \<Rightarrow> 'h Session \<Rightarrow> RequestCtx \<Rightarrow> gw_state \<Rightarrow> RequestCtx" where
  "routed_ctx env t gw sn ctx st =
     (case plan_of env t gw sn st of Inr plan \<Rightarrow> reset_ctx (fp_middleware plan) ctx | Inl _ \<Rightarrow> ctx)"

lemma route_stage_pass:
  obtains fs where "route_stage env t gw sn ctx st = (None, routed_ctx env t gw sn ctx st, st\<lparr>gs_forward := fs\<rparr>)"
proof -
  obtain r fs where *: "resolve_forward (ev_tcp env) (mo_probe_start t) (mo_probe_end t) (gw_router gw)
     (request_host env (sn_req sn)) (uri_path_q (sn_uri sn)) (gs_forward st) = (r, fs)" by fastforce
  show thesis
    by (rule that [of fs], cases r) (simp_all add: route_stage_def routed_ctx_def plan_of_def *)
qed

lemma x4xx_stage_pass: "answers_only (x4xx_stage env t sn)"
  "x4xx_stage env t sn ctx st = (None, ctx', st') \<Longrightarrow> ctx' = ctx \<and> st' = st \<and>
     \<not> x4xx_blocked (mo_x4xx t) (get_or ''-'' (session_client_ip env sn)) (request_host env (sn_req sn))
       (ep_x4xx_limit_rps (rc_edge ctx)) (gs_windows st)"
  by (auto simp: answers_only_def x4xx_stage_def too_many_def x4xx_blocked_def word_gt_0 split: if_splits)

lemma rate_limited_zero: "rate_limited sec key 0 w = (False, w)"
  by (simp add: rate_limited_def)

lemma rate_stage_eq:
  "rate_stage env t sn ctx st =
     (case rate_limited (mo_rate t) (rate_key (session_client_ip env sn) (request_host env (sn_req sn)))
             (ep_rate_limit_rps (rc_edge ctx)) (gs_windows st) of
        (True, w) \<Rightarrow> (Some (too_many env sn ''too many requests''), ctx, st\<lparr>gs_windows := w\<rparr>)
      | (False, w) \<Rightarrow> (None, ctx\<lparr>rc_rate_client := session_client_ip env sn,
          rc_rate_host := Some (request_host env (sn_req sn))\<rparr>, st\<lparr>gs_windows := w\<rparr>))"
  by (cases "ep_rate_limit_rps (rc_edge ctx) = 0")
    (auto simp: rate_stage_def rate_limited_zero word_gt_0 Let_def split: prod.splits bool.splits)

lemma rate_stage_pass: "answers_only (rate_stage env t sn)"
  "rate_stage env t sn ctx st = (None, ctx', st') \<Longrightarrow>
     ctx' = ctx\<lparr>rc_rate_client := session_client_ip env sn, rc_rate_host := Some (request_host env (sn_req sn))\<rparr> \<and>
     (\<exists>w. st' = st\<lparr>gs_windows := w\<rparr>) \<and>
     \<not> fst (rate_limited (mo_rate t) (rate_key (session_client_ip env sn) (request_host env (sn_req sn)))
       (ep_rate_limit_rps (rc_edge ctx)) (gs_windows st))"
  by (auto simp: answers_only_def rate_stage_eq too_many_def split: prod.splits bool.splits)

definition auth_passed :: "('h, 'm) env \<Rightarrow> moment \<Rightarrow> 'h Session \<Rightarrow> EdgePolicy \<Rightarrow> bool" where
  "auth_passed env t sn p = (case ep_auth p of None \<Rightarrow> True | Some auth \<Rightarrow> auth_ok env t sn auth)"

lemma auth_stage_pass: "answers_only (auth_stage env t sn)"
  "auth_stage env t sn ctx st = (None, ctx', st') \<Longrightarrow> ctx' = ctx \<and> st' = st \<and> auth_passed env t sn (rc_edge ctx)"
  by (auto simp: answers_only_def auth_stage_def auth_passed_def Let_def split: option.splits if_splits)

lemma file_stage_pass: "answers_only (file_stage env sn)"
  "file_stage env sn ctx st = (None, ctx', st') \<Longrightarrow> ctx' = ctx \<and> st' = st \<and> rc_file_root ctx = None"
  by (auto simp: answers_only_def file_stage_def split: option.splits prod.splits)

lemma cache_stage_pass: "answers_only (cache_stage env t gw sn)"
  "cache_stage env t gw sn ctx st = (None, ctx', st') \<Longrightarrow>
     (\<exists>b k. ctx' = ctx\<lparr>rc_cache_collect := b, rc_cache_key := k\<rparr>) \<and> (\<exists>c. st' = st\<lparr>gs_cache := c\<rparr>)"
proof -
  show "answers_only (cache_stage env t gw sn)"
    by (auto simp: answers_only_def cache_stage_def Let_def split: option.splits prod.splits)
  assume *: "cache_stage env t gw sn ctx st = (None, ctx', st')"
  show "(\<exists>b k. ctx' = ctx\<lparr>rc_cache_collect := b, rc_cache_key := k\<rparr>) \<and> (\<exists>c. st' = st\<lparr>gs_cache := c\<rparr>)"
  proof (cases "cache_applies gw sn ctx")
    case False
    then have "ctx' = ctx\<lparr>rc_cache_collect := rc_cache_collect ctx, rc_cache_key := rc_cache_key ctx\<rparr>"
      and "st' = st\<lparr>gs_cache := gs_cache st\<rparr>"
      using * by (simp_all add: cache_stage_def)
    then show ?thesis by blast
  next
    case True
    obtain found c where "cache_get (mo_cache t) (cache_key_of env sn) (gs_cache st) = (found, c)" by fastforce
    with * True have "ctx' = ctx\<lparr>rc_cache_collect := True, rc_cache_key := Some (cache_key_of env sn)\<rparr> \<and>
        st' = st\<lparr>gs_cache := c\<rparr>"
      by (auto simp: cache_stage_def Let_def split: option.splits)
    then show ?thesis by blast
  qed
qed

lemma geoip_stage_pass: "answers_only (geoip_stage env t sn)"
  "geoip_stage env t sn ctx st = (None, ctx', st') \<Longrightarrow> ctx' = ctx \<and> st' = st \<and> geoip_decision env sn ctx = Allow"
  by (auto simp: answers_only_def geoip_stage_def geoip_decision_def evaluate_ip_def Let_def split: if_splits)

lemma respond_redirect_not_Proceed: "respond_redirect v i s l c \<noteq> Proceed"
  by (simp add: respond_redirect_def)

lemma captcha_stage_pass: "answers_only (captcha_stage env t sn)"
  "captcha_stage env t sn ctx st = (None, ctx', st') \<Longrightarrow> ctx' = ctx \<and> st' = st \<and> \<not> is_captcha_path (ur_path (sn_uri sn))"
  by (auto simp: answers_only_def captcha_stage_def challenge_reply_def respond_redirect_not_Proceed Let_def
      split: if_splits sum.splits prod.splits)

definition security_verdict :: "('h, 'm) env \<Rightarrow> moment \<Rightarrow> 'h Session \<Rightarrow> RequestCtx \<Rightarrow> gw_state \<Rightarrow> SecurityAction" where
  "security_verdict env t sn ctx st =
     sd_action (fst (security_evaluate (ev_mac env) (mo_bot t) (mo_cookie t) (rc_security ctx) (request_view env sn) (gs_rates st)))"

lemma security_verdict_inactive: "\<not> security_is_active (rc_security ctx) \<Longrightarrow> security_verdict env t sn ctx st = SecAllow"
  by (simp add: security_verdict_def security_evaluate_def)

lemma security_stage_pass: "answers_only (security_stage env t sn)"
  "security_stage env t sn ctx st = (None, ctx', st') \<Longrightarrow> ctx' = ctx \<and> security_verdict env t sn ctx st \<in> {SecAllow, SecLog}"
proof -
  show "answers_only (security_stage env t sn)"
    by (simp add: answers_only_def security_stage_def challenge_reply_def Let_def split: SecurityAction.split prod.split)
  assume "security_stage env t sn ctx st = (None, ctx', st')"
  then show "ctx' = ctx \<and> security_verdict env t sn ctx st \<in> {SecAllow, SecLog}"
  proof (cases "security_is_active (rc_security ctx)")
    case True
    then show "security_stage env t sn ctx st = (None, ctx', st') \<Longrightarrow> ?thesis"
      by (auto simp: security_stage_def security_verdict_def Let_def split: SecurityAction.splits prod.splits)
  qed (simp add: security_stage_def security_verdict_inactive)
qed

definition grpc_passed :: "'h Session \<Rightarrow> RequestCtx \<Rightarrow> bool" where
  "grpc_passed sn ctx = (if rc_is_grpc ctx then rq_method (sn_req sn) = ''POST'' \<and> (rc_is_grpc_web ctx \<or> sn_http2 sn) else True)"

lemma grpc_stage_pass: "answers_only (grpc_stage sn)"
  "grpc_stage sn ctx st = (None, ctx', st') \<Longrightarrow> ctx' = ctx \<and> st' = st \<and> grpc_passed sn ctx"
  by (auto simp: answers_only_def grpc_stage_def grpc_passed_def validate_downstream_ok split: if_splits option.splits)

section \<open>A sample gateway\<close>

definition demo_route :: Route where
  "demo_route = \<lparr>rt_path = ''/'', rt_path_type = Prefix, rt_backend = \<lparr>be_address = ''consul:web'', be_port = 80, be_use_tls = False\<rparr>,
     rt_middlewares = [], rt_forward_client_ip = True, rt_geoip = geoip_default, rt_security = security_default\<rparr>"

definition demo_gateway :: "bool \<Rightarrow> Gateway" where
  "demo_gateway auto_https =
     \<lparr>gw_router = \<lparr>tb_routes = [(''ex.org'', [demo_route])],
        tb_edge = [(''ex.org'', [(''/'', \<lparr>ep_auth = Some (ApiKey ''k''), ep_rate_limit_rps = 5, ep_x4xx_limit_rps = 3, ep_cache = None\<rparr>)])],
        tb_globals = edge_globals_default\<rparr>,
      gw_cert_store = cert_store_new, gw_auto_https = auto_https, gw_https_port = 443, gw_enable_h3 = False, gw_h3_port = 443,
      gw_http01_store = None\<rparr>"

definition demo_env :: "(header_list, unit) env" where
  "demo_env = \<lparr>ev_headers = header_list_map, ev_var = (\<lambda>_. None), ev_ingress = False, ev_lower = id, ev_hmac = (\<lambda>_ _. []),
     ev_mac = id, ev_send = (\<lambda>_ _. None),
     ev_engine = \<lparr>eng_country = None, eng_asn = None, eng_country_path = None, eng_asn_path = None\<rparr>,
     ev_mm_country = (\<lambda>_ _. None), ev_mm_asn = (\<lambda>_ _. None), ev_tcp = (\<lambda>_ _ _. NoAddress), ev_read_file = (\<lambda>_. None),
     ev_valid_name = (\<lambda>_. True), ev_valid_value = header_text, ev_set_paq = (\<lambda>u p. Some (u\<lparr>ur_path := p\<rparr>)), ev_render = (\<lambda>_. []),
     ev_install_script = [], ev_log_level = 1, ev_log_enabled = True\<rparr>"

definition demo_moment :: moment where
  "demo_moment = \<lparr>mo_probe_start = 0, mo_probe_end = 0, mo_x4xx = 7, mo_rate = 7, mo_auth = 7, mo_cache = 0, mo_log = 0, mo_verify = 7,
     mo_challenge = 7, mo_a = 1, mo_b = 2, mo_bot = 0, mo_cookie = 7\<rparr>"

definition demo_session :: "header_list \<Rightarrow> header_list Session" where
  "demo_session headers =
     \<lparr>sn_req = \<lparr>rq_method = ''GET'',
        rq_uri = \<lparr>ur_scheme = None, ur_authority_host = None, ur_path = ''/x'', ur_query = None, ur_path_and_query = Some ''/x''\<rparr>,
        rq_headers = (''host'', ''ex.org'') # headers\<rparr>,
      sn_http2 = False, sn_ssl = True, sn_client_addr = Some (Inet ''8.8.8.8''), sn_peer_addr = None, sn_written = None\<rparr>"

definition demo_state :: gw_state where
  "demo_state = \<lparr>gs_forward = \<lparr>fs_consul = \<lparr>cs_endpoints = [(''web'', [(''10.0.0.1'', 80), (''10.0.0.2'', 80)])], cs_rr = 0\<rparr>, fs_probes = []\<rparr>,
     gs_windows = [], gs_cache = cache_empty, gs_rates = [], gs_metrics = metrics_new, gs_log = proxy_log_new 10\<rparr>"

lemmas demo_defs = demo_route_def demo_gateway_def demo_env_def demo_moment_def demo_session_def demo_state_def
  edge_globals_default_def cert_store_new_def cache_empty_def

lemma demo_client: "session_client_ip demo_env (demo_session h) = Some ''8.8.8.8''"
proof -
  have "normalize_ip_str ''8.8.8.8'' = Some ''8.8.8.8''" and "is_public_routable_ip ''8.8.8.8''"
    by (simp_all add: run normalize_ip_str_def is_public_routable_ip_def)
  then show ?thesis
    by (simp add: session_client_ip_def resolve_client_ip_def demo_session_def as_inet_def)
qed

lemma demo_host: "request_host demo_env (sn_req (demo_session h)) = ''ex.org''"
  by (simp add: demo_defs run)

lemmas run_demo = run demo_client demo_host

lemma demo_plan:
  "resolve_forward tcp a b (gw_router (demo_gateway x)) ''ex.org'' ''/x'' (gs_forward demo_state) =
    (Inr \<lparr>fp_peer_host = ''10.0.0.1'', fp_peer_port = 80, fp_upstream_url = ''http://10.0.0.1:80/x'', fp_use_tls = False,
       fp_middleware = route_middleware (gw_router (demo_gateway x)) ''ex.org'' demo_route\<rparr>, gs_forward (demo_state\<lparr>gs_forward :=
         (gs_forward demo_state)\<lparr>fs_consul := (fs_consul (gs_forward demo_state))\<lparr>cs_rr := 1\<rparr>\<rparr>\<rparr>))"
  by (simp add: demo_defs run show_nat.simps digit_char_def)

lemma demo_fields:
  "rq_method (sn_req (demo_session h)) = ''GET''"
  "sn_uri (demo_session h) = \<lparr>ur_scheme = None, ur_authority_host = None, ur_path = ''/x'', ur_query = None, ur_path_and_query = Some ''/x''\<rparr>"
  "rq_headers (sn_req (demo_session h)) = (''host'', ''ex.org'') # h"
  "sn_http2 (demo_session h) = False"
  "gs_windows demo_state = []"
  "deny_enabled (ev_var demo_env v) = True"
  "ev_ingress demo_env = False"
  by (simp_all add: demo_session_def demo_state_def demo_env_def deny_enabled_def)

lemma demo_has_host: "has_host (gw_router (demo_gateway x)) ''ex.org''"
  by (simp add: demo_defs run)

lemma demo_edge: "edge_for (gw_router (demo_gateway x)) ''ex.org'' (rt_path demo_route) =
    \<lparr>ep_auth = Some (ApiKey ''k''), ep_rate_limit_rps = 5, ep_x4xx_limit_rps = 3, ep_cache = None\<rparr>"
  "rt_geoip demo_route = geoip_default" "rt_security demo_route = security_default"
  "ma_file_root (route_middleware (gw_router (demo_gateway x)) ''ex.org'' demo_route) = None"
  "gw_http01_store (demo_gateway x) = None" "gw_auto_https (demo_gateway x) = x"
  "eg_cache_size_mb (tb_globals (gw_router (demo_gateway x))) = 0"
  "is_captcha_path ''/x'' = False"
  by (simp_all add: demo_defs run route_middleware_def is_captcha_path_def CAPTCHA_PATH_def CAPTCHA_VERIFY_PATH_def)

lemma demo_early:
  "probe_stage demo_env (demo_session h) c s = (None, c, s)"
  "acme_stage demo_env (demo_gateway x) (demo_session h) c s = (None, c, s)"
  "installer_stage demo_env (demo_session h) c s = (None, c, s)"
  "auto_https_stage demo_env (demo_gateway False) (demo_session h) c s = (None, c, s)"
  "unknown_host_stage demo_env (demo_gateway x) (demo_session h) c s = (None, c, s)"
  by (simp_all add: probe_stage_def acme_stage_def installer_stage_def auto_https_stage_def unknown_host_stage_def
      try_respond_health_def is_health_path_def demo_fields demo_edge demo_host demo_has_host Let_def)
    (simp add: demo_env_def no_installer)

lemma demo_auth: "auth_ok demo_env demo_moment (demo_session h) (ApiKey ''k'') \<longleftrightarrow> sn_get demo_env (demo_session h) ''x-api-key'' = Some ''k''"
  by (simp add: auth_ok_def auth_header_ok_def)

lemma demo_key: "hm_get (ev_headers demo_env) [(''host'', ''ex.org''), (''x-api-key'', ''k'')] ''x-api-key'' = Some ''k''"
  by (simp add: demo_defs run)

lemma inactive_defaults: "geoip_is_active geoip_default = False" "security_is_active security_default = False"
  by (simp_all add: geoip_is_active_def geoip_default_def security_is_active_def security_default_def waf_is_active_def
      waf_default_def bot_is_active_def bot_default_def captcha_default_def)

abbreviation demo_request :: "header_list Session" where
  "demo_request \<equiv> demo_session [(''x-api-key'', ''k'')]"

lemma demo_passes:
  assumes "\<not> rc_is_grpc c" and "gs_forward s = gs_forward demo_state" and "gs_windows s = []"
  obtains c' s' where "request_filter demo_env demo_moment (demo_gateway False) demo_request c s = (Proceed, c', s')"
proof -
  have "fst (request_filter demo_env demo_moment (demo_gateway False) demo_request c s) = Proceed"
    using assms by (simp add: request_filter_def demo_early route_stage_def demo_fields demo_host demo_plan uri_path_q_def reset_ctx_def
      ctx_from_middleware_def demo_edge x4xx_stage_def x4xx_blocked_def rate_stage_eq rate_limited_def demo_client
      auth_stage_def demo_auth demo_key file_stage_def cache_stage_def cache_applies_def cache_enabled_def geoip_stage_def
      inactive_defaults captcha_stage_def security_stage_def grpc_stage_def)
  then show thesis using that by (metis prod.collapse)
qed

lemma demo_resolved: "gs_forward s = gs_forward demo_state \<Longrightarrow> plan_of demo_env t (demo_gateway x) (demo_session h) s =
    Inr (fst (\<lparr>fp_peer_host = ''10.0.0.1'', fp_peer_port = 80, fp_upstream_url = ''http://10.0.0.1:80/x'', fp_use_tls = False,
       fp_middleware = route_middleware (gw_router (demo_gateway x)) ''ex.org'' demo_route\<rparr>, ()))"
  by (simp add: plan_of_def demo_host demo_fields uri_path_q_def demo_plan)

section \<open>Forwarded requests have passed their policies\<close>

text \<open>Everything the pipeline demands of a request under the policies of its context, given the tables
  with which it started.\<close>
definition vetted :: "('h, 'm) env \<Rightarrow> moment \<Rightarrow> 'h Session \<Rightarrow> RequestCtx \<Rightarrow> gw_state \<Rightarrow> bool" where
  "vetted env t sn ctx st \<longleftrightarrow>
     (let ip = session_client_ip env sn; host = request_host env (sn_req sn) in
      \<not> x4xx_blocked (mo_x4xx t) (get_or ''-'' ip) host (ep_x4xx_limit_rps (rc_edge ctx)) (gs_windows st) \<and>
      \<not> fst (rate_limited (mo_rate t) (rate_key ip host) (ep_rate_limit_rps (rc_edge ctx)) (gs_windows st)) \<and>
      auth_passed env t sn (rc_edge ctx) \<and> rc_file_root ctx = None \<and>
      geoip_decision env sn ctx = Allow \<and> \<not> is_captcha_path (ur_path (sn_uri sn)) \<and>
      security_verdict env t sn ctx st \<in> {SecAllow, SecLog} \<and> grpc_passed sn ctx)"

lemma vetted_cong:
  assumes "rc_edge c = rc_edge d" "rc_file_root c = rc_file_root d" "rc_geoip c = rc_geoip d"
    "rc_security c = rc_security d" "rc_is_grpc c = rc_is_grpc d" "rc_is_grpc_web c = rc_is_grpc_web d"
  shows "vetted env t sn c st = vetted env t sn d st"
  using assms by (simp add: vetted_def geoip_decision_def security_verdict_def grpc_passed_def)

lemmas stages_answer = probe_stage_pass(1) acme_stage_pass(1) installer_stage_pass(1) unknown_host_stage_pass(1)
  x4xx_stage_pass(1) rate_stage_pass(1) auth_stage_pass(1) file_stage_pass(1) cache_stage_pass(1) geoip_stage_pass(1)
  captcha_stage_pass(1) security_stage_pass(1) grpc_stage_pass(1)

definition policy_stages :: "('h, 'm) env \<Rightarrow> moment \<Rightarrow> Gateway \<Rightarrow> 'h Session \<Rightarrow> stage list" where
  "policy_stages env t gw sn = [x4xx_stage env t sn, rate_stage env t sn, auth_stage env t sn, file_stage env sn,
      cache_stage env t gw sn, geoip_stage env t sn, captcha_stage env t sn, security_stage env t sn, grpc_stage sn]"

lemma policy_stages_answer: "list_all answers_only (policy_stages env t gw sn)"
  by (simp add: policy_stages_def stages_answer)

lemma policy_stages_vetted:
  assumes "passes (policy_stages env t gw sn) ctx st ctx' st'"
  shows "vetted env t sn ctx st \<and> (\<exists>b k. ctx' = ctx\<lparr>rc_rate_client := session_client_ip env sn,
      rc_rate_host := Some (request_host env (sn_req sn)), rc_cache_collect := b, rc_cache_key := k\<rparr>)"
proof -
  obtain c1 s1 c2 s2 c3 s3 c4 s4 c5 s5 c6 s6 c7 s7 c8 s8 where f:
    "x4xx_stage env t sn ctx st = (None, c1, s1)" "rate_stage env t sn c1 s1 = (None, c2, s2)"
    "auth_stage env t sn c2 s2 = (None, c3, s3)" "file_stage env sn c3 s3 = (None, c4, s4)"
    "cache_stage env t gw sn c4 s4 = (None, c5, s5)" "geoip_stage env t sn c5 s5 = (None, c6, s6)"
    "captcha_stage env t sn c6 s6 = (None, c7, s7)" "security_stage env t sn c7 s7 = (None, c8, s8)"
    "grpc_stage sn c8 s8 = (None, ctx', st')"
    using assms unfolding policy_stages_def passes.simps by blast
  note p = x4xx_stage_pass(2) [OF f(1)] rate_stage_pass(2) [OF f(2)] auth_stage_pass(2) [OF f(3)]
    file_stage_pass(2) [OF f(4)] cache_stage_pass(2) [OF f(5)] geoip_stage_pass(2) [OF f(6)]
    captcha_stage_pass(2) [OF f(7)] security_stage_pass(2) [OF f(8)] grpc_stage_pass(2) [OF f(9)]
  obtain b k where c: "c1 = ctx" "c2 = ctx\<lparr>rc_rate_client := session_client_ip env sn, rc_rate_host := Some (request_host env (sn_req sn))\<rparr>"
    "c3 = c2" "c4 = c2" "c5 = c2\<lparr>rc_cache_collect := b, rc_cache_key := k\<rparr>" "c6 = c5" "c7 = c5" "c8 = c5" "ctx' = c5"
    using p by blast
  have s: "gs_windows s1 = gs_windows st" "gs_rates s7 = gs_rates st" using p by auto
  have "vetted env t sn ctx st"
    using p(1-4,6-9) unfolding vetted_def geoip_decision_def security_verdict_def grpc_passed_def c s
    by (simp split: if_splits)
  moreover have "ctx' = ctx\<lparr>rc_rate_client := session_client_ip env sn,
      rc_rate_host := Some (request_host env (sn_req sn)), rc_cache_collect := b, rc_cache_key := k\<rparr>"
    unfolding c by (rule refl)
  ultimately show ?thesis by blast
qed

lemma request_filter_split:
  assumes "request_filter env t gw sn ctx st = (Proceed, ctx', st')" and "\<not> (gw_auto_https gw \<and> is_plain_http env sn)"
  shows "passes (policy_stages env t gw sn) (routed_ctx env t gw sn ctx st) (snd (snd (route_stage env t gw sn ctx st))) ctx' st'"
proof -
  have quiet: "answers_only (auto_https_stage env gw sn)" "answers_only (route_stage env t gw sn)"
    using auto_https_stage_pass [OF assms(2)] by (auto simp: answers_only_def route_stage_def split: prod.splits sum.splits)
  let ?early = "[probe_stage env sn, acme_stage env gw sn, installer_stage env sn, auto_https_stage env gw sn,
      unknown_host_stage env gw sn, route_stage env t gw sn]"
  have "list_all answers_only (?early @ policy_stages env t gw sn)"
    using quiet by (simp only: list_all_append list.pred_inject policy_stages_answer stages_answer simp_thms)
  moreover have "request_filter env t gw sn = run_stages (?early @ policy_stages env t gw sn)"
    by (simp only: request_filter_def policy_stages_def append.simps)
  ultimately have "passes (?early @ policy_stages env t gw sn) ctx st ctx' st'"
    using assms(1) by (simp only: run_stages_passes)
  then obtain c1 s1 c2 s2 c3 s3 c4 s4 c5 s5 c6 s6 where f:
    "probe_stage env sn ctx st = (None, c1, s1)" "acme_stage env gw sn c1 s1 = (None, c2, s2)"
    "installer_stage env sn c2 s2 = (None, c3, s3)" "auto_https_stage env gw sn c3 s3 = (None, c4, s4)"
    "unknown_host_stage env gw sn c4 s4 = (None, c5, s5)" "route_stage env t gw sn c5 s5 = (None, c6, s6)"
    and p: "passes (policy_stages env t gw sn) c6 s6 ctx' st'"
    unfolding append.simps passes.simps by blast
  have "c5 = ctx \<and> s5 = st"
    using f probe_stage_pass(2) [OF f(1)] acme_stage_pass(2) [OF f(2)] installer_stage_pass(2) [OF f(3)]
      unknown_host_stage_pass(2) [OF f(5)] auto_https_stage_pass [OF assms(2), of c3 s3] by simp
  moreover obtain fs where "route_stage env t gw sn c5 s5 = (None, routed_ctx env t gw sn c5 s5, s5\<lparr>gs_forward := fs\<rparr>)"
    by (rule route_stage_pass)
  ultimately show ?thesis using p f(6) by simp
qed

lemma routed_policies:
  assumes "plan_of env t gw sn st = Inr plan"
  obtains route where "match_route_entry (gw_router gw) (request_host env (sn_req sn)) (before CHR ''?'' (uri_path_q (sn_uri sn))) = Some route"
    and "rc_geoip (routed_ctx env t gw sn ctx st) = rt_geoip route"
    and "rc_security (routed_ctx env t gw sn ctx st) = rt_security route"
    and "rc_edge (routed_ctx env t gw sn ctx st) = edge_for (gw_router gw) (request_host env (sn_req sn)) (rt_path route)"
proof -
  obtain fs where "resolve_forward (ev_tcp env) (mo_probe_start t) (mo_probe_end t) (gw_router gw)
     (request_host env (sn_req sn)) (uri_path_q (sn_uri sn)) (gs_forward st) = (Inr plan, fs)"
    using assms unfolding plan_of_def by (metis prod.collapse)
  then show thesis
    by (rule resolve_forward_route) (use assms that in \<open>simp add: routed_ctx_def reset_ctx_def ctx_from_middleware_def\<close>)
qed

text \<open>The policies the configuration gives to the route of the request.\<close>
definition route_policies_hold :: "('h, 'm) env \<Rightarrow> Gateway \<Rightarrow> 'h Session \<Rightarrow> RequestCtx \<Rightarrow> bool" where
  "route_policies_hold env gw sn ctx =
     (let host = request_host env (sn_req sn) in
      case match_route_entry (gw_router gw) host (before CHR ''?'' (uri_path_q (sn_uri sn))) of
        Some route \<Rightarrow> rc_geoip ctx = rt_geoip route \<and> rc_security ctx = rt_security route \<and>
          rc_edge ctx = edge_for (gw_router gw) host (rt_path route)
      | None \<Rightarrow> False)"

text \<open>C1: No policy is skipped.  When the pipeline lets a request through to an upstream (and the request
  is not a plain HTTP request that automatic HTTPS handles), then under the policies in its context
  it is within the 4xx and the rate limit of its client, has passed the authentication of the
  route, is allowed by GeoIP, is neither challenged nor blocked by the firewall and the bot score,
  is no captcha request, no static file, and if it is gRPC it is a POST over HTTP/2 or gRPC-Web.
  When the route resolves, those policies are the ones configured for the matching route of the
  host and path.\<close>
theorem forwarded_request_vetted:
  assumes "request_filter env t gw sn ctx st = (Proceed, ctx', st')"
    and "\<not> (gw_auto_https gw \<and> is_plain_http env sn)"
  shows "vetted env t sn ctx' st \<and>
    (case plan_of env t gw sn st of
       Inr _ \<Rightarrow> route_policies_hold env gw sn ctx'
     | Inl _ \<Rightarrow> rc_geoip ctx' = rc_geoip ctx \<and> rc_security ctx' = rc_security ctx \<and> rc_edge ctx' = rc_edge ctx)"
proof -
  let ?c = "routed_ctx env t gw sn ctx st"
  obtain fs where "route_stage env t gw sn ctx st = (None, ?c, st\<lparr>gs_forward := fs\<rparr>)" by (rule route_stage_pass)
  then have "passes (policy_stages env t gw sn) ?c (st\<lparr>gs_forward := fs\<rparr>) ctx' st'"
    using request_filter_split [OF assms] by simp
  note p = policy_stages_vetted [OF this]
  from p obtain b k where c': "ctx' = ?c\<lparr>rc_rate_client := session_client_ip env sn,
      rc_rate_host := Some (request_host env (sn_req sn)), rc_cache_collect := b, rc_cache_key := k\<rparr>" by blast
  then have same: "rc_geoip ctx' = rc_geoip ?c" "rc_security ctx' = rc_security ?c" "rc_edge ctx' = rc_edge ?c" by simp_all
  have "vetted env t sn ctx' (st\<lparr>gs_forward := fs\<rparr>)"
    unfolding c' by (subst vetted_cong [of _ ?c]) (simp_all add: conjunct1 [OF p])
  then have "vetted env t sn ctx' st"
    by (simp add: vetted_def security_verdict_def)
  moreover have "case plan_of env t gw sn st of
       Inr _ \<Rightarrow> route_policies_hold env gw sn ctx'
     | Inl _ \<Rightarrow> rc_geoip ctx' = rc_geoip ctx \<and> rc_security ctx' = rc_security ctx \<and> rc_edge ctx' = rc_edge ctx"
  proof (cases "plan_of env t gw sn st")
    case (Inr plan)
    obtain route where "match_route_entry (gw_router gw) (request_host env (sn_req sn))
        (before CHR ''?'' (uri_path_q (sn_uri sn))) = Some route"
      and "rc_geoip ?c = rt_geoip route" and "rc_security ?c = rt_security route"
      and "rc_edge ?c = edge_for (gw_router gw) (request_host env (sn_req sn)) (rt_path route)"
      by (rule routed_policies [OF Inr])
    with Inr show ?thesis by (simp add: route_policies_hold_def same)
  qed (simp add: same routed_ctx_def)
  ultimately show ?thesis by simp
qed

theorem forwarded_request_vetted_witness:
  "\<exists>c s. request_filter demo_env demo_moment (demo_gateway False) demo_request ctx_default demo_state = (Proceed, c, s) \<and>
     vetted demo_env demo_moment demo_request c demo_state \<and> route_policies_hold demo_env (demo_gateway False) demo_request c"
proof -
  obtain c s where *: "request_filter demo_env demo_moment (demo_gateway False) demo_request ctx_default demo_state = (Proceed, c, s)"
    by (rule demo_passes [of ctx_default demo_state]) (simp_all add: ctx_default_def demo_fields)
  from forwarded_request_vetted [OF this] show ?thesis
    using * by (simp add: demo_edge demo_resolved)
qed

section \<open>Plain HTTP before there is a certificate\<close>

lemma configure_upstream_peer_addr [simp]:
  "hp_host (configure_upstream_peer var h p sni tls ctx) = h" "hp_port (configure_upstream_peer var h p sni tls ctx) = p"
proof -
  have t: "hp_host (set_peer_timeouts d x) = hp_host x" "hp_port (set_peer_timeouts d x) = hp_port x" for d x
    by (simp_all add: set_peer_timeouts_def)
  show "hp_host (configure_upstream_peer var h p sni tls ctx) = h" "hp_port (configure_upstream_peer var h p sni tls ctx) = p"
    by (simp_all add: configure_upstream_peer_def Let_def t peer_new_def if_distrib [of hp_host] if_distrib [of hp_port] cong: if_cong)
qed

lemma upstream_peer_plan:
  assumes "plan_of env t gw sn st = Inr plan"
  obtains p c s where "upstream_peer env t gw sn ctx st = (Inr p, c, s)"
    and "hp_host p = fp_peer_host plan" and "hp_port p = fp_peer_port plan"
proof -
  obtain fs where r: "resolve_forward (ev_tcp env) (mo_probe_start t) (mo_probe_end t) (gw_router gw)
     (request_host env (sn_req sn)) (uri_path_q (sn_uri sn)) (gs_forward st) = (Inr plan, fs)"
    using assms unfolding plan_of_def by (metis prod.collapse)
  show thesis
    by (rule that, simp add: upstream_peer_def r Let_def) simp_all
qed



section \<open>The rotation over Consul endpoints\<close>

text \<open>A Consul route: the request matches a route whose backend names a service with endpoints.\<close>
definition consul_route :: "('h, 'm) env \<Rightarrow> Gateway \<Rightarrow> 'h Session \<Rightarrow> string \<Rightarrow> bool" where
  "consul_route env gw sn service =
     (case match_route_entry (gw_router gw) (request_host env (sn_req sn)) (before CHR ''?'' (uri_path_q (sn_uri sn))) of
        Some route \<Rightarrow> be_address (rt_backend route) = ''consul:'' @ service
      | None \<Rightarrow> False)"

abbreviation consul_of :: "gw_state \<Rightarrow> ConsulState" where
  "consul_of st \<equiv> fs_consul (gs_forward st)"

abbreviation after_pick :: "gw_state \<Rightarrow> gw_state" where
  "after_pick st \<equiv> st\<lparr>gs_forward := (gs_forward st)\<lparr>fs_consul := (consul_of st)\<lparr>cs_rr := cs_rr (consul_of st) + 1\<rparr>\<rparr>\<rparr>"

lemma resolve_consul:
  assumes "consul_route env gw sn service" and "map_of (cs_endpoints (consul_of st)) service = Some eps" and "eps \<noteq> []"
  obtains plan where "resolve_forward tcp a b (gw_router gw) (request_host env (sn_req sn)) (uri_path_q (sn_uri sn)) (gs_forward st) =
      (Inr plan, gs_forward (after_pick st))"
    and "(fp_peer_host plan, fp_peer_port plan) = eps ! (unat (cs_rr (consul_of st)) mod length eps)"
proof -
  obtain route where r: "match_route_entry (gw_router gw) (request_host env (sn_req sn)) (before CHR ''?'' (uri_path_q (sn_uri sn))) = Some route"
    "be_address (rt_backend route) = ''consul:'' @ service"
    using assms(1) by (auto simp: consul_route_def split: option.splits)
  obtain h p where e: "eps ! (unat (cs_rr (consul_of st)) mod length eps) = (h, p)" by fastforce
  have "strip_prefix ''file:'' (be_address (rt_backend route)) = None"
    "strip_prefix ''consul:'' (be_address (rt_backend route)) = Some service"
    by (simp_all add: r(2) strip_prefix_def)
  then show thesis
    by (intro that, simp add: resolve_forward_def route_plan_def r(1) consul_pick_def assms(2,3) e Let_def)
      (simp add: peer_plan_def e)
qed

lemma route_stage_consul:
  assumes "consul_route env gw sn service" and "map_of (cs_endpoints (consul_of st)) service = Some eps" and "eps \<noteq> []"
  shows "snd (snd (route_stage env t gw sn ctx st)) = after_pick st"
proof -
  obtain plan where "resolve_forward (ev_tcp env) (mo_probe_start t) (mo_probe_end t) (gw_router gw) (request_host env (sn_req sn))
      (uri_path_q (sn_uri sn)) (gs_forward st) = (Inr plan, gs_forward (after_pick st))"
    by (rule resolve_consul [OF assms])
  then show ?thesis by (simp add: route_stage_def)
qed

text \<open>After routing no stage touches the table of endpoints.\<close>
definition keeps_forward :: "stage \<Rightarrow> bool" where
  "keeps_forward f \<longleftrightarrow> (\<forall>ctx st ctx' st'. f ctx st = (None, ctx', st') \<longrightarrow> gs_forward st' = gs_forward st \<and>
     active_connections (gs_metrics st') = active_connections (gs_metrics st))"

lemma keeps_forwardI:
  "(\<And>ctx st ctx' st'. f ctx st = (None, ctx', st') \<Longrightarrow> gs_forward st' = gs_forward st \<and>
     active_connections (gs_metrics st') = active_connections (gs_metrics st)) \<Longrightarrow> keeps_forward f"
  unfolding keeps_forward_def by blast

lemma keeps_forwardD:
  "keeps_forward f \<Longrightarrow> f ctx st = (None, ctx', st') \<Longrightarrow> gs_forward st' = gs_forward st \<and>
     active_connections (gs_metrics st') = active_connections (gs_metrics st)"
  unfolding keeps_forward_def by blast

lemma passes_keeps_forward:
  "list_all keeps_forward fs \<Longrightarrow> passes fs ctx st ctx' st' \<Longrightarrow> gs_forward st' = gs_forward st \<and>
     active_connections (gs_metrics st') = active_connections (gs_metrics st)"
proof (induction fs arbitrary: ctx st)
  case (Cons f fs)
  from Cons.prems(2) obtain c s where f: "f ctx st = (None, c, s)" and fs: "passes fs c s ctx' st'" by auto
  from Cons.prems(1) have "keeps_forward f" and "list_all keeps_forward fs" by simp_all
  with keeps_forwardD [of f, OF _ f] Cons.IH [OF _ fs] show ?case by simp
qed simp

lemma with_metrics_forward [simp]: "gs_forward (with_metrics f st) = gs_forward st"
  by (simp add: with_metrics_def)

lemma security_stage_keeps: "keeps_forward (security_stage env t sn)"
proof (rule keeps_forwardI)
  fix ctx st ctx' st'
  assume *: "security_stage env t sn ctx st = (None, ctx', st')"
  obtain d rates where "security_evaluate (ev_mac env) (mo_bot t) (mo_cookie t) (rc_security ctx) (request_view env sn) (gs_rates st) =
      (d, rates)" by fastforce
  with * show "gs_forward st' = gs_forward st \<and> active_connections (gs_metrics st') = active_connections (gs_metrics st)"
    by (cases "sd_action d") (auto simp: security_stage_def with_metrics_def inc_waf_logged_def Let_def split: if_splits)
qed

lemma policy_stages_keep: "list_all keeps_forward (policy_stages env t gw sn)"
proof -
  have "keeps_forward (x4xx_stage env t sn)" "keeps_forward (auth_stage env t sn)" "keeps_forward (file_stage env sn)"
    "keeps_forward (geoip_stage env t sn)" "keeps_forward (captcha_stage env t sn)" "keeps_forward (grpc_stage sn)"
    by (rule keeps_forwardI, drule x4xx_stage_pass(2) auth_stage_pass(2) file_stage_pass(2) geoip_stage_pass(2)
        captcha_stage_pass(2) grpc_stage_pass(2), simp)+
  moreover have "keeps_forward (rate_stage env t sn)" "keeps_forward (cache_stage env t gw sn)"
    by (rule keeps_forwardI, drule rate_stage_pass(2), auto) (rule keeps_forwardI, drule cache_stage_pass(2), auto)
  ultimately show ?thesis by (simp only: policy_stages_def list.pred_inject security_stage_keeps simp_thms)
qed

lemma request_filter_route:
  assumes "request_filter env t gw sn ctx st = (Proceed, ctx', st')" and "\<not> (gw_auto_https gw \<and> is_plain_http env sn)"
  shows "gs_forward st' = gs_forward (snd (snd (route_stage env t gw sn ctx st))) \<and>
    active_connections (gs_metrics st') = active_connections (gs_metrics st)"
proof -
  obtain fs where r: "route_stage env t gw sn ctx st = (None, routed_ctx env t gw sn ctx st, st\<lparr>gs_forward := fs\<rparr>)"
    by (rule route_stage_pass)
  from passes_keeps_forward [OF policy_stages_keep request_filter_split [OF assms]] r show ?thesis by simp
qed

lemma unat_plus_two_even: "even (unat (r + 2 :: u64)) = even (unat r)"
proof -
  have "unat (r + 2) = (unat r + 2) mod 2 ^ 64" by (simp add: unat_word_ariths)
  then show ?thesis by (simp add: dvd_mod_iff)
qed

lemma unat_plus_one_even: "even (unat (r + 1 :: u64)) = odd (unat r)"
proof -
  have "unat (r + 1) = (unat r + 1) mod 2 ^ 64" by (simp add: unat_word_ariths)
  then show ?thesis by (simp add: dvd_mod_iff)
qed



section \<open>The gauge of active connections\<close>

lemma record_metrics_active [simp]:
  "active_connections (record_request_metrics env sn ctx host e m) = active_connections m"
  by (simp add: record_request_metrics_def inc_https_requests_def inc_h2_requests_def inc_site_protocol_requests_def
      inc_http_requests_def inc_grpc_requests_def inc_upstream_errors_def add_bytes_received_def add_bytes_sent_def Let_def
      split: option.split)

lemma logging_active:
  "active_connections (gs_metrics (snd (logging env now sn e ctx st))) =
     (if rc_metrics_counted ctx then active_connections (gs_metrics st) - 1 else active_connections (gs_metrics st))"
  by (simp add: logging_def with_metrics_def dec_active_connections_def Let_def split: option.split)

lemma routed_counted:
  "plan_of env t gw sn st = Inr plan \<Longrightarrow> \<not> rc_metrics_counted (routed_ctx env t gw sn ctx st) \<and>
     rc_log_started (routed_ctx env t gw sn ctx st) = None"
  by (simp add: routed_ctx_def reset_ctx_def ctx_from_middleware_def)


lemma demo_class: "classify_grpc_request (ev_headers demo_env) [(''host'', ''ex.org''), (''x-api-key'', ''k'')] ''GET'' ''/x'' ''ex.org'' = (False, False)"
  by (simp add: classify_grpc_request_def is_grpc_request_def is_grpc_web_request_def demo_env_def header_list_map_def lower_char_def
      is_upper_def Let_def)


section \<open>What the response cache collects\<close>

text \<open>The body filter is called once per part of the body; the last call carries the end of the stream.\<close>
definition deliver :: "((string, CacheEntry) hmap \<Rightarrow> nat) \<Rightarrow> nat \<Rightarrow> Gateway \<Rightarrow> bytes option list \<Rightarrow> bytes option \<Rightarrow>
    RequestCtx \<Rightarrow> gw_state \<Rightarrow> RequestCtx \<times> gw_state" where
  "deliver choice now gw parts final ctx st =
     (case foldl (\<lambda>(c, s) b. response_body_filter choice now gw b False c s) (ctx, st) parts of
        (c, s) \<Rightarrow> response_body_filter choice now gw final True c s)"

definition body_of :: "bytes option list \<Rightarrow> bytes" where
  "body_of parts = concat (map (get_or []) parts)"

definition cache_ttl :: "Gateway \<Rightarrow> nat" where
  "cache_ttl gw = unat (max (eg_cache_ttl_secs (tb_globals (gw_router gw))) 1) * 10 ^ 9"

definition cache_limit :: "Gateway \<Rightarrow> nat" where
  "cache_limit gw = min (unat (eg_cache_size_mb (tb_globals (gw_router gw))) * (1024 * 1024)) (2 ^ 64 - 1)"

lemma cache_ttl_pos: "0 < cache_ttl gw"
proof -
  have "1 \<le> unat (max x (1 :: u64))" for x
    by (auto simp: Suc_le_eq unat_gt_0 max_def)
  then show ?thesis by (simp add: cache_ttl_def Suc_le_eq)
qed

lemma body_part:
  "rc_cache_collect ctx \<Longrightarrow> response_body_filter choice now gw b False ctx st =
     (if length (rc_cache_body ctx) + length (get_or [] b) \<le> 1024 * 1024
      then ctx\<lparr>rc_cache_body := rc_cache_body ctx @ get_or [] b\<rparr>
      else ctx\<lparr>rc_cache_collect := False, rc_cache_body := []\<rparr>, st)"
  if "length (rc_cache_body ctx) \<le> 1024 * 1024"
  using that by (cases b) (simp_all add: response_body_filter_def Let_def)

lemma body_part_off: "\<not> rc_cache_collect ctx \<Longrightarrow> response_body_filter choice now gw b eos ctx st = (ctx, st)"
  by (simp add: response_body_filter_def)

lemma body_parts_off:
  "\<not> rc_cache_collect ctx \<Longrightarrow> foldl (\<lambda>(c, s) b. response_body_filter choice now gw b False c s) (ctx, st) parts = (ctx, st)"
  by (induction parts) (simp_all add: body_part_off)

lemma body_parts:
  assumes "rc_cache_collect ctx" and "length (rc_cache_body ctx) \<le> 1024 * 1024"
  shows "foldl (\<lambda>(c, s) b. response_body_filter choice now gw b False c s) (ctx, st) parts =
     (if length (rc_cache_body ctx @ body_of parts) \<le> 1024 * 1024
      then ctx\<lparr>rc_cache_body := rc_cache_body ctx @ body_of parts\<rparr>
      else ctx\<lparr>rc_cache_collect := False, rc_cache_body := []\<rparr>, st)"
  using assms
proof (induction parts arbitrary: ctx)
  case (Cons b parts)
  show ?case
  proof (cases "length (rc_cache_body ctx) + length (get_or [] b) \<le> 1024 * 1024")
    case True
    then show ?thesis
      using Cons.prems Cons.IH [of "ctx\<lparr>rc_cache_body := rc_cache_body ctx @ get_or [] b\<rparr>"]
      by (simp add: body_part body_of_def)
  next
    case False
    then show ?thesis
      using Cons.prems by (simp add: body_part body_parts_off body_of_def)
  qed
qed (simp add: body_of_def)

lemma body_final:
  assumes "rc_cache_collect ctx" and "rc_cache_key ctx = Some key" and "length (rc_cache_body ctx) \<le> 1024 * 1024"
  shows "gs_cache (snd (response_body_filter choice now gw b True ctx st)) =
     (let body = rc_cache_body ctx @ get_or [] b in
      if length body \<le> 1024 * 1024
      then cache_put choice now key (cached_response (ctx\<lparr>rc_cache_body := body\<rparr>)) (cache_ttl gw) (cache_limit gw) (gs_cache st)
      else gs_cache st)"
  using assms by (cases b) (simp_all add: response_body_filter_def cache_ttl_def cache_limit_def Let_def)

lemma deliver_cache:
  assumes "rc_cache_collect ctx" and "rc_cache_body ctx = []" and "rc_cache_key ctx = Some key"
  shows "gs_cache (snd (deliver choice now gw parts final ctx st)) =
     (let body = body_of (parts @ [final]) in
      if length body \<le> 1024 * 1024
      then cache_put choice now key (cached_response (ctx\<lparr>rc_cache_body := body\<rparr>)) (cache_ttl gw) (cache_limit gw) (gs_cache st)
      else gs_cache st)"
proof (cases "length (body_of parts) \<le> 1024 * 1024")
  case True
  then show ?thesis
    using assms body_final [of "ctx\<lparr>rc_cache_body := body_of parts\<rparr>" key choice now gw final st]
    by (simp add: deliver_def body_parts body_of_def)
next
  case False
  then show ?thesis
    using assms by (simp add: deliver_def body_parts body_part_off body_of_def)
qed

text \<open>C11: What is cached is what was sent.  Collect the parts of a response body for the key of a request.
  If the complete body with its headers and key fits into the cache and into one mebibyte, then
  until the entry expires every request for the same key to which the cache applies is answered
  with exactly that status, content type and complete body.  Otherwise the cache is unchanged: a
  truncated body is never stored.\<close>
theorem cached_body_complete:
  assumes "rc_cache_collect ctx" and "rc_cache_body ctx = []" and "rc_cache_key ctx = Some (cache_key_of env sn)"
  shows "let body = body_of (parts @ [final]);
             r = \<lparr>cr_status = rc_cache_status ctx,
                  cr_headers = [(''content-type'', rc_cache_type ctx), (''content-length'', show_nat (length body))], cr_body = body\<rparr>;
             st' = snd (deliver choice now gw parts final ctx st)
         in if response_size (cache_key_of env sn) r \<le> min (cache_limit gw) (1024 * 1024)
            then (cache_applies gw sn later \<and> mo_cache t < now + cache_ttl gw \<longrightarrow>
              cache_stage env t gw sn later st' = (Some (Reply (cache_hit env r)), later, st'))
            else gs_cache st' = gs_cache st"
proof -
  let ?body = "body_of (parts @ [final])"
  let ?r = "\<lparr>cr_status = rc_cache_status ctx,
      cr_headers = [(''content-type'', rc_cache_type ctx), (''content-length'', show_nat (length ?body))], cr_body = ?body\<rparr>"
  let ?st = "snd (deliver choice now gw parts final ctx st)"
  let ?key = "cache_key_of env sn"
  have c: "cached_response (ctx\<lparr>rc_cache_body := ?body\<rparr>) = ?r" by (simp add: cached_response_def)
  have big: "length ?body < response_size ?key ?r" by (simp add: response_size_def cache_key_of_def)
  show ?thesis
  proof (cases "response_size ?key ?r \<le> min (cache_limit gw) (1024 * 1024)")
    case True
    with big have "gs_cache ?st = cache_put choice now ?key ?r (cache_ttl gw) (cache_limit gw) (gs_cache st)"
      using deliver_cache [OF assms, of choice now gw parts final st] by (simp add: c Let_def)
    moreover have "map_of (ci_entries (cache_put choice now ?key ?r (cache_ttl gw) (cache_limit gw) (gs_cache st))) ?key =
        Some \<lparr>ce_response = ?r, ce_expires = now + cache_ttl gw, ce_bytes = response_size ?key ?r\<rparr>"
      using True big cache_ttl_pos by (intro cache_put_stored) simp_all
    ultimately have "mo_cache t < now + cache_ttl gw \<Longrightarrow> cache_get (mo_cache t) ?key (gs_cache ?st) = (Some ?r, gs_cache ?st)"
      by (simp add: cache_get_def)
    with True show ?thesis by (simp add: cache_stage_def Let_def)
  next
    case False
    then have "cache_put choice now ?key ?r (cache_ttl gw) (cache_limit gw) (gs_cache st) = gs_cache st"
      by (auto simp: cache_put_def Let_def)
    then have "gs_cache ?st = gs_cache st"
      unfolding deliver_cache [OF assms] Let_def c by simp
    then show ?thesis by (simp only: Let_def False if_False)
  qed
qed

definition demo_cache_gateway :: Gateway where
  "demo_cache_gateway = (demo_gateway False)\<lparr>gw_router := route_table_default\<lparr>tb_globals := edge_globals_default\<lparr>eg_cache_size_mb := 1\<rparr>\<rparr>\<rparr>"

theorem cached_body_complete_witness:
  "cache_stage demo_env demo_moment demo_cache_gateway demo_request ctx_default
     (snd (deliver (\<lambda>_. 0) 0 demo_cache_gateway [Some [1], Some [2]] None
       (ctx_default\<lparr>rc_cache_collect := True, rc_cache_key := Some (cache_key_of demo_env demo_request), rc_cache_status := 200\<rparr>) demo_state)) =
   (Some (Reply (cache_hit demo_env \<lparr>cr_status = 200, cr_headers = [(''content-type'', []), (''content-length'', ''2'')], cr_body = [1, 2]\<rparr>)),
    ctx_default,
    snd (deliver (\<lambda>_. 0) 0 demo_cache_gateway [Some [1], Some [2]] None
       (ctx_default\<lparr>rc_cache_collect := True, rc_cache_key := Some (cache_key_of demo_env demo_request), rc_cache_status := 200\<rparr>) demo_state))"
proof -
  have b: "body_of [Some [1], Some [2], None] = [1, 2]" by (simp add: body_of_def)
  have n: "show_nat (Suc (Suc 0)) = ''2''" by (simp add: show_nat.simps digit_char_def)
  have fits: "response_size (cache_key_of demo_env demo_request)
      \<lparr>cr_status = 200, cr_headers = [(''content-type'', []), (''content-length'', ''2'')], cr_body = [1, 2]\<rparr>
      \<le> min (cache_limit demo_cache_gateway) (1024 * 1024)"
    by (simp add: response_size_def cache_limit_def demo_cache_gateway_def cache_key_of_def demo_host demo_fields uri_path_q_def
        edge_globals_default_def)
  have live: "cache_applies demo_cache_gateway demo_request ctx_default" "mo_cache demo_moment < 0 + cache_ttl demo_cache_gateway"
    using cache_ttl_pos [of demo_cache_gateway]
    by (simp_all add: cache_applies_def demo_fields ctx_default_def demo_cache_gateway_def cache_enabled_def edge_globals_default_def
        edge_policy_default_def demo_moment_def)
  show ?thesis
    using cached_body_complete [of "ctx_default\<lparr>rc_cache_collect := True, rc_cache_key := Some (cache_key_of demo_env demo_request),
        rc_cache_status := 200\<rparr>" demo_env demo_request "[Some [1], Some [2]]" None "\<lambda>_. 0" 0 demo_cache_gateway demo_state
        ctx_default demo_moment] fits live
    by (simp add: b n ctx_default_def Let_def)
qed

section \<open>What the upstream learns about the client\<close>

definition stripped_uri :: "('h, 'm) env \<Rightarrow> RequestCtx \<Rightarrow> uri \<Rightarrow> uri option" where
  "stripped_uri env ctx u =
     (case rc_strip_prefix ctx of
        None \<Rightarrow> Some u
      | Some pre \<Rightarrow>
          if rc_is_grpc_web ctx then Some u
          else (case strip_prefix pre (ur_path u) of
              None \<Rightarrow> Some u
            | Some stripped \<Rightarrow> ev_set_paq env u (if stripped = [] then ''/'' else stripped)))"

lemma strip_upstream_path_uri:
  "strip_upstream_path (ev_set_paq env) ctx req = map_option (\<lambda>u. req\<lparr>rq_uri := u\<rparr>) (stripped_uri env ctx (rq_uri req))"
  by (simp add: strip_upstream_path_def stripped_uri_def split: option.split)

lemma client_ip_text: "session_client_ip env sn = Some ip \<Longrightarrow> header_text ip"
proof -
  assume "session_client_ip env sn = Some ip"
  then obtain s where "normalize_ip_str s = Some ip"
    using resolve_client_ip_Some unfolding session_client_ip_def by blast
  then obtain a where "ip = show_ip a" by (rule normalize_ip_str_Some)
  then show ?thesis
    using ip_char_code [OF show_ip_chars] by (force simp: header_text_def list_all_iff)
qed

lemma header_text_append: "header_text (a @ b) \<longleftrightarrow> header_text a \<and> header_text b"
  by (simp add: header_text_def)

lemma header_text_trim: "header_text v \<Longrightarrow> header_text (trim v)"
  using set_mono_sublist [OF sublist_trim [of v]] unfolding header_text_def list_all_iff by blast

lemmas lower_eval = lower_char_def is_upper_def

context header_laws
begin

lemma get_merge_cookie: "to_ascii_lowercase m \<noteq> ''cookie'' \<Longrightarrow> hm_get H (merge_cookie_headers H h) m = hm_get H h m"
proof -
  assume "to_ascii_lowercase m \<noteq> ''cookie''"
  moreover have "to_ascii_lowercase ''cookie'' = ''cookie''" by (simp add: lower_eval)
  ultimately have "to_ascii_lowercase ''cookie'' \<noteq> to_ascii_lowercase m" by metis
  then have "hm_get H (hm_insert H (hm_remove H h ''cookie'') ''cookie'' v) m = hm_get H h m" for v
    by (metis get_insert_other get_remove)
  then show ?thesis
    unfolding merge_cookie_headers_def Let_def by (simp split: if_split)
qed

lemma get_insert_headers_other:
  "to_ascii_lowercase m \<notin> (to_ascii_lowercase \<circ> fst) ` set ps \<Longrightarrow> hm_get H (insert_headers H ps h) m = hm_get H h m"
  unfolding insert_headers_def by (rule get_insert_all_other)

lemma get_grpc_headers:
  "hm_get H (prepare_upstream_request H web h) ''x-real-ip'' = hm_get H h ''x-real-ip''"
  "hm_get H (prepare_upstream_request H web h) ''x-forwarded-for'' = hm_get H h ''x-forwarded-for''"
  "hm_get H (prepare_upstream_streaming_request H h) ''x-real-ip'' = hm_get H h ''x-real-ip''"
  "hm_get H (prepare_upstream_streaming_request H h) ''x-forwarded-for'' = hm_get H h ''x-forwarded-for''"
  by (simp_all add: prepare_upstream_request_def prepare_upstream_streaming_request_def remove_headers_def Let_def
      get_remove get_insert_other lower_eval del: filter_opt_eq_Some)

lemma get_inject:
  assumes "header_text ip"
  shows "hm_get H (inject_forwarded_client_ip H ip h) ''x-real-ip'' = Some ip"
    and "hm_get H (inject_forwarded_client_ip H ip h) ''x-forwarded-for'' =
      Some (case filter_opt (\<lambda>v. v \<noteq> []) (map_option trim (hm_get H h ''x-forwarded-for'')) of
          Some e \<Rightarrow> e @ '', '' @ ip | None \<Rightarrow> ip)"
proof -
  let ?xff = "case filter_opt (\<lambda>v. v \<noteq> []) (map_option trim (hm_get H h ''x-forwarded-for'')) of
      Some e \<Rightarrow> e @ '', '' @ ip | None \<Rightarrow> ip"
  have "header_text ?xff"
  proof (cases "filter_opt (\<lambda>v. v \<noteq> []) (map_option trim (hm_get H h ''x-forwarded-for''))")
    case (Some e)
    then obtain v where "hm_get H h ''x-forwarded-for'' = Some v" and "e = trim v" by (auto simp: filter_opt_eq_Some)
    then have "header_text e" using get_text header_text_trim by blast
    then show ?thesis
      unfolding Some using assms by (simp add: header_text_append) (simp add: header_text_def)
  qed (simp add: assms)
  then show "hm_get H (inject_forwarded_client_ip H ip h) ''x-forwarded-for'' = Some ?xff"
    by (simp add: inject_forwarded_client_ip_def insert_headers_def forwarded_client_ip_header_pairs_def Let_def
        get_insert_same lower_eval)
  show "hm_get H (inject_forwarded_client_ip H ip h) ''x-real-ip'' = Some ip"
    using assms by (simp add: inject_forwarded_client_ip_def insert_headers_def forwarded_client_ip_header_pairs_def Let_def
        get_insert_same get_insert_other lower_eval)
qed

end

lemma rewrite_keeps_headers: "rewrite_upstream_grpc_path set_paq q = Some r \<Longrightarrow> rq_headers r = rq_headers q"
  by (auto simp: rewrite_upstream_grpc_path_def rebuild_upstream_path_def Let_def split: option.splits if_splits)

lemma grpc_upstream_headers:
  assumes "header_laws (ev_headers env)" and "grpc_upstream env ctx q = Some r"
  shows "hm_get (ev_headers env) (rq_headers r) ''x-real-ip'' = hm_get (ev_headers env) (rq_headers q) ''x-real-ip''"
    and "hm_get (ev_headers env) (rq_headers r) ''x-forwarded-for'' = hm_get (ev_headers env) (rq_headers q) ''x-forwarded-for''"
  using assms(2)
  by (auto simp: grpc_upstream_def Let_def header_laws.get_grpc_headers [OF assms(1)]
      dest!: rewrite_keeps_headers split: if_splits)

lemma forward_headers_client:
  assumes "header_laws (ev_headers env)" and "session_client_ip env sn = Some ip" and "\<not> rc_is_registry ctx"
  shows "hm_get (ev_headers env) (forward_headers env sn ctx h) ''x-real-ip'' = Some ip"
    and "hm_get (ev_headers env) (forward_headers env sn ctx h) ''x-forwarded-for'' =
      Some (case filter_opt (\<lambda>v. v \<noteq> []) (map_option trim (hm_get (ev_headers env) h ''x-forwarded-for'')) of
          Some e \<Rightarrow> e @ '', '' @ ip | None \<Rightarrow> ip)"
  using assms client_ip_text [OF assms(2)]
  by (simp_all add: forward_headers_def header_laws.get_inject [OF assms(1)] header_laws.get_insert_other [OF assms(1)]
      insert_headers_def lower_eval Let_def)



end
