(* ===== verification/Acme.thy ===== *)
theory Acme
  imports Gateway_Safety
begin

text \<open>
  Obtaining a certificate from an ACME authority, from src/src/tls/acme.rs: the store of HTTP-01
  challenges that the request pipeline answers from, and the order loop of
  AcmeManager::obtain_certs_sync.  The acme_lib client together with the authority behind it is a
  parameter with a state of its own; what the authority sees when it validates an HTTP-01 challenge
  is what the store holds at that moment.
\<close>

section \<open>Challenges\<close>

type_synonym challenge_store = "(string, string) hmap"

definition set_sync :: "string \<Rightarrow> string \<Rightarrow> challenge_store \<Rightarrow> challenge_store" where
  "set_sync token key_authorization store = AList.update token key_authorization store"

definition challenge_get :: "challenge_store \<Rightarrow> string \<Rightarrow> string option" where
  "challenge_get store token = map_of store token"

definition remove_sync :: "string \<Rightarrow> challenge_store \<Rightarrow> challenge_store" where
  "remove_sync token store = AList.delete token store"

record AcmeManager =
  am_http01_store :: challenge_store
  am_cache_dir :: string
  am_use_staging :: bool

section \<open>The client library\<close>

record acme_auth =
  au_domain :: string
  au_need_challenge :: bool
  au_http_token :: string
  au_http_proof :: string
  au_dns_proof :: string

record 'w acme_lib =
  al_new_order :: "string \<Rightarrow> bool \<Rightarrow> string \<Rightarrow> string \<Rightarrow> string list \<Rightarrow> 'w \<Rightarrow> string + 'w"
  al_confirmed :: "'w \<Rightarrow> bool"
  al_authorizations :: "'w \<Rightarrow> string + acme_auth list"
  al_validate_http :: "acme_auth \<Rightarrow> (string \<Rightarrow> string option) \<Rightarrow> 'w \<Rightarrow> string + 'w"
  al_validate_dns :: "acme_auth \<Rightarrow> 'w \<Rightarrow> string + 'w"
  al_refresh :: "'w \<Rightarrow> string + 'w"
  al_certificate :: "'w \<Rightarrow> string + bytes \<times> bytes"

type_synonym 'w dns_solver = "string \<Rightarrow> string \<Rightarrow> 'w \<Rightarrow> string + 'w"

section \<open>The order\<close>

definition is_dns01 :: "(string \<Rightarrow> string) \<Rightarrow> string \<Rightarrow> bool" where
  "is_dns01 lower challenge \<longleftrightarrow> to_lowercase lower challenge = ''dns01'' \<or> to_lowercase lower challenge = ''dns-01''"

definition order_domains :: "bool \<Rightarrow> string list \<Rightarrow> string list" where
  "order_domains dns01 hosts = filter (\<lambda>s. s \<noteq> [] \<and> (dns01 \<or> \<not> starts_with s ''*'')) (map trim hosts)"

definition answer_http01 :: "'w acme_lib \<Rightarrow> acme_auth \<Rightarrow> challenge_store \<Rightarrow> 'w \<Rightarrow> (string + 'w) \<times> challenge_store" where
  "answer_http01 lib auth store w =
     (let store1 = set_sync (au_http_token auth) (au_http_proof auth) store in
      case al_validate_http lib auth (challenge_get store1) w of
        Inl e \<Rightarrow> (Inl e, store1)
      | Inr w' \<Rightarrow> (Inr w', remove_sync (au_http_token auth) store1))"

definition answer_dns01 :: "'w acme_lib \<Rightarrow> 'w dns_solver option \<Rightarrow> bool \<Rightarrow> acme_auth \<Rightarrow> 'w \<Rightarrow> string + 'w" where
  "answer_dns01 lib solver handle auth w =
     (case solver of
        None \<Rightarrow> Inl ''DNS-01 requires DNS provider credentials''
      | Some set_txt \<Rightarrow>
          if \<not> handle then Inl ''DNS-01 requires a runtime handle''
          else case set_txt (''_acme-challenge.'' @ au_domain auth) (au_dns_proof auth) w of
                 Inl e \<Rightarrow> Inl e
               | Inr w' \<Rightarrow> al_validate_dns lib auth w')"

fun answer_auths :: "'w acme_lib \<Rightarrow> bool \<Rightarrow> 'w dns_solver option \<Rightarrow> bool \<Rightarrow> acme_auth list \<Rightarrow> challenge_store \<Rightarrow> 'w \<Rightarrow>
    (string + 'w) \<times> challenge_store" where
  "answer_auths lib dns01 solver handle [] store w = (Inr w, store)"
| "answer_auths lib dns01 solver handle (auth # auths) store w =
     (if \<not> au_need_challenge auth then answer_auths lib dns01 solver handle auths store w
      else
        case (if dns01 then (answer_dns01 lib solver handle auth w, store) else answer_http01 lib auth store w) of
          (Inl e, store') \<Rightarrow> (Inl e, store')
        | (Inr w', store') \<Rightarrow> answer_auths lib dns01 solver handle auths store' w')"

partial_function (option) order_loop :: "'w acme_lib \<Rightarrow> bool \<Rightarrow> 'w dns_solver option \<Rightarrow> bool \<Rightarrow> challenge_store \<Rightarrow> 'w \<Rightarrow>
    ((string + 'w) \<times> challenge_store) option" where
  "order_loop lib dns01 solver handle store w =
     (if al_confirmed lib w then Some (Inr w, store)
      else
        case al_authorizations lib w of
          Inl e \<Rightarrow> Some (Inl e, store)
        | Inr auths \<Rightarrow>
            (case answer_auths lib dns01 solver handle auths store w of
               (Inl e, store') \<Rightarrow> Some (Inl e, store')
             | (Inr w', store') \<Rightarrow>
                 (case al_refresh lib w' of
                    Inl e \<Rightarrow> Some (Inl e, store')
                  | Inr w'' \<Rightarrow> order_loop lib dns01 solver handle store' w'')))"

definition contact_email :: "string option \<Rightarrow> string option" where
  "contact_email email = filter_opt (\<lambda>e. e \<noteq> [] \<and> \<not> contains_str e ''@example.com'') email"

definition obtain_certs_sync :: "(string \<Rightarrow> string) \<Rightarrow> 'w acme_lib \<Rightarrow> AcmeManager \<Rightarrow> TlsConfig \<Rightarrow> 'w dns_solver option \<Rightarrow> bool \<Rightarrow> 'w \<Rightarrow>
    ((string + string list \<times> bytes \<times> bytes) \<times> challenge_store) option" where
  "obtain_certs_sync lower lib manager tls_config solver handle w =
     (let store = am_http01_store manager in
      case tc_source tls_config of
        Acme email challenge _ _ _ \<Rightarrow>
          let dns01 = is_dns01 lower challenge in
          (case order_domains dns01 (tc_hosts tls_config) of
             [] \<Rightarrow> Some (Inl (if dns01 then ''no domains for ACME order'' else ''no non-wildcard domains for HTTP-01''), store)
           | first # others \<Rightarrow>
               (case contact_email email of
                  None \<Rightarrow> Some (Inl ''ACME requires a valid contact email'', store)
                | Some addr \<Rightarrow>
                    (case al_new_order lib (am_cache_dir manager) (am_use_staging manager) addr first others w of
                       Inl e \<Rightarrow> Some (Inl e, store)
                     | Inr w1 \<Rightarrow>
                         (case order_loop lib dns01 solver handle store w1 of
                            None \<Rightarrow> None
                          | Some (Inl e, store') \<Rightarrow> Some (Inl e, store')
                          | Some (Inr w2, store') \<Rightarrow>
                              (case al_certificate lib w2 of
                                 Inl e \<Rightarrow> Some (Inl e, store')
                               | Inr (cert, key) \<Rightarrow> Some (Inr (tc_hosts tls_config, cert, key), store'))))))
      | _ \<Rightarrow> Some (Inl ''not an ACME config'', store))"

section \<open>What an authority promises\<close>

text \<open>An authority that follows the protocol (RFC 8555) accepts an order, lists the authorizations of
  an order that is not confirmed (one that needs its challenge while any is pending), validates an
  HTTP-01 challenge whose key authorization is served and counts it as settled, does not take that
  back, confirms an order on which nothing is pending at the next refresh, and issues the
  certificate of a confirmed order.\<close>
definition follows_protocol :: "'w acme_lib \<Rightarrow> ('w \<Rightarrow> nat) \<Rightarrow> bool" where
  "follows_protocol lib pending \<longleftrightarrow>
     (\<forall>dir staging addr first others w. \<exists>w'. al_new_order lib dir staging addr first others w = Inr w') \<and>
     (\<forall>w. \<not> al_confirmed lib w \<longrightarrow>
        (\<exists>auths. al_authorizations lib w = Inr auths \<and> (0 < pending w \<longrightarrow> list_ex au_need_challenge auths))) \<and>
     (\<forall>auth serve w. au_need_challenge auth \<and> serve (au_http_token auth) = Some (au_http_proof auth) \<longrightarrow>
        (\<exists>w'. al_validate_http lib auth serve w = Inr w' \<and> pending w' = pending w - 1)) \<and>
     (\<forall>w. \<exists>w'. al_refresh lib w = Inr w' \<and> pending w' \<le> pending w \<and> (pending w = 0 \<longrightarrow> al_confirmed lib w')) \<and>
     (\<forall>w. al_confirmed lib w \<longrightarrow> (\<exists>cert key. al_certificate lib w = Inr (cert, key)))"

lemma challenge_served: "challenge_get (set_sync token proof store) token = Some proof"
  by (simp add: challenge_get_def set_sync_def update_conv')

lemma challenge_withdrawn: "map_of (remove_sync token (set_sync token proof store)) \<subseteq>\<^sub>m map_of store"
  by (auto simp: map_le_def remove_sync_def set_sync_def delete_conv' update_conv' split: if_splits)

lemma answer_http01_settles:
  assumes "follows_protocol lib pending" and "au_need_challenge auth"
  obtains w' store' where "answer_http01 lib auth store w = (Inr w', store')" "pending w' = pending w - 1"
    "map_of store' \<subseteq>\<^sub>m map_of store"
proof -
  obtain w' where "al_validate_http lib auth (challenge_get (set_sync (au_http_token auth) (au_http_proof auth) store)) w = Inr w'"
    and "pending w' = pending w - 1"
    using assms challenge_served unfolding follows_protocol_def by meson
  then have "answer_http01 lib auth store w =
      (Inr w', remove_sync (au_http_token auth) (set_sync (au_http_token auth) (au_http_proof auth) store))"
    by (simp add: answer_http01_def Let_def)
  then show thesis by (rule that) (fact, rule challenge_withdrawn)
qed

lemma answer_auths_settles:
  assumes "follows_protocol lib pending"
  shows "\<exists>w' store'. answer_auths lib False solver handle auths store w = (Inr w', store') \<and> pending w' \<le> pending w \<and>
    (0 < pending w \<and> list_ex au_need_challenge auths \<longrightarrow> pending w' < pending w) \<and> map_of store' \<subseteq>\<^sub>m map_of store"
proof (induction auths arbitrary: store w)
  case (Cons auth auths)
  show ?case
  proof (cases "au_need_challenge auth")
    case True
    obtain w1 store1 where 1: "answer_http01 lib auth store w = (Inr w1, store1)" "pending w1 = pending w - 1"
        "map_of store1 \<subseteq>\<^sub>m map_of store"
      by (rule answer_http01_settles [OF assms True])
    from Cons.IH [of store1 w1] obtain w2 store2 where "answer_auths lib False solver handle auths store1 w1 = (Inr w2, store2)"
        "pending w2 \<le> pending w1" "map_of store2 \<subseteq>\<^sub>m map_of store1" by blast
    with 1 True map_le_trans [of "map_of store2" "map_of store1" "map_of store"] show ?thesis by simp linarith
  next
    case False
    with Cons.IH [of store w] show ?thesis by simp
  qed
qed simp

lemma order_round:
  assumes "follows_protocol lib pending" and "\<not> al_confirmed lib w"
  obtains w' store' where "order_loop lib False solver handle store w = order_loop lib False solver handle store' w'"
    "0 < pending w \<longrightarrow> pending w' < pending w" "pending w = 0 \<longrightarrow> al_confirmed lib w'" "map_of store' \<subseteq>\<^sub>m map_of store"
proof -
  obtain auths where a: "al_authorizations lib w = Inr auths" "0 < pending w \<longrightarrow> list_ex au_need_challenge auths"
    using assms unfolding follows_protocol_def by meson
  obtain w1 store1 where 1: "answer_auths lib False solver handle auths store w = (Inr w1, store1)" "pending w1 \<le> pending w"
      "0 < pending w \<and> list_ex au_need_challenge auths \<longrightarrow> pending w1 < pending w" "map_of store1 \<subseteq>\<^sub>m map_of store"
    using answer_auths_settles [OF assms(1)] by metis
  obtain w2 where 2: "al_refresh lib w1 = Inr w2" "pending w2 \<le> pending w1" "pending w1 = 0 \<longrightarrow> al_confirmed lib w2"
    using assms(1) unfolding follows_protocol_def by meson
  have "order_loop lib False solver handle store w = order_loop lib False solver handle store1 w2"
    by (subst order_loop.simps) (simp add: assms(2) a(1) 1(1) 2(1))
  moreover from a 1 2 have "0 < pending w \<longrightarrow> pending w2 < pending w" by linarith
  moreover from 1 2 have "pending w = 0 \<longrightarrow> al_confirmed lib w2" by simp
  ultimately show thesis using 1(4) by (rule that)
qed

lemma order_loop_confirms:
  assumes "follows_protocol lib pending"
  shows "\<exists>w' store'. order_loop lib False solver handle store w = Some (Inr w', store') \<and> al_confirmed lib w' \<and>
    map_of store' \<subseteq>\<^sub>m map_of store"
proof (induction "pending w" arbitrary: w store rule: less_induct)
  case less
  have fin: "order_loop lib False solver handle s v = Some (Inr v, s)" if "al_confirmed lib v" for s v
    by (subst order_loop.simps) (simp add: that)
  show ?case
  proof (cases "al_confirmed lib w")
    case False
    obtain w1 store1 where 1: "order_loop lib False solver handle store w = order_loop lib False solver handle store1 w1"
        "0 < pending w \<longrightarrow> pending w1 < pending w" "pending w = 0 \<longrightarrow> al_confirmed lib w1" "map_of store1 \<subseteq>\<^sub>m map_of store"
      by (rule order_round [OF assms False])
    show ?thesis
    proof (cases "pending w = 0")
      case True
      with 1 fin [of w1 store1] show ?thesis by auto
    next
      case False
      with 1 have "pending w1 < pending w" by simp
      from less [OF this, of store1] obtain w2 store2 where "order_loop lib False solver handle store1 w1 = Some (Inr w2, store2)"
          "al_confirmed lib w2" "map_of store2 \<subseteq>\<^sub>m map_of store1" by blast
      with 1 show ?thesis using map_le_trans [of "map_of store2" "map_of store1" "map_of store"] by auto
    qed
  qed (auto simp: fin)
qed


text \<open>A small authority: the number of challenges still to settle.\<close>
definition demo_ca :: "nat acme_lib" where
  "demo_ca = \<lparr>al_new_order = (\<lambda>_ _ _ _ others _. Inr (Suc (length others))), al_confirmed = (\<lambda>n. n = 0),
     al_authorizations = (\<lambda>n. Inr [\<lparr>au_domain = ''ex.org'', au_need_challenge = True, au_http_token = ''tok'', au_http_proof = ''tok.key'',
        au_dns_proof = ''x''\<rparr>]),
     al_validate_http = (\<lambda>a serve n. if serve (au_http_token a) = Some (au_http_proof a) then Inr (n - 1) else Inl ''unauthorized''),
     al_validate_dns = (\<lambda>_ n. Inl ''dns''), al_refresh = Inr, al_certificate = (\<lambda>_. Inr ([1], [2]))\<rparr>"


text \<open>When the authority refuses a challenge, the call ends with that error and the key authorization
  stays in the store.\<close>
lemma refused_challenge_left:
  assumes "al_validate_http lib auth (challenge_get (set_sync (au_http_token auth) (au_http_proof auth) store)) w = Inl e"
  shows "fst (answer_http01 lib auth store w) = Inl e \<and>
    challenge_get (snd (answer_http01 lib auth store w)) (au_http_token auth) = Some (au_http_proof auth)"
  using assms by (simp add: answer_http01_def Let_def challenge_served)

text \<open>What the authority is given by the store is what the request pipeline answers on the challenge path.\<close>
lemma challenge_answered:
  assumes "gw_http01_store gw = Some store" and "token \<noteq> []" and "last token \<noteq> CHR ''/''"
    and "ur_path (sn_uri sn) = ''/.well-known/acme-challenge/'' @ token" and "challenge_get store token = Some proof"
  shows "\<exists>r. acme_stage env gw sn ctx st = (Some (Reply r), ctx, st) \<and> rs_status r = 200 \<and> rs_body r = as_bytes proof"
proof -
  have "strip_prefix ''/.well-known/acme-challenge/'' (ur_path (sn_uri sn)) = Some token"
    by (simp add: assms(4) strip_prefix_def)
  moreover have "trim_end_matches CHR ''/'' token = token"
    using assms(2,3) by (cases token rule: rev_cases) (simp_all add: trim_end_matches_def)
  ultimately show ?thesis using assms by (simp add: acme_stage_def challenge_get_def)
qed

end
