(* ===== verification/Auto_Ssl.thy ===== *)
theory Auto_Ssl
  imports Acme
begin

text \<open>
  The table of certificates (src/src/db/mod.rs) and the Auto-SSL sweep over a configuration
  (src/src/api/acme.rs), with the background tasks it starts.  SQLite is the list of rows in the
  order of insertion together with which statements succeed; the host list, stored as JSON, is the
  list itself.  The dates of a certificate (x509 and chrono) and the files behind the certificate
  store are parameters.  A sweep returns the tasks it starts; the end of a task is a step of its own.
\<close>

section \<open>The table of certificates\<close>

record CertificateRow =
  cr_id :: string
  cr_hosts :: "string list"
  cr_source_type :: string
  cr_created_at :: string
  cr_expires_at :: "string option"

record cert_record = CertificateRow +
  ct_cert_pem :: bytes
  ct_key_pem :: bytes

record cert_db =
  cd_rows :: "cert_record list"
  cd_tick :: nat
  cd_up :: "nat \<Rightarrow> bool"

definition statement :: "cert_db \<Rightarrow> bool \<times> cert_db" where
  "statement db = (cd_up db (cd_tick db), db\<lparr>cd_tick := Suc (cd_tick db)\<rparr>)"

definition backfill :: "(bytes \<Rightarrow> string option) \<Rightarrow> cert_record \<Rightarrow> cert_record" where
  "backfill expiry_of row =
     (if cr_expires_at row = None then row\<lparr>cr_expires_at := expiry_of (ct_cert_pem row)\<rparr> else row)"

definition list_certificates :: "(bytes \<Rightarrow> string option) \<Rightarrow> cert_db \<Rightarrow> CertificateRow list option \<times> cert_db" where
  "list_certificates expiry_of db =
     (case statement db of
        (False, db1) \<Rightarrow> (None, db1)
      | (True, db1) \<Rightarrow>
          let rows = map (backfill expiry_of) (cd_rows db1)
          in (Some (map CertificateRow.truncate (sort_key cr_created_at rows)), db1\<lparr>cd_rows := rows\<rparr>))"

definition get_all_certificates_for_store :: "cert_db \<Rightarrow> (string \<times> string list \<times> bytes \<times> bytes) list option \<times> cert_db" where
  "get_all_certificates_for_store db =
     (case statement db of
        (False, db1) \<Rightarrow> (None, db1)
      | (True, db1) \<Rightarrow> (Some (map (\<lambda>r. (cr_id r, cr_hosts r, ct_cert_pem r, ct_key_pem r)) (cd_rows db1)), db1))"

definition add_certificate :: "(bytes \<Rightarrow> string option) \<Rightarrow> string \<Rightarrow> string \<Rightarrow> string list \<Rightarrow> bytes \<Rightarrow> bytes \<Rightarrow> string \<Rightarrow> cert_db \<Rightarrow>
    string option \<times> cert_db" where
  "add_certificate expiry_of uuid now hosts cert_pem key_pem source_type db =
     (if from_utf8 cert_pem = None \<or> from_utf8 key_pem = None then (None, db)
      else
        case statement db of
          (False, db1) \<Rightarrow> (None, db1)
        | (True, db1) \<Rightarrow>
            (Some uuid, db1\<lparr>cd_rows := cd_rows db1 @
               [\<lparr>cr_id = uuid, cr_hosts = hosts, cr_source_type = source_type, cr_created_at = now,
                 cr_expires_at = expiry_of cert_pem, ct_cert_pem = cert_pem, ct_key_pem = key_pem\<rparr>]\<rparr>))"

definition delete_certificate :: "string \<Rightarrow> cert_db \<Rightarrow> bool option \<times> cert_db" where
  "delete_certificate i db =
     (case statement db of
        (False, db1) \<Rightarrow> (None, db1)
      | (True, db1) \<Rightarrow>
          (Some (list_ex (\<lambda>r. cr_id r = i) (cd_rows db1)), db1\<lparr>cd_rows := filter (\<lambda>r. cr_id r \<noteq> i) (cd_rows db1)\<rparr>))"

section \<open>Which certificate serves which host\<close>

record ssl_env =
  se_now :: int
  se_parse_date :: "string \<Rightarrow> int option"
  se_expiry_of :: "bytes \<Rightarrow> string option"
  se_valid_pem :: "bytes \<Rightarrow> bytes \<Rightarrow> bool"
  se_fs_write :: "string \<Rightarrow> bytes \<Rightarrow> bool"
  se_valid_pair :: "string \<Rightarrow> string \<Rightarrow> bool"
  se_host_check :: "string \<Rightarrow> string list \<Rightarrow> bool"
  se_certs_dir :: string

definition num_days :: "int \<Rightarrow> int" where
  "num_days d = (let day = 86400 * 1000000000 in if 0 \<le> d then d div day else - (- d div day))"

definition cert_expires_within_days :: "ssl_env \<Rightarrow> string option \<Rightarrow> int \<Rightarrow> bool" where
  "cert_expires_within_days env expires_at days =
     (case expires_at of
        None \<Rightarrow> False
      | Some raw \<Rightarrow>
          let s = trim raw in
          if s = [] then False
          else case se_parse_date env s of
                 None \<Rightarrow> False
               | Some expiry \<Rightarrow> num_days (expiry - se_now env) \<le> days)"

definition ssl_hosts :: "string list \<Rightarrow> string list" where
  "ssl_hosts hosts = filter (\<lambda>s. s \<noteq> []) (map trim hosts)"

definition host_covered_by_cert_hosts :: "string list \<Rightarrow> string \<Rightarrow> bool" where
  "host_covered_by_cert_hosts cert_hosts raw =
     (let host = trim raw; have_hosts = ssl_hosts cert_hosts in
      if host = [] then False
      else if starts_with host ''*'' then host \<in> set have_hosts
      else if host \<in> set have_hosts then True
      else list_ex (\<lambda>w. wildcard_covers_host w host) have_hosts)"

definition cert_row_covers_tls_hosts :: "string list \<Rightarrow> string list \<Rightarrow> bool" where
  "cert_row_covers_tls_hosts cert_hosts tls_hosts =
     (let want = ssl_hosts tls_hosts in
      if want = [] then False else list_all (host_covered_by_cert_hosts cert_hosts) want)"

definition hosts_covered_by_row :: "CertificateRow \<Rightarrow> string list \<Rightarrow> string list" where
  "hosts_covered_by_row row tls_hosts =
     filter (\<lambda>h. h \<noteq> [] \<and> host_covered_by_cert_hosts (cr_hosts row) h) (map trim tls_hosts)"

definition acme_cert_is_valid :: "ssl_env \<Rightarrow> CertificateRow \<Rightarrow> string list \<Rightarrow> bool" where
  "acme_cert_is_valid env row tls_hosts =
     (if \<not> eq_ignore_ascii_case (cr_source_type row) ''acme'' then False
      else if get_or True (map_option (\<lambda>s. trim s = []) (cr_expires_at row)) then False
      else if cert_expires_within_days env (cr_expires_at row) 0 then False
      else cert_row_covers_tls_hosts (cr_hosts row) tls_hosts)"

definition find_acme_cert_for_hosts :: "ssl_env \<Rightarrow> CertificateRow list \<Rightarrow> string list \<Rightarrow> CertificateRow option" where
  "find_acme_cert_for_hosts env rows hosts =
     find (\<lambda>row. eq_ignore_ascii_case (cr_source_type row) ''acme'' \<and> acme_cert_is_valid env row hosts) rows"

definition hosts_missing_from_store :: "CertStore \<Rightarrow> string list \<Rightarrow> string list" where
  "hosts_missing_from_store store hosts =
     filter (\<lambda>raw. let h = trim raw in h \<noteq> [] \<and> \<not> starts_with h ''*'' \<and> \<not> has_cert_for_host store h) hosts"

definition acme_hosts_for_order :: "string list \<Rightarrow> string \<Rightarrow> string list" where
  "acme_hosts_for_order hosts challenge =
     (let dns01 = eq_ignore_ascii_case challenge ''dns01'' \<or> eq_ignore_ascii_case challenge ''dns-01'';
          wildcards = filter (\<lambda>h. starts_with h ''*'') hosts;
          eligible = (if dns01 then if wildcards \<noteq> [] then wildcards else hosts
                      else filter (\<lambda>h. \<not> starts_with h ''*'') hosts)
      in filter (\<lambda>h. \<not> is_invalid_acme_identifier h) eligible)"

definition acme_tls_count :: "Config \<Rightarrow> nat" where
  "acme_tls_count config = length (filter (\<lambda>t. is_acme (tc_source t)) (cf_tls config))"

section \<open>The sweep\<close>

record ssl_state =
  ss_db :: cert_db
  ss_store :: CertStore
  ss_inflight :: "string list"

definition store_pem :: "ssl_env \<Rightarrow> string list \<Rightarrow> bytes \<Rightarrow> bytes \<Rightarrow> string \<Rightarrow> CertStore \<Rightarrow> CertStore option" where
  "store_pem env hosts cert key i store =
     insert_pem_for_hosts (se_valid_pem env) (se_fs_write env) (se_valid_pair env) (se_host_check env) hosts cert key
       (se_certs_dir env) i store"

definition reload_acme_cert_into_store :: "ssl_env \<Rightarrow> CertificateRow \<Rightarrow> string list \<Rightarrow> ssl_state \<Rightarrow> bool \<times> ssl_state" where
  "reload_acme_cert_into_store env row hosts st =
     (case get_all_certificates_for_store (ss_db st) of
        (None, db1) \<Rightarrow> (False, st\<lparr>ss_db := db1\<rparr>)
      | (Some rows, db1) \<Rightarrow>
          (case find (\<lambda>(i, _). i = cr_id row) rows of
             None \<Rightarrow> (False, st\<lparr>ss_db := db1\<rparr>)
           | Some (i, _, cert, key) \<Rightarrow>
               (case store_pem env hosts cert key i (ss_store st) of
                  None \<Rightarrow> (False, st\<lparr>ss_db := db1\<rparr>)
                | Some store \<Rightarrow> (True, st\<lparr>ss_db := db1, ss_store := store\<rparr>))))"

definition drop_row :: "CertificateRow \<Rightarrow> ssl_state \<Rightarrow> ssl_state" where
  "drop_row row st =
     (case delete_certificate (cr_id row) (ss_db st) of
        (Some True, db1) \<Rightarrow> st\<lparr>ss_db := db1, ss_store := remove_for_hosts (cr_hosts row) (ss_store st)\<rparr>
      | (_, db1) \<Rightarrow> st\<lparr>ss_db := db1\<rparr>)"

definition RENEW_DAYS :: int where
  "RENEW_DAYS = 30"

definition due_for_renewal :: "ssl_env \<Rightarrow> Config \<Rightarrow> CertificateRow \<Rightarrow> bool" where
  "due_for_renewal env config row \<longleftrightarrow>
     eq_ignore_ascii_case (cr_source_type row) ''acme'' \<and> cert_expires_within_days env (cr_expires_at row) RENEW_DAYS \<and>
     list_ex (\<lambda>tls. is_acme (tc_source tls) \<and> set (ssl_hosts (tc_hosts tls)) \<inter> set (ssl_hosts (cr_hosts row)) \<noteq> {}) (cf_tls config)"

definition renew_expiring :: "ssl_env \<Rightarrow> Config \<Rightarrow> CertificateRow list \<Rightarrow> ssl_state \<Rightarrow> ssl_state" where
  "renew_expiring env config rows st = fold drop_row (filter (due_for_renewal env config) rows) st"

definition drop_uploaded :: "CertificateRow list \<Rightarrow> string list \<Rightarrow> ssl_state \<Rightarrow> ssl_state" where
  "drop_uploaded rows hosts st =
     (case find (\<lambda>row. eq_ignore_ascii_case (cr_source_type row) ''uploaded'' \<and> cert_row_covers_tls_hosts (cr_hosts row) hosts) rows of
        Some uploaded \<Rightarrow> drop_row uploaded st
      | None \<Rightarrow> st)"

definition drop_stale :: "ssl_env \<Rightarrow> CertificateRow list \<Rightarrow> string list \<Rightarrow> ssl_state \<Rightarrow> ssl_state" where
  "drop_stale env rows order_hosts st =
     fold drop_row (filter (\<lambda>row. eq_ignore_ascii_case (cr_source_type row) ''acme'' \<and>
       cert_row_covers_tls_hosts (cr_hosts row) order_hosts \<and> \<not> acme_cert_is_valid env row order_hosts) rows) st"

fun with_default_email :: "string option \<Rightarrow> TlsSource \<Rightarrow> TlsSource" where
  "with_default_email acme_email (Acme email challenge provider kind creds) =
     (if get_or True (map_option (\<lambda>e. trim e = []) email)
      then case filter_opt (\<lambda>e. e \<noteq> []) (map_option trim acme_email) of
             Some dflt \<Rightarrow> Acme (Some dflt) challenge provider kind creds
           | None \<Rightarrow> Acme email challenge provider kind creds
      else Acme email challenge provider kind creds)"
| "with_default_email acme_email source = source"

definition order_key :: "string list \<Rightarrow> string" where
  "order_key hosts = join '','' (sort hosts)"

record ssl_task =
  tk_key :: string
  tk_config :: TlsConfig

definition try_spawn :: "Config \<Rightarrow> TlsConfig \<Rightarrow> string list \<Rightarrow> ssl_state \<Rightarrow> ssl_task option \<times> ssl_state" where
  "try_spawn config tls order_hosts st =
     (let key = order_key order_hosts in
      if key \<in> set (ss_inflight st) then (None, st)
      else (Some \<lparr>tk_key = key,
              tk_config = \<lparr>tc_hosts = order_hosts, tc_source = with_default_email (cf_acme_email config) (tc_source tls), tc_expires_at = None\<rparr>\<rparr>,
            st\<lparr>ss_inflight := key # ss_inflight st\<rparr>))"

text \<open>One entry: the rows known so far, the state, and the task it starts, if any.\<close>
definition reuse_valid :: "ssl_env \<Rightarrow> CertificateRow list \<Rightarrow> string list \<Rightarrow> string list \<Rightarrow> ssl_state \<Rightarrow> bool \<times> ssl_state" where
  "reuse_valid env rows hosts order_hosts st =
     (case find_acme_cert_for_hosts env rows order_hosts of
        None \<Rightarrow> (False, st)
      | Some row \<Rightarrow>
          let covered = hosts_covered_by_row row hosts in
          if hosts_missing_from_store (ss_store st) covered = [] then (True, st)
          else reload_acme_cert_into_store env row covered st)"

definition sweep_entry :: "ssl_env \<Rightarrow> Config \<Rightarrow> TlsConfig \<Rightarrow> CertificateRow list \<Rightarrow> ssl_state \<Rightarrow>
    CertificateRow list \<times> ssl_task option \<times> ssl_state" where
  "sweep_entry env config tls rows st =
     (case tc_source tls of
        Acme _ challenge _ _ _ \<Rightarrow>
          let hosts = ssl_hosts (tc_hosts tls) in
          if hosts = [] then (rows, None, st)
          else
            let st1 = drop_uploaded rows hosts st; order_hosts = acme_hosts_for_order hosts challenge in
            if order_hosts = [] then (rows, None, st1)
            else
              (case reuse_valid env rows hosts order_hosts st1 of
                 (True, st2) \<Rightarrow> (rows, None, st2)
               | (False, st2) \<Rightarrow>
                   let st3 = drop_stale env rows order_hosts st2;
                       (listed, db) = list_certificates (se_expiry_of env) (ss_db st3);
                       st4 = st3\<lparr>ss_db := db\<rparr>;
                       rows' = get_or rows listed
                   in if find_acme_cert_for_hosts env rows' order_hosts \<noteq> None then (rows', None, st4)
                      else case try_spawn config tls order_hosts st4 of (task, st5) \<Rightarrow> (rows', task, st5))
      | _ \<Rightarrow> (rows, None, st))"

fun sweep_entries :: "ssl_env \<Rightarrow> Config \<Rightarrow> TlsConfig list \<Rightarrow> CertificateRow list \<Rightarrow> ssl_state \<Rightarrow> ssl_task list \<times> ssl_state" where
  "sweep_entries env config [] rows st = ([], st)"
| "sweep_entries env config (tls # entries) rows st =
     (case sweep_entry env config tls rows st of
        (rows', task, st') \<Rightarrow>
          (case sweep_entries env config entries rows' st' of
             (tasks, st'') \<Rightarrow> (case task of Some t \<Rightarrow> t # tasks | None \<Rightarrow> tasks, st'')))"

fun load_rows :: "ssl_env \<Rightarrow> (string \<times> string list \<times> bytes \<times> bytes) list \<Rightarrow> CertStore \<Rightarrow> CertStore" where
  "load_rows env [] store = store"
| "load_rows env ((i, hosts, cert, key) # rows) store =
     (case store_pem env hosts cert key i store of Some store' \<Rightarrow> load_rows env rows store' | None \<Rightarrow> store)"

definition load_db_certs_into_store :: "ssl_env \<Rightarrow> ssl_state \<Rightarrow> ssl_state" where
  "load_db_certs_into_store env st =
     (case get_all_certificates_for_store (ss_db st) of
        (None, db1) \<Rightarrow> st\<lparr>ss_db := db1\<rparr>
      | (Some rows, db1) \<Rightarrow> st\<lparr>ss_db := db1, ss_store := load_rows env rows (ss_store st)\<rparr>)"

definition spawn_auto_ssl_for_config :: "ssl_env \<Rightarrow> Config \<Rightarrow> ssl_state \<Rightarrow> ssl_task list \<times> ssl_state" where
  "spawn_auto_ssl_for_config env config st =
     (case list_certificates (se_expiry_of env) (ss_db st) of
        (None, db1) \<Rightarrow> ([], st\<lparr>ss_db := db1\<rparr>)
      | (Some rows, db1) \<Rightarrow>
          let st1 = st\<lparr>ss_db := db1\<rparr> in
          if acme_tls_count config = 0 then ([], st1)
          else
            let st2 = renew_expiring env config rows st1 in
            (case list_certificates (se_expiry_of env) (ss_db st2) of
               (None, db2) \<Rightarrow> ([], st2\<lparr>ss_db := db2\<rparr>)
             | (Some rows2, db2) \<Rightarrow>
                 (case sweep_entries env config (cf_tls config) rows2 (st2\<lparr>ss_db := db2\<rparr>) of
                    (tasks, st3) \<Rightarrow> (tasks, load_db_certs_into_store env st3))))"

section \<open>The end of a task\<close>

definition finish_obtain :: "ssl_env \<Rightarrow> string \<Rightarrow> string \<Rightarrow> ssl_task \<Rightarrow> string + string list \<times> bytes \<times> bytes \<Rightarrow> ssl_state \<Rightarrow> ssl_state" where
  "finish_obtain env uuid now task result st =
     (let st1 =
        (case result of
           Inl _ \<Rightarrow> st
         | Inr (hosts, cert, key) \<Rightarrow>
             (case add_certificate (se_expiry_of env) uuid now hosts cert key ''acme'' (ss_db st) of
                (None, db1) \<Rightarrow> st\<lparr>ss_db := db1\<rparr>
              | (Some i, db1) \<Rightarrow>
                  st\<lparr>ss_db := db1, ss_store := get_or (ss_store st) (store_pem env hosts cert key i (ss_store st))\<rparr>))
      in st1\<lparr>ss_inflight := filter (\<lambda>k. k \<noteq> tk_key task) (ss_inflight st1)\<rparr>)"

section \<open>Orders in flight\<close>

datatype ssl_event =
    Sweep ssl_env Config
  | Finish ssl_env string string nat "string + string list \<times> bytes \<times> bytes"

fun ssl_step :: "ssl_state \<times> ssl_task list \<Rightarrow> ssl_event \<Rightarrow> ssl_state \<times> ssl_task list" where
  "ssl_step (st, running) (Sweep env config) =
     (case spawn_auto_ssl_for_config env config st of (tasks, st') \<Rightarrow> (st', running @ tasks))"
| "ssl_step (st, running) (Finish env uuid now i result) =
     (if i < length running
      then (finish_obtain env uuid now (running ! i) result st, take i running @ drop (Suc i) running)
      else (st, running))"

definition locked :: "ssl_state \<times> ssl_task list \<Rightarrow> bool" where
  "locked s \<longleftrightarrow> distinct (map tk_key (snd s)) \<and> set (ss_inflight (fst s)) = tk_key ` set (snd s) \<and>
     (\<forall>t \<in> set (snd s). tk_key t = order_key (tc_hosts (tk_config t)))"

text \<open>Only the lock itself changes the set of orders in flight.\<close>
lemma drop_row_inflight [simp]: "ss_inflight (drop_row row st) = ss_inflight st"
  by (auto simp: drop_row_def split: prod.splits option.splits bool.splits)

lemma fold_drop_inflight [simp]: "ss_inflight (fold drop_row rows st) = ss_inflight st"
  by (induction rows arbitrary: st) simp_all

lemma drops_inflight [simp]: "ss_inflight (renew_expiring env config rows st) = ss_inflight st"
  "ss_inflight (drop_uploaded rows hosts st) = ss_inflight st" "ss_inflight (drop_stale env rows hosts st) = ss_inflight st"
  by (simp_all add: renew_expiring_def drop_uploaded_def drop_stale_def split: option.split)

lemma reuse_valid_inflight: "reuse_valid env rows hosts order_hosts st = (b, st') \<Longrightarrow> ss_inflight st' = ss_inflight st"
  by (auto simp: reuse_valid_def reload_acme_cert_into_store_def Let_def split: option.splits prod.splits if_splits)

lemma load_db_inflight [simp]: "ss_inflight (load_db_certs_into_store env st) = ss_inflight st"
  by (simp add: load_db_certs_into_store_def split: prod.split option.split)

lemma sweep_entry_inflight:
  assumes "sweep_entry env config tls rows st = (rows', task, st')"
  shows "case task of
      None \<Rightarrow> ss_inflight st' = ss_inflight st
    | Some t \<Rightarrow> ss_inflight st' = tk_key t # ss_inflight st \<and> tk_key t \<notin> set (ss_inflight st) \<and>
        tk_key t = order_key (tc_hosts (tk_config t))"
proof (cases "tc_source tls")
  case (Acme email challenge p k c)
  let ?hosts = "ssl_hosts (tc_hosts tls)"
  let ?order = "acme_hosts_for_order ?hosts challenge"
  obtain b st2 where r: "reuse_valid env rows ?hosts ?order (drop_uploaded rows ?hosts st) = (b, st2)" by fastforce
  from reuse_valid_inflight [OF r] have "ss_inflight st2 = ss_inflight st" by simp
  then show ?thesis
    using assms r Acme
    by (cases b) (auto simp: sweep_entry_def try_spawn_def Let_def split: if_splits prod.splits)
qed (use assms in \<open>auto simp: sweep_entry_def\<close>)

lemma sweep_entries_inflight:
  "sweep_entries env config entries rows st = (tasks, st') \<Longrightarrow>
     distinct (map tk_key tasks) \<and> tk_key ` set tasks \<inter> set (ss_inflight st) = {} \<and>
     set (ss_inflight st') = set (ss_inflight st) \<union> tk_key ` set tasks \<and>
     (\<forall>t \<in> set tasks. tk_key t = order_key (tc_hosts (tk_config t)))"
proof (induction entries arbitrary: rows st tasks)
  case (Cons tls entries)
  obtain rows1 task st1 where e: "sweep_entry env config tls rows st = (rows1, task, st1)" using prod_cases3 by blast
  obtain tasks1 where s: "sweep_entries env config entries rows1 st1 = (tasks1, st')"
    and t: "tasks = (case task of Some t \<Rightarrow> t # tasks1 | None \<Rightarrow> tasks1)"
    using Cons.prems e by (auto split: prod.splits)
  from Cons.IH [OF s] sweep_entry_inflight [OF e] show ?case unfolding t by (cases task) auto
qed simp

lemma spawn_inflight:
  assumes "spawn_auto_ssl_for_config env config st = (tasks, st')"
  shows "distinct (map tk_key tasks) \<and> tk_key ` set tasks \<inter> set (ss_inflight st) = {} \<and>
     set (ss_inflight st') = set (ss_inflight st) \<union> tk_key ` set tasks \<and>
     (\<forall>t \<in> set tasks. tk_key t = order_key (tc_hosts (tk_config t)))"
proof -
  consider "tasks = []" "ss_inflight st' = ss_inflight st"
    | rows st2 st3 where "sweep_entries env config (cf_tls config) rows st2 = (tasks, st3)"
        "ss_inflight st2 = ss_inflight st" "ss_inflight st' = ss_inflight st3"
    using assms unfolding spawn_auto_ssl_for_config_def Let_def
    by (fastforce split: prod.splits option.splits if_splits)
  then show ?thesis
  proof cases
    case 2
    from sweep_entries_inflight [OF 2(1)] show ?thesis unfolding 2(2,3) .
  qed simp
qed

lemma finish_obtain_inflight: "ss_inflight (finish_obtain env uuid now task result st) = filter (\<lambda>k. k \<noteq> tk_key task) (ss_inflight st)"
  by (simp add: finish_obtain_def Let_def split: sum.split prod.split option.split)

lemma distinct_keys_remove:
  assumes "distinct (map k (xs @ t # ys))" and "set l = k ` set (xs @ t # ys)"
  shows "distinct (map k (xs @ ys)) \<and> set (filter (\<lambda>x. x \<noteq> k t) l) = k ` set (xs @ ys)"
  using assms by auto (metis image_eqI)+

lemma locked_step: "locked s \<Longrightarrow> locked (ssl_step s e)"
proof -
  assume l: "locked s"
  obtain st running where s: "s = (st, running)" by fastforce
  show "locked (ssl_step s e)"
  proof (cases e)
    case (Sweep env config)
    obtain tasks st' where p: "spawn_auto_ssl_for_config env config st = (tasks, st')" by fastforce
    note new = spawn_inflight [OF p]
    from l have old: "distinct (map tk_key running)" "set (ss_inflight st) = tk_key ` set running"
      "\<forall>t \<in> set running. tk_key t = order_key (tc_hosts (tk_config t))"
      unfolding locked_def s fst_conv snd_conv by blast+
    from new old(1,2) have "distinct (map tk_key (running @ tasks))"
      unfolding map_append distinct_append set_map by blast
    moreover from new old have "set (ss_inflight st') = tk_key ` set (running @ tasks)" by (simp only: set_append image_Un)
    moreover from new old have "\<forall>t \<in> set (running @ tasks). tk_key t = order_key (tc_hosts (tk_config t))" by (metis UnE set_append)
    ultimately show ?thesis by (simp only: s Sweep ssl_step.simps p prod.case locked_def fst_conv snd_conv simp_thms)
  next
    case (Finish env uuid now i result)
    show ?thesis
    proof (cases "i < length running")
      case True
      have d: "running = take i running @ running ! i # drop (Suc i) running" using True by (rule id_take_nth_drop)
      from l have "distinct (map tk_key running)" "set (ss_inflight st) = tk_key ` set running"
        and o: "\<forall>t \<in> set running. tk_key t = order_key (tc_hosts (tk_config t))"
        unfolding locked_def s fst_conv snd_conv by blast+
      then have "distinct (map tk_key (take i running @ drop (Suc i) running)) \<and>
          set (filter (\<lambda>x. x \<noteq> tk_key (running ! i)) (ss_inflight st)) = tk_key ` set (take i running @ drop (Suc i) running)"
        using distinct_keys_remove [of tk_key "take i running" "running ! i" "drop (Suc i) running"] d by metis
      moreover have "\<forall>t \<in> set (take i running @ drop (Suc i) running). tk_key t = order_key (tc_hosts (tk_config t))"
        using o by (metis UnE in_set_dropD in_set_takeD set_append)
      ultimately show ?thesis using True
        by (simp only: s Finish ssl_step.simps if_True locked_def fst_conv snd_conv finish_obtain_inflight simp_thms)
    qed (use l in \<open>simp add: s Finish\<close>)
  qed
qed

interpretation ssl_sys: invariant_system ssl_step locked
  by unfold_locales (rule locked_step)

text \<open>C6: No duplicate orders.  Whatever sweeps over whatever configurations run, and in whatever order
  and with whatever result their background tasks end, no two tasks that are under way order a
  certificate for the same hosts, and the lock set holds exactly the keys of the tasks under way, so
  that a failed order can be tried again.\<close>
theorem no_duplicate_orders:
  "(case foldl ssl_step (\<lparr>ss_db = db, ss_store = store, ss_inflight = []\<rparr>, []) events of (st, running) \<Rightarrow>
      distinct (map (\<lambda>t. sort (tc_hosts (tk_config t))) running) \<and>
      set (ss_inflight st) = (\<lambda>t. order_key (tc_hosts (tk_config t))) ` set running)"
proof -
  let ?s = "foldl ssl_step (\<lparr>ss_db = db, ss_store = store, ss_inflight = []\<rparr>, []) events"
  have "locked ?s" by (rule ssl_sys.run_inv) (simp add: locked_def)
  then have k: "map tk_key (snd ?s) = map (join '','') (map (\<lambda>t. sort (tc_hosts (tk_config t))) (snd ?s))"
    and d: "distinct (map tk_key (snd ?s))" and i: "set (ss_inflight (fst ?s)) = tk_key ` set (snd ?s)"
    by (auto simp: locked_def order_key_def)
  from d have "distinct (map (\<lambda>t. sort (tc_hosts (tk_config t))) (snd ?s))"
    unfolding k by (simp only: distinct_map)
  moreover from \<open>locked ?s\<close> i have "set (ss_inflight (fst ?s)) = (\<lambda>t. order_key (tc_hosts (tk_config t))) ` set (snd ?s)"
    by (auto simp: locked_def image_iff)
  ultimately show ?thesis by (simp add: case_prod_unfold)
qed

section \<open>A certificate that is not due is kept\<close>

text \<open>An ACME certificate with more than thirty days left.\<close>
definition long_lived :: "ssl_env \<Rightarrow> CertificateRow \<Rightarrow> bool" where
  "long_lived env row \<longleftrightarrow> eq_ignore_ascii_case (cr_source_type row) ''acme'' \<and>
     (case cr_expires_at row of
        None \<Rightarrow> False
      | Some s \<Rightarrow> trim s \<noteq> [] \<and>
          (case se_parse_date env (trim s) of Some e \<Rightarrow> RENEW_DAYS < num_days (e - se_now env) | None \<Rightarrow> False))"

lemma long_lived_uses:
  assumes "long_lived env row"
  shows "\<not> due_for_renewal env config row" and "\<not> eq_ignore_ascii_case (cr_source_type row) ''uploaded''"
    and "acme_cert_is_valid env row hosts \<longleftrightarrow> cert_row_covers_tls_hosts (cr_hosts row) hosts"
proof -
  obtain s e where s: "cr_expires_at row = Some s" "trim s \<noteq> []" "se_parse_date env (trim s) = Some e" "30 < num_days (e - se_now env)"
    and a: "eq_ignore_ascii_case (cr_source_type row) ''acme''"
    using assms by (auto simp: long_lived_def RENEW_DAYS_def split: option.splits)
  from s show "\<not> due_for_renewal env config row"
    by (simp add: due_for_renewal_def cert_expires_within_days_def RENEW_DAYS_def Let_def)
  from s a show "acme_cert_is_valid env row hosts \<longleftrightarrow> cert_row_covers_tls_hosts (cr_hosts row) hosts"
    by (simp add: acme_cert_is_valid_def cert_expires_within_days_def Let_def)
  show "\<not> eq_ignore_ascii_case (cr_source_type row) ''uploaded''"
    using a by (simp add: eq_ignore_ascii_case_def to_ascii_lowercase_def lower_char_def is_upper_def)
qed

text \<open>The table holds the certificate under an identifier of its own, and so does every listing.\<close>
definition holds :: "cert_record \<Rightarrow> cert_db \<Rightarrow> bool" where
  "holds r db \<longleftrightarrow> r \<in> set (cd_rows db) \<and> (\<forall>x \<in> set (cd_rows db). cr_id x = cr_id r \<longrightarrow> x = r)"

definition listed :: "cert_record \<Rightarrow> CertificateRow list \<Rightarrow> bool" where
  "listed r rows \<longleftrightarrow> CertificateRow.truncate r \<in> set rows \<and>
     (\<forall>x \<in> set rows. cr_id x = cr_id r \<longrightarrow> x = CertificateRow.truncate r)"

lemma truncate_fields [simp]:
  "cr_id (CertificateRow.truncate r) = cr_id r" "cr_hosts (CertificateRow.truncate r) = cr_hosts r"
  "cr_source_type (CertificateRow.truncate r) = cr_source_type r" "cr_expires_at (CertificateRow.truncate r) = cr_expires_at r"
  by (simp_all add: CertificateRow.truncate_def)

lemma backfill_id [simp]: "cr_id (backfill f r) = cr_id r"
  by (simp add: backfill_def)

lemma list_certificates_holds:
  assumes "holds r db" and "cr_expires_at r \<noteq> None" and "list_certificates f db = (rows, db')"
  shows "holds r db' \<and> (case rows of Some rs \<Rightarrow> listed r rs | None \<Rightarrow> True)"
proof -
  let ?rows = "map (backfill f) (cd_rows db)"
  have r: "backfill f r = r" using assms(2) by (auto simp: backfill_def)
  have h: "r \<in> set ?rows" and u: "\<forall>x \<in> set ?rows. cr_id x = cr_id r \<longrightarrow> x = r"
    using assms(1) r unfolding holds_def set_map by (metis image_eqI, metis (no_types, lifting) backfill_id imageE)
  have "CertificateRow.truncate r \<in> CertificateRow.truncate ` set ?rows" using h by (rule imageI)
  moreover have "\<forall>x \<in> CertificateRow.truncate ` set ?rows. cr_id x = cr_id r \<longrightarrow> x = CertificateRow.truncate r"
    using u by (metis imageE truncate_fields(1))
  ultimately have "listed r (map CertificateRow.truncate (sort_key cr_created_at ?rows))"
    unfolding listed_def by (simp only: set_map set_sort simp_thms)
  moreover have "holds r (db\<lparr>cd_tick := Suc (cd_tick db), cd_rows := ?rows\<rparr>)"
  proof -
    have c: "cd_rows (db\<lparr>cd_tick := Suc (cd_tick db), cd_rows := ?rows\<rparr>) = ?rows" by simp
    show ?thesis unfolding holds_def c using h u by blast
  qed
  moreover have "holds r (db\<lparr>cd_tick := Suc (cd_tick db)\<rparr>)" using assms(1) by (simp add: holds_def)
  ultimately show ?thesis
    using assms(3) by (cases "cd_up db (cd_tick db)") (auto simp: list_certificates_def statement_def Let_def)
qed

lemma delete_certificate_holds:
  assumes "holds r db" and "i \<noteq> cr_id r"
  shows "holds r (snd (delete_certificate i db))"
  using assms by (auto simp: delete_certificate_def statement_def holds_def split: bool.split)

lemma drop_row_holds:
  assumes "holds r (ss_db st)" and "cr_id row \<noteq> cr_id r"
  shows "holds r (ss_db (drop_row row st))"
  using delete_certificate_holds [OF assms]
  by (auto simp: drop_row_def split: prod.splits option.splits bool.splits)

lemma fold_drop_holds:
  "holds r (ss_db st) \<Longrightarrow> \<forall>row \<in> set rows. cr_id row \<noteq> cr_id r \<Longrightarrow> holds r (ss_db (fold drop_row rows st))"
  by (induction rows arbitrary: st) (simp_all add: drop_row_holds)

lemma filter_drop_holds:
  assumes "holds r (ss_db st)" and "listed r rows" and "\<not> P (CertificateRow.truncate r)"
  shows "holds r (ss_db (fold drop_row (filter P rows) st))"
  using assms by (intro fold_drop_holds) (auto simp: listed_def)

lemma drops_hold:
  assumes "holds r (ss_db st)" and "listed r rows" and "long_lived env (CertificateRow.truncate r)"
  shows "holds r (ss_db (renew_expiring env config rows st))" and "holds r (ss_db (drop_stale env rows order_hosts st))"
    and "holds r (ss_db (drop_uploaded rows hosts st))"
proof -
  note l = long_lived_uses [OF assms(3)]
  show "holds r (ss_db (renew_expiring env config rows st))"
    unfolding renew_expiring_def by (rule filter_drop_holds [OF assms(1,2)]) (rule l(1))
  show "holds r (ss_db (drop_stale env rows order_hosts st))"
    unfolding drop_stale_def by (rule filter_drop_holds [OF assms(1,2)]) (use l(3) in blast)
  show "holds r (ss_db (drop_uploaded rows hosts st))"
  proof (cases "find (\<lambda>row. eq_ignore_ascii_case (cr_source_type row) ''uploaded'' \<and> cert_row_covers_tls_hosts (cr_hosts row) hosts) rows")
    case (Some u)
    then have "u \<in> set rows" "eq_ignore_ascii_case (cr_source_type u) ''uploaded''" by (auto simp: find_Some_iff in_set_conv_nth)
    with assms(2) l(2) have "cr_id u \<noteq> cr_id r" unfolding listed_def by metis
    with Some drop_row_holds [OF assms(1)] show ?thesis by (simp add: drop_uploaded_def)
  qed (simp add: drop_uploaded_def assms(1))
qed

lemma reuse_valid_holds:
  assumes "holds r (ss_db st)" and "reuse_valid env rows hosts order_hosts st = (b, st')"
  shows "holds r (ss_db st')"
proof -
  have "holds r (snd (get_all_certificates_for_store (ss_db st)))"
    using assms(1) by (auto simp: get_all_certificates_for_store_def statement_def holds_def split: bool.split)
  then show ?thesis using assms
    by (auto simp: reuse_valid_def reload_acme_cert_into_store_def Let_def split: option.splits prod.splits if_splits)
qed

lemma covering_found:
  assumes "listed r rows" and "long_lived env (CertificateRow.truncate r)" and "cert_row_covers_tls_hosts (cr_hosts r) hosts"
  shows "find_acme_cert_for_hosts env rows hosts \<noteq> None"
proof -
  have "eq_ignore_ascii_case (cr_source_type (CertificateRow.truncate r)) ''acme'' \<and> acme_cert_is_valid env (CertificateRow.truncate r) hosts"
    using assms(2,3) long_lived_uses(3) [OF assms(2)] by (simp add: long_lived_def)
  then show ?thesis
    using assms(1) unfolding find_acme_cert_for_hosts_def listed_def find_None_iff by blast
qed

lemma sweep_entry_holds:
  assumes "holds r (ss_db st)" and "listed r rows" and "long_lived env (CertificateRow.truncate r)"
    and "sweep_entry env config tls rows st = (rows', task, st')"
  shows "holds r (ss_db st') \<and> listed r rows' \<and>
    (case task of Some t \<Rightarrow> \<not> cert_row_covers_tls_hosts (cr_hosts r) (tc_hosts (tk_config t)) | None \<Rightarrow> True)"
proof (cases "tc_source tls")
  case (Acme email challenge p k c)
  let ?hosts = "ssl_hosts (tc_hosts tls)"
  let ?order = "acme_hosts_for_order ?hosts challenge"
  have e: "cr_expires_at r \<noteq> None" using assms(3) by (auto simp: long_lived_def split: option.splits)
  obtain b st2 where u: "reuse_valid env rows ?hosts ?order (drop_uploaded rows ?hosts st) = (b, st2)" by fastforce
  have h1: "holds r (ss_db (drop_uploaded rows ?hosts st))" by (rule drops_hold [OF assms(1-3)])
  have h2: "holds r (ss_db st2)" by (rule reuse_valid_holds [OF h1 u])
  have h3: "holds r (ss_db (drop_stale env rows ?order st2))" by (rule drops_hold [OF h2 assms(2,3)])
  obtain l db where l: "list_certificates (se_expiry_of env) (ss_db (drop_stale env rows ?order st2)) = (l, db)" by fastforce
  from list_certificates_holds [OF h3 e l] have h4: "holds r db" and r': "listed r (get_or rows l)"
    using assms(2) by (cases l; simp)+
  show ?thesis
    using assms(1,2,4) h1 h2 h4 r' covering_found [OF r' assms(3), of ?order]
    by (cases b) (auto simp: sweep_entry_def Acme u l try_spawn_def Let_def split: if_splits)
qed (use assms in \<open>auto simp: sweep_entry_def\<close>)

lemma sweep_entries_holds:
  assumes "long_lived env (CertificateRow.truncate r)"
  shows "holds r (ss_db st) \<Longrightarrow> listed r rows \<Longrightarrow> sweep_entries env config entries rows st = (tasks, st') \<Longrightarrow>
    holds r (ss_db st') \<and> (\<forall>t \<in> set tasks. \<not> cert_row_covers_tls_hosts (cr_hosts r) (tc_hosts (tk_config t)))"
proof (induction entries arbitrary: rows st tasks)
  case (Cons tls entries)
  obtain rows1 task st1 where e: "sweep_entry env config tls rows st = (rows1, task, st1)" using prod_cases3 by blast
  obtain tasks1 where s: "sweep_entries env config entries rows1 st1 = (tasks1, st')"
    and t: "tasks = (case task of Some t \<Rightarrow> t # tasks1 | None \<Rightarrow> tasks1)"
    using Cons.prems(3) e by (auto split: prod.splits)
  from sweep_entry_holds [OF Cons.prems(1,2) assms e] Cons.IH [OF _ _ s] show ?case
    unfolding t by (cases task) auto
qed simp

text \<open>C13: Certificates are not ordered again.  An ACME certificate in the table with more than thirty
  days left survives every sweep, whichever database statements fail, and no sweep starts an order
  whose hosts it covers, so that adding names under an existing wildcard does not use up the
  authority's rate limit.\<close>
theorem valid_certificate_kept:
  assumes "r \<in> set (cd_rows (ss_db st))" and "distinct (map cr_id (cd_rows (ss_db st)))"
    and "long_lived env (CertificateRow.truncate r)" and "spawn_auto_ssl_for_config env config st = (tasks, st')"
  shows "r \<in> set (cd_rows (ss_db st')) \<and> (\<forall>t \<in> set tasks. \<not> cert_row_covers_tls_hosts (cr_hosts r) (tc_hosts (tk_config t)))"
proof -
  have e: "cr_expires_at r \<noteq> None" using assms(3) by (auto simp: long_lived_def split: option.splits)
  have h0: "holds r (ss_db st)" using assms(1,2) by (auto simp: holds_def distinct_map inj_on_def)
  obtain l1 db1 where l1: "list_certificates (se_expiry_of env) (ss_db st) = (l1, db1)" by fastforce
  note h1 = list_certificates_holds [OF h0 e l1]
  let ?st2 = "\<lambda>rows. renew_expiring env config rows (st\<lparr>ss_db := db1\<rparr>)"
  have h2: "holds r (ss_db (?st2 rows))" if "l1 = Some rows" for rows
    using h1 that by (intro drops_hold [OF _ _ assms(3)]) simp_all
  have load: "holds r (ss_db s) \<Longrightarrow> holds r (ss_db (load_db_certs_into_store env s))" for s
    by (auto simp: load_db_certs_into_store_def get_all_certificates_for_store_def statement_def holds_def split: bool.split)
  have "holds r (ss_db st') \<and> (\<forall>t \<in> set tasks. \<not> cert_row_covers_tls_hosts (cr_hosts r) (tc_hosts (tk_config t)))"
  proof (cases "l1 = None \<or> acme_tls_count config = 0")
    case True
    with assms(4) h1 show ?thesis by (auto simp: spawn_auto_ssl_for_config_def l1 split: option.splits)
  next
    case False
    then obtain rows where rows: "l1 = Some rows" and n: "acme_tls_count config \<noteq> 0" by auto
    obtain l2 db2 where l2: "list_certificates (se_expiry_of env) (ss_db (?st2 rows)) = (l2, db2)" by fastforce
    note h3 = list_certificates_holds [OF h2 [OF rows] e l2]
    show ?thesis
    proof (cases l2)
      case None
      with assms(4) h3 show ?thesis by (auto simp: spawn_auto_ssl_for_config_def l1 rows n l2)
    next
      case (Some rows2)
      obtain ts s where s: "sweep_entries env config (cf_tls config) rows2 (?st2 rows\<lparr>ss_db := db2\<rparr>) = (ts, s)" by fastforce
      from sweep_entries_holds [OF assms(3) _ _ s] h3 Some load [of s] assms(4) show ?thesis
        by (auto simp: spawn_auto_ssl_for_config_def l1 rows n l2 Some s)
    qed
  qed
  then show ?thesis by (simp add: holds_def)
qed

text \<open>A sample: one ACME certificate for a wildcard, and a configuration that adds a name under it.\<close>
definition demo_cert :: cert_record where
  "demo_cert = \<lparr>cr_id = ''c'', cr_hosts = [''*.ex.org''], cr_source_type = ''acme'', cr_created_at = ''t'', cr_expires_at = Some ''d'',
     ct_cert_pem = [], ct_key_pem = []\<rparr>"

definition demo_ssl_env :: "int \<Rightarrow> ssl_env" where
  "demo_ssl_env now = \<lparr>se_now = now, se_parse_date = (\<lambda>_. Some (86400 * 1000000000 * 90)), se_expiry_of = (\<lambda>_. None),
     se_valid_pem = (\<lambda>_ _. True), se_fs_write = (\<lambda>_ _. True), se_valid_pair = (\<lambda>_ _. True), se_host_check = (\<lambda>_ _. True),
     se_certs_dir = ''/c''\<rparr>"

definition demo_ssl_state :: ssl_state where
  "demo_ssl_state = \<lparr>ss_db = \<lparr>cd_rows = [demo_cert], cd_tick = 0, cd_up = (\<lambda>_. True)\<rparr>, ss_store = cert_store_new, ss_inflight = []\<rparr>"

lemma demo_days: "num_days (86400 * 1000000000 * 90 - 0) = 90" "num_days (86400 * 1000000000 * 90 - 86400 * 1000000000 * 61) = 29"
  by (simp_all add: num_days_def)

theorem valid_certificate_kept_witness:
  "\<exists>tasks st'. spawn_auto_ssl_for_config (demo_ssl_env 0) config_default demo_ssl_state = (tasks, st') \<and> demo_cert \<in> set (cd_rows (ss_db st'))"
proof -
  obtain tasks st' where s: "spawn_auto_ssl_for_config (demo_ssl_env 0) config_default demo_ssl_state = (tasks, st')" by fastforce
  have "long_lived (demo_ssl_env 0) (CertificateRow.truncate demo_cert)"
    using demo_days(1) by (simp add: long_lived_def demo_cert_def demo_ssl_env_def RENEW_DAYS_def run)
  from valid_certificate_kept [OF _ _ this s] s show ?thesis by (simp add: demo_ssl_state_def)
qed

section \<open>A certificate that is due is withdrawn first\<close>

lemma list_certificates_up:
  "cd_up db (cd_tick db) \<Longrightarrow> list_certificates f db =
     (Some (map CertificateRow.truncate (sort_key cr_created_at (map (backfill f) (cd_rows db)))),
      db\<lparr>cd_tick := Suc (cd_tick db), cd_rows := map (backfill f) (cd_rows db)\<rparr>)"
  by (simp add: list_certificates_def statement_def Let_def)

lemma sweep_entry_empty:
  assumes "cd_rows (ss_db st) = []" and "\<forall>n. cd_up (ss_db st) n" and "sweep_entry env config tls [] st = (rows', task, st')"
  shows "rows' = [] \<and> cd_rows (ss_db st') = [] \<and> (\<forall>n. cd_up (ss_db st') n) \<and> ss_store st' = ss_store st"
  using assms
  by (cases "tc_source tls")
    (auto simp: sweep_entry_def drop_uploaded_def reuse_valid_def find_acme_cert_for_hosts_def drop_stale_def list_certificates_up
      try_spawn_def Let_def split: if_splits)

lemma sweep_entries_empty:
  "cd_rows (ss_db st) = [] \<Longrightarrow> \<forall>n. cd_up (ss_db st) n \<Longrightarrow> sweep_entries env config entries [] st = (tasks, st') \<Longrightarrow>
     cd_rows (ss_db st') = [] \<and> (\<forall>n. cd_up (ss_db st') n) \<and> ss_store st' = ss_store st"
proof (induction entries arbitrary: st tasks)
  case (Cons tls entries)
  obtain rows1 task st1 where e: "sweep_entry env config tls [] st = (rows1, task, st1)" using prod_cases3 by blast
  note * = sweep_entry_empty [OF Cons.prems(1,2) e]
  with Cons.prems(3) e obtain tasks1 where "sweep_entries env config entries [] st1 = (tasks1, st')"
    by (auto split: prod.splits)
  with Cons.IH [of st1] * show ?case by simp
qed simp

lemma remove_all_hosts:
  "set (map fst m) \<subseteq> (cert_normalize_host \<circ> trim) ` set hosts \<Longrightarrow>
     fold (\<lambda>host. AList.delete (cert_normalize_host (trim host))) hosts m = []"
proof (induction hosts arbitrary: m)
  case (Cons host hosts)
  have "set (map fst (AList.delete (cert_normalize_host (trim host)) m)) \<subseteq> (cert_normalize_host \<circ> trim) ` set hosts"
    using Cons.prems by (auto simp: AList.delete_eq)
  with Cons.IH show ?case by simp
qed simp

lemma no_cert_empty: "st_by_host store = [] \<Longrightarrow> \<not> has_cert_for_host store host"
  by (simp add: has_cert_for_host_def lookup_sni_def best_scan_def Let_def)

text \<open>C27: Renewal withdraws first.  When the only certificate in the table is an ACME certificate that is
  due within thirty days and belongs to an ACME entry of the configuration, a sweep deletes it from
  the table and from the store before any order for its successor has run.  From then on no host has
  a certificate, although the old one may be valid for another thirty days, and an order that fails
  leaves it at that.\<close>
theorem renewal_withdraws_certificate:
  assumes "cd_rows (ss_db st) = [r]" and "\<forall>n. cd_up (ss_db st) n" and "cr_expires_at r \<noteq> None"
    and "due_for_renewal env config (CertificateRow.truncate r)" and "acme_tls_count config \<noteq> 0"
    and "set (map fst (st_by_host (ss_store st))) \<subseteq> (cert_normalize_host \<circ> trim) ` set (cr_hosts r)"
    and "spawn_auto_ssl_for_config env config st = (tasks, st')"
  shows "cd_rows (ss_db st') = [] \<and> \<not> has_cert_for_host (ss_store st') host \<and>
    \<not> has_cert_for_host (ss_store (finish_obtain env uuid now task (Inl e) st')) host"
proof -
  have b: "backfill (se_expiry_of env) r = r" using assms(3) by (auto simp: backfill_def)
  let ?st1 = "st\<lparr>ss_db := (ss_db st)\<lparr>cd_tick := Suc (cd_tick (ss_db st))\<rparr>\<rparr>"
  have l1: "list_certificates (se_expiry_of env) (ss_db st) = (Some [CertificateRow.truncate r], ss_db ?st1)"
    using assms(1,2) b by (simp add: list_certificates_up)
  let ?st2 = "renew_expiring env config [CertificateRow.truncate r] ?st1"
  have st2: "cd_rows (ss_db ?st2) = []" "\<forall>n. cd_up (ss_db ?st2) n" "st_by_host (ss_store ?st2) = []"
    using assms(1,2,4) remove_all_hosts [OF assms(6)]
    by (simp_all add: renew_expiring_def drop_row_def delete_certificate_def statement_def remove_for_hosts_def)
  then obtain db2 where l2: "list_certificates (se_expiry_of env) (ss_db ?st2) = (Some [], db2)"
    and db2: "cd_rows db2 = []" "\<forall>n. cd_up db2 n" by (simp add: list_certificates_up)
  obtain ts st3 where s: "sweep_entries env config (cf_tls config) [] (?st2\<lparr>ss_db := db2\<rparr>) = (ts, st3)" by fastforce
  have st3: "cd_rows (ss_db st3) = []" "\<forall>n. cd_up (ss_db st3) n" "ss_store st3 = ss_store ?st2"
    using sweep_entries_empty [OF _ _ s] db2 by simp_all
  have st': "st' = load_db_certs_into_store env st3"
    using assms(5,7) by (simp add: spawn_auto_ssl_for_config_def l1 l2 s Let_def)
  then have "cd_rows (ss_db st') = []" "st_by_host (ss_store st') = []"
    using st2 st3 by (simp_all add: load_db_certs_into_store_def get_all_certificates_for_store_def statement_def)
  then show ?thesis by (simp add: no_cert_empty finish_obtain_def)
qed

definition demo_ssl_config :: Config where
  "demo_ssl_config = config_default\<lparr>cf_tls := [\<lparr>tc_hosts = [''*.ex.org''], tc_source = Acme None ''dns01'' None None None, tc_expires_at = None\<rparr>]\<rparr>"

theorem renewal_withdraws_certificate_witness:
  "\<exists>tasks st'. spawn_auto_ssl_for_config (demo_ssl_env (86400 * 1000000000 * 61)) demo_ssl_config demo_ssl_state = (tasks, st') \<and>
     cd_rows (ss_db st') = [] \<and> \<not> has_cert_for_host (ss_store st') ''a.ex.org''"
proof -
  let ?env = "demo_ssl_env (86400 * 1000000000 * 61)"
  obtain tasks st' where s: "spawn_auto_ssl_for_config ?env demo_ssl_config demo_ssl_state = (tasks, st')" by fastforce
  have "due_for_renewal ?env demo_ssl_config (CertificateRow.truncate demo_cert)"
    using demo_days(2) by (simp add: due_for_renewal_def cert_expires_within_days_def demo_cert_def demo_ssl_env_def
        demo_ssl_config_def RENEW_DAYS_def is_acme_def ssl_hosts_def run)
  moreover have "acme_tls_count demo_ssl_config \<noteq> 0" by (simp add: acme_tls_count_def demo_ssl_config_def is_acme_def)
  ultimately show ?thesis
    using renewal_withdraws_certificate [OF _ _ _ _ _ _ s, of demo_cert "''a.ex.org''"] s
    by (simp add: demo_ssl_state_def demo_cert_def cert_store_new_def)
qed

end
