(* ===== verification/H3_Server.thy ===== *)
theory H3_Server
  imports Gateway_Safety
begin

text \<open>
  The HTTP/3 server, from src/src/h3/quinn_server.rs: one request on a QUIC stream, from the probe
  paths to the response relayed from the upstream.  It applies the same route policies as the
  pipeline of the theory Gateway, in its own order and with its own address for the limits.  The
  environment, the clock readings and the shared tables are those of the theory Gateway; reading
  the stream and the HTTP client are parameters (the chunks of the body, the answer of the
  upstream).
\<close>

section \<open>Helpers\<close>

definition is_benign_h3_disconnect :: "string \<Rightarrow> bool" where
  "is_benign_h3_disconnect err =
     (let msg = to_ascii_lowercase err in
      contains_str msg ''aborted by peer'' \<or> contains_str msg ''closed abruptly'' \<or> contains_str msg ''connection reset'' \<or>
      contains_str msg ''timed out'' \<or> contains_str msg ''h3_no_error'' \<or> contains_str msg ''h3_cancel'')"

definition env_u64 :: "(string \<Rightarrow> string option) \<Rightarrow> string \<Rightarrow> u64 \<Rightarrow> u64" where
  "env_u64 var name dflt = get_or dflt (filter_opt (\<lambda>n. 0 < n) (Option.bind (var name) (\<lambda>v. parse_word (trim v))))"

record QuinnTransportConfig =
  qt_idle_timeout_secs :: u64
  qt_keepalive_secs :: u64
  qt_max_streams_bidi :: u32
  qt_stream_receive_window :: u32
  qt_conn_receive_window :: u32
  qt_udp_buffer_bytes :: nat

definition effective_transport_config :: "(string \<Rightarrow> string option) \<Rightarrow> QuinnTransportConfig" where
  "effective_transport_config var =
     \<lparr>qt_idle_timeout_secs = env_u64 var ''PERTISK_HTTP3_IDLE_TIMEOUT_SECS'' 300,
      qt_keepalive_secs = env_u64 var ''PERTISK_HTTP3_KEEPALIVE_SECS'' 30,
      qt_max_streams_bidi = ucast (env_u64 var ''PERTISK_HTTP3_MAX_STREAMS'' 1024),
      qt_stream_receive_window = ucast (env_u64 var ''PERTISK_HTTP3_STREAM_RECEIVE_WINDOW'' (8 * 1024 * 1024)),
      qt_conn_receive_window = ucast (env_u64 var ''PERTISK_HTTP3_CONN_RECEIVE_WINDOW'' (64 * 1024 * 1024)),
      qt_udp_buffer_bytes = 7 * 1024 * 1024\<rparr>"

definition h3_request_host :: "('h, 'm) env \<Rightarrow> 'h RequestHeader \<Rightarrow> string" where
  "h3_request_host env req =
     (case filter_opt (\<lambda>h. h \<noteq> []) (map_option trim (hm_get (ev_headers env) (rq_headers req) ''host'')) of
        Some host \<Rightarrow> before CHR '':'' host
      | None \<Rightarrow> get_or [] (ur_authority_host (rq_uri req)))"

definition plain_response :: "bool \<Rightarrow> u16 \<Rightarrow> bytes \<Rightarrow> Response" where
  "plain_response ingress status body =
     \<lparr>rs_status = status,
      rs_headers = [(''content-type'', ''text/plain''), (''server'', ''pertisk-proxy/h3''), (''x-app-name'', app_name ingress),
                    (''content-length'', show_nat (length body))],
      rs_body = body\<rparr>"

definition set_header :: "string \<Rightarrow> string \<Rightarrow> Response \<Rightarrow> Response" where
  "set_header n v r = r\<lparr>rs_headers := AList.update n v (rs_headers r)\<rparr>"

definition h3_query_param :: "string \<Rightarrow> string \<Rightarrow> string option" where
  "h3_query_param query key = map_option (replace_char CHR ''+'' CHR '' '') (query_param query key)"

definition record_h3_request :: "('h, 'm) env \<Rightarrow> string \<Rightarrow> u64 \<Rightarrow> u64 \<Rightarrow> bool \<Rightarrow> bool \<Rightarrow> ProxyMetrics \<Rightarrow> ProxyMetrics" where
  "record_h3_request env host received sent upstream_error is_grpc m =
     (if host = [] then m
      else
        let m1 = inc_site_protocol_requests (ev_lower env) host HTTP_3 (inc_https_requests (inc_h3_requests m));
            m2 = (if is_grpc then inc_grpc_requests m1 else m1);
            m3 = (if upstream_error then inc_upstream_errors m2 else m2)
        in add_bytes_sent sent (add_bytes_received received m3))"

section \<open>The request stream\<close>

text \<open>
  A stream gives the parts of the request body up to its end, or an error, and accepts a response
  or fails.  A handler that ends with an error of the stream gives that error; otherwise it gives
  the reply that was sent.
\<close>

record 'h upstream_answer =
  ua_status :: u16
  ua_headers :: 'h
  ua_body :: "bytes option"

datatype 'h h3_reply = Built Response | Relayed u16 'h bytes

record 'h h3_stream =
  hs_recv :: "string + bytes list"
  hs_send :: "'h h3_reply \<Rightarrow> string option"

type_synonym 'h h3_result = "string + 'h h3_reply"

definition send_h3_response :: "'h h3_stream \<Rightarrow> 'h h3_reply \<Rightarrow> 'h h3_result" where
  "send_h3_response stream reply = (case hs_send stream reply of Some e \<Rightarrow> Inl e | None \<Rightarrow> Inr reply)"

definition read_h3_request_body :: "'h h3_stream \<Rightarrow> bool \<Rightarrow> string + bytes" where
  "read_h3_request_body stream store_body =
     (case hs_recv stream of
        Inl e \<Rightarrow> Inl e
      | Inr chunks \<Rightarrow> Inr (if store_body then concat chunks else []))"

definition drain_and_send_h3_response :: "'h h3_stream \<Rightarrow> 'h h3_reply \<Rightarrow> 'h h3_result" where
  "drain_and_send_h3_response stream reply =
     (case read_h3_request_body stream False of
        Inl e \<Rightarrow> Inl e
      | Inr _ \<Rightarrow> send_h3_response stream reply)"

definition health_reply :: "('h, 'm) env \<Rightarrow> 'h RequestHeader \<Rightarrow> Response" where
  "health_reply env req =
     (let json = is_json_health_path (ur_path (rq_uri req));
          body = (if rq_method req = ''HEAD'' then [] else as_bytes (if json then API_HEALTH_BODY else ''ok''))
      in \<lparr>rs_status = 200,
          rs_headers = [(''content-type'', if json then ''application/json'' else ''text/plain''),
             (''server'', ''pertisk-proxy/h3''), (''x-app-name'', app_name (ev_ingress env))] @
             (if body \<noteq> [] then [(''content-length'', show_nat (length body))] else []),
          rs_body = body\<rparr>)"

definition try_serve_health :: "('h, 'm) env \<Rightarrow> 'h RequestHeader \<Rightarrow> 'h h3_stream \<Rightarrow> gw_state \<Rightarrow>
    'h h3_result option \<times> gw_state" where
  "try_serve_health env req stream st =
     (if rq_method req \<notin> {''GET'', ''HEAD''} then (None, st)
      else if \<not> is_health_path (ur_path (rq_uri req)) then (None, st)
      else
        case drain_and_send_h3_response stream (Built (health_reply env req)) of
          Inl e \<Rightarrow> (Some (Inl e), st)
        | Inr r \<Rightarrow>
            (Some (Inr r),
             with_metrics (record_h3_request env (h3_request_host env req) 0 (of_nat (length (rs_body (health_reply env req)))) False False) st))"

definition h3_client_ip :: "('h, 'm) env \<Rightarrow> string \<Rightarrow> 'h RequestHeader \<Rightarrow> string option" where
  "h3_client_ip env remote req =
     resolve_client_ip (Some remote) (hm_get (ev_headers env) (rq_headers req) ''x-forwarded-for'')
       (hm_get (ev_headers env) (rq_headers req) ''x-real-ip'')"

section \<open>Route policies\<close>

type_synonym h3_stage = "gw_state \<Rightarrow> Response option \<times> gw_state"

fun run_h3 :: "h3_stage list \<Rightarrow> h3_stage" where
  "run_h3 [] st = (None, st)"
| "run_h3 (f # fs) st = (case f st of (Some r, st') \<Rightarrow> (Some r, st') | (None, st') \<Rightarrow> run_h3 fs st')"

definition h3_x4xx :: "('h, 'm) env \<Rightarrow> moment \<Rightarrow> string \<Rightarrow> string \<Rightarrow> EdgePolicy \<Rightarrow> h3_stage" where
  "h3_x4xx env t remote host edge st =
     (if 0 < ep_x4xx_limit_rps edge \<and> x4xx_blocked (mo_x4xx t) remote host (ep_x4xx_limit_rps edge) (gs_windows st)
      then (Some (plain_response (ev_ingress env) 429 (as_bytes ''too many errors'')), st)
      else (None, st))"

definition h3_rate :: "('h, 'm) env \<Rightarrow> moment \<Rightarrow> string \<Rightarrow> string \<Rightarrow> EdgePolicy \<Rightarrow> h3_stage" where
  "h3_rate env t remote host edge st =
     (if 0 < ep_rate_limit_rps edge then
        (case rate_limited (mo_rate t) (''rps|'' @ remote @ ''|'' @ host) (ep_rate_limit_rps edge) (gs_windows st) of
           (limited, w) \<Rightarrow>
             (if limited then Some (plain_response (ev_ingress env) 429 (as_bytes ''too many requests'')) else None,
              st\<lparr>gs_windows := w\<rparr>))
      else (None, st))"

definition h3_auth_ok :: "('h, 'm) env \<Rightarrow> moment \<Rightarrow> 'h RequestHeader \<Rightarrow> RouteAuth \<Rightarrow> bool" where
  "h3_auth_ok env t req auth =
     (let get = hm_get (ev_headers env) (rq_headers req) in
      case auth of
        Forward url \<Rightarrow> forward_auth_ok (ev_send env) url (h3_request_host env req) (ur_path (rq_uri req)) get
      | other \<Rightarrow> auth_header_ok (ev_hmac env) (mo_auth t) other get (get_or [] (ur_query (rq_uri req))))"

definition h3_auth :: "('h, 'm) env \<Rightarrow> moment \<Rightarrow> 'h RequestHeader \<Rightarrow> EdgePolicy \<Rightarrow> h3_stage" where
  "h3_auth env t req edge st =
     (case ep_auth edge of
        None \<Rightarrow> (None, st)
      | Some auth \<Rightarrow>
          (if h3_auth_ok env t req auth then None
           else Some (plain_response (ev_ingress env) 401 (as_bytes ''unauthorized'')), st))"

definition h3_file :: "('h, 'm) env \<Rightarrow> 'h RequestHeader \<Rightarrow> string option \<Rightarrow> h3_stage" where
  "h3_file env req file_root st =
     (case file_root of
        None \<Rightarrow> (None, st)
      | Some root \<Rightarrow>
          (case Option.bind (safe_file root (ur_path (rq_uri req))) (\<lambda>p. map_option (\<lambda>body. (p, body)) (ev_read_file env p)) of
             Some ((_, parts), body) \<Rightarrow>
               (Some (set_header ''content-type''
                  (let mime = guess_mime (join ''/'' parts) in if ev_valid_value env mime then mime else ''application/octet-stream'')
                  (plain_response (ev_ingress env) 200 body)), st)
           | None \<Rightarrow> (Some (plain_response (ev_ingress env) 404 (as_bytes ''not found'')), st)))"

definition h3_blocked :: "('h, 'm) env \<Rightarrow> string \<Rightarrow> Response" where
  "h3_blocked env reason =
     (let r = plain_response (ev_ingress env) 403 (as_bytes ''forbidden'')
      in if ev_valid_value env reason then set_header ''x-pertisk-block'' reason r else r)"

definition h3_geoip :: "('h, 'm) env \<Rightarrow> string \<Rightarrow> 'h RequestHeader \<Rightarrow> GeoIpPolicy \<Rightarrow> h3_stage" where
  "h3_geoip env remote req geoip st =
     (if \<not> geoip_is_active geoip then (None, st)
      else
        let d = evaluate_ip (ev_mm_country env) (ev_mm_asn env) (ev_engine env) geoip (h3_client_ip env remote req) in
        if d = Allow then (None, st)
        else (Some (h3_blocked env (geoip_reason d)), with_metrics inc_geoip_blocked st))"

definition h3_challenge :: "('h, 'm) env \<Rightarrow> moment \<Rightarrow> u16 \<Rightarrow> string \<Rightarrow> string \<Rightarrow> Response" where
  "h3_challenge env t status next_path reason =
     set_header ''content-type'' ''text/html; charset=utf-8''
       (plain_response (ev_ingress env) status
         (as_bytes (ev_render env (challenge_page (ev_mac env) (mo_challenge t) (mo_a t) (mo_b t) next_path reason))))"

definition h3_redirect :: "('h, 'm) env \<Rightarrow> string \<Rightarrow> string \<Rightarrow> Response" where
  "h3_redirect env location set_cookie =
     (let r0 = plain_response (ev_ingress env) 302 [];
          r1 = (if ev_valid_value env location then set_header ''location'' location r0 else r0)
      in if ev_valid_value env set_cookie then set_header ''set-cookie'' set_cookie r1 else r1)"

definition h3_captcha :: "('h, 'm) env \<Rightarrow> moment \<Rightarrow> string \<Rightarrow> 'h RequestHeader \<Rightarrow> SecurityPolicy \<Rightarrow> h3_stage" where
  "h3_captcha env t remote req security st =
     (let path = ur_path (rq_uri req); query = get_or [] (ur_query (rq_uri req)) in
      if \<not> is_captcha_path path then (None, st)
      else if path = CAPTCHA_VERIFY_PATH then
        let next_path = h3_query_param query ''next'' in
        (case verify_and_pass_cookie (ev_mac env) (mo_verify t) (h3_query_param query ''token'') (h3_query_param query ''answer'')
                next_path (h3_client_ip env remote req) (captcha_ttl security) of
           Inr (set_cookie, location) \<Rightarrow> (Some (h3_redirect env location set_cookie), with_metrics inc_captcha_passed st)
         | Inl _ \<Rightarrow> (Some (h3_challenge env t 403 (get_or ''/'' next_path) ''retry''), with_metrics inc_captcha_failed st))
      else (Some (h3_challenge env t 200 (get_or ''/'' (h3_query_param query ''next'')) ''check''), st))"

definition h3_view :: "('h, 'm) env \<Rightarrow> string \<Rightarrow> 'h RequestHeader \<Rightarrow> RequestView" where
  "h3_view env remote req =
     (let get = hm_get (ev_headers env) (rq_headers req) in
      \<lparr>rv_method = rq_method req, rv_path = ur_path (rq_uri req), rv_query = get_or [] (ur_query (rq_uri req)),
       rv_user_agent = get ''user-agent'', rv_accept = get ''accept'', rv_accept_language = get ''accept-language'',
       rv_cookie = get ''cookie'', rv_client_ip = h3_client_ip env remote req\<rparr>)"

definition h3_security :: "('h, 'm) env \<Rightarrow> moment \<Rightarrow> string \<Rightarrow> 'h RequestHeader \<Rightarrow> SecurityPolicy \<Rightarrow> h3_stage" where
  "h3_security env t remote req security st =
     (if \<not> security_is_active security then (None, st)
      else
        let (d, rates) = security_evaluate (ev_mac env) (mo_bot t) (mo_cookie t) security (h3_view env remote req) (gs_rates st);
            st1 = st\<lparr>gs_rates := rates\<rparr>;
            path = ur_path (rq_uri req); query = get_or [] (ur_query (rq_uri req))
        in case sd_action d of
             SecAllow \<Rightarrow> (None, st1)
           | SecLog \<Rightarrow> (None, with_metrics inc_waf_logged st1)
           | SecChallenge \<Rightarrow>
               (Some (let r = h3_challenge env t 403 (if query = [] then path else path @ ''?'' @ query) (sd_reason d)
                      in if ev_valid_value env (sd_reason d) then set_header ''x-pertisk-block'' (sd_reason d) r else r),
                if starts_with (sd_reason d) ''bot'' then with_metrics inc_bot_challenged st1 else st1)
           | SecBlock \<Rightarrow>
               (Some (h3_blocked env (sd_reason d)),
                if starts_with (sd_reason d) ''waf'' then with_metrics inc_waf_blocked st1
                else if starts_with (sd_reason d) ''bot'' then with_metrics inc_bot_blocked st1 else st1))"

definition h3_policies :: "('h, 'm) env \<Rightarrow> moment \<Rightarrow> string \<Rightarrow> 'h RequestHeader \<Rightarrow> MiddlewareAction \<Rightarrow> h3_stage" where
  "h3_policies env t remote req mw =
     run_h3 [h3_x4xx env t remote (h3_request_host env req) (ma_edge mw), h3_rate env t remote (h3_request_host env req) (ma_edge mw),
       h3_auth env t req (ma_edge mw), h3_file env req (ma_file_root mw), h3_geoip env remote req (ma_geoip mw),
       h3_captcha env t remote req (ma_security mw), h3_security env t remote req (ma_security mw)]"

definition LONG_LIVED_BODY :: string where
  "LONG_LIVED_BODY = ''long-lived stream requires HTTP/2 (Alt-Svc: clear)''"

definition h3_admit :: "('h, 'm) env \<Rightarrow> moment \<Rightarrow> RouteTable \<Rightarrow> string \<Rightarrow> 'h RequestHeader \<Rightarrow> gw_state \<Rightarrow>
    (Response + ForwardPlan) \<times> gw_state" where
  "h3_admit env t table remote req st =
     (let host = h3_request_host env req; reply = (\<lambda>status s. Inl (plain_response (ev_ingress env) status (as_bytes s))) in
      if is_h3_incompatible_request (ev_headers env) (rq_headers req) (rq_method req) (ur_path (rq_uri req))
      then (reply 421 LONG_LIVED_BODY, st)
      else if deny_enabled (ev_var env ''PERTISK_DEFAULT_DENY'') \<and> host \<noteq> [] \<and> \<not> has_host table host
      then (reply 404 ''unknown host'', st)
      else
        (case resolve_forward (ev_tcp env) (mo_probe_start t) (mo_probe_end t) table host (uri_path_q (rq_uri req)) (gs_forward st) of
           (Inl _, fs) \<Rightarrow> (reply 404 ''no route'', st\<lparr>gs_forward := fs\<rparr>)
         | (Inr plan, fs) \<Rightarrow>
             (case h3_policies env t remote req (fp_middleware plan) (st\<lparr>gs_forward := fs\<rparr>) of
                (Some r, st1) \<Rightarrow> (Inl r, st1)
              | (None, st1) \<Rightarrow> (Inr plan, st1))))"

section \<open>Forwarding\<close>

record h3_upstream =
  hu_method :: string
  hu_url :: string
  hu_headers :: "(string \<times> string) list"
  hu_body :: bytes

definition registry_dropped :: "string \<Rightarrow> bool" where
  "registry_dropped name \<longleftrightarrow> name = ''cookie'' \<or>
     list_ex (eq_ignore_ascii_case name) [''x-forwarded-host'', ''x-forwarded-port'', ''x-forwarded-proto'', ''x-forwarded-ssl'',
       ''x-real-ip'', ''x-forwarded-for'']"

definition expects_body :: "('h, 'm) env \<Rightarrow> 'h RequestHeader \<Rightarrow> bool" where
  "expects_body env req \<longleftrightarrow>
     (case parse_len (hm_get (ev_headers env) (rq_headers req) ''content-length'') of Some n \<Rightarrow> 0 < n | None \<Rightarrow> False) \<or>
     rq_method req \<in> {''POST'', ''PUT'', ''PATCH''}"

definition h3_upstream_headers :: "('h, 'm) env \<Rightarrow> ('h \<Rightarrow> (string \<times> string) list) \<Rightarrow> string \<Rightarrow> 'h RequestHeader \<Rightarrow>
    MiddlewareAction \<Rightarrow> (string \<times> string) list" where
  "h3_upstream_headers env iter remote req mw =
     (let path = ur_path (rq_uri req); host = h3_request_host env req; registry = is_oci_registry_path path in
      filter (\<lambda>(n, _). n \<noteq> ''host'' \<and> \<not> (registry \<and> registry_dropped n)) (iter (rq_headers req)) @
      (if registry then registry_upstream_header_pairs host (rq_method req) path None True else []) @
      ma_request_headers mw @
      (if registry then []
       else case h3_client_ip env remote req of
              Some ip \<Rightarrow> forwarded_client_ip_header_pairs ip (hm_get (ev_headers env) (rq_headers req) ''x-forwarded-for'')
            | None \<Rightarrow> []) @
      [(''host'', host)])"

definition h3_response_headers :: "('h, 'm) env \<Rightarrow> 'h RequestHeader \<Rightarrow> MiddlewareAction \<Rightarrow> 'h \<Rightarrow> bytes \<Rightarrow> 'h" where
  "h3_response_headers env req mw headers body =
     (let H = ev_headers env;
          h1 = remove_headers H [''server'', ''transfer-encoding''] headers;
          h2 = insert_headers H [(''content-length'', show_nat (length body)), (''server'', ''pertisk-proxy/h3''),
                 (''x-app-name'', app_name (ev_ingress env))] h1;
          h3 = (if is_oci_registry_path (ur_path (rq_uri req)) then
                  let x = hm_insert H (hm_remove H h2 ''set-cookie'') ''Alt-Svc'' ''clear''
                  in case Option.bind (hm_get H x ''location'') (\<lambda>loc. rewrite_registry_location_value loc True) of
                       Some https \<Rightarrow> if ev_valid_value env https then hm_insert H x ''location'' https else x
                     | None \<Rightarrow> x
                else h2)
      in insert_headers H (filter (\<lambda>(n, v). ev_valid_name env n \<and> ev_valid_value env v) (ma_response_headers mw)) h3)"

type_synonym 'h http_client = "h3_upstream \<Rightarrow> string + 'h upstream_answer"

definition h3_forward :: "('h, 'm) env \<Rightarrow> ('h \<Rightarrow> (string \<times> string) list) \<Rightarrow> 'h http_client \<Rightarrow> string \<Rightarrow> 'h RequestHeader \<Rightarrow>
    'h h3_stream \<Rightarrow> ForwardPlan \<Rightarrow> gw_state \<Rightarrow> 'h h3_result \<times> gw_state" where
  "h3_forward env iter client remote req stream plan st =
     (case read_h3_request_body stream (expects_body env req) of
        Inl e \<Rightarrow> (Inl e, st)
      | Inr body \<Rightarrow>
          let host = h3_request_host env req; is_grpc = is_grpc_request (ev_headers env) (rq_headers req);
              declared = get_or 0 (parse_len (hm_get (ev_headers env) (rq_headers req) ''content-length''));
              received = saturating_add declared (of_nat (length body));
              finish_with = (\<lambda>reply sent failed.
                (case send_h3_response stream reply of
                   Inl e \<Rightarrow> (Inl e, st)
                 | Inr r \<Rightarrow> (Inr r, with_metrics (record_h3_request env host received sent failed is_grpc) st)))
          in case client \<lparr>hu_method = rq_method req, hu_url = fp_upstream_url plan,
                 hu_headers = h3_upstream_headers env iter remote req (fp_middleware plan), hu_body = body\<rparr> of
               Inl msg \<Rightarrow> finish_with (Built (plain_response (ev_ingress env) 502 (as_bytes msg))) 0 True
             | Inr a \<Rightarrow>
                 let answer = get_or [] (ua_body a)
                 in finish_with (Relayed (ua_status a) (h3_response_headers env req (fp_middleware plan) (ua_headers a) answer) answer)
                      (of_nat (length answer)) False)"

definition handle_request_inner :: "('h, 'm) env \<Rightarrow> moment \<Rightarrow> ('h \<Rightarrow> (string \<times> string) list) \<Rightarrow> 'h http_client \<Rightarrow>
    RouteTable \<Rightarrow> string \<Rightarrow> 'h RequestHeader \<Rightarrow> 'h h3_stream \<Rightarrow> gw_state \<Rightarrow> 'h h3_result \<times> gw_state" where
  "handle_request_inner env t iter client table remote req stream st =
     (case try_serve_health env req stream st of
        (Some r, st') \<Rightarrow> (r, st')
      | (None, st') \<Rightarrow>
          (case h3_admit env t table remote req st' of
             (Inl r, st1) \<Rightarrow> (drain_and_send_h3_response stream (Built r), st1)
           | (Inr plan, st1) \<Rightarrow> h3_forward env iter client remote req stream plan st1))"

definition handle_request :: "('h, 'm) env \<Rightarrow> moment \<Rightarrow> ('h \<Rightarrow> (string \<times> string) list) \<Rightarrow> 'h http_client \<Rightarrow>
    RouteTable \<Rightarrow> string \<Rightarrow> 'h RequestHeader \<Rightarrow> 'h h3_stream \<Rightarrow> gw_state \<Rightarrow> 'h h3_result \<times> gw_state" where
  "handle_request env t iter client table remote req stream st =
     (case handle_request_inner env t iter client table remote req stream (with_metrics inc_active_connections st) of
        (result, st') \<Rightarrow> (result, with_metrics dec_active_connections st'))"

end
