(* ===== verification/H3_Safety.thy ===== *)
theory H3_Safety
  imports H3_Server
begin

text \<open>
  What the HTTP/3 server guarantees: the upstream is only consulted for a request that has passed
  every policy of its route, the gauge of active connections is balanced on every path including
  the failures of the stream, and what the transport settings read from the environment can be.
\<close>

section \<open>Stages that pass\<close>

lemma run_h3_None:
  "run_h3 (f # fs) st = (None, st') \<longleftrightarrow> (\<exists>s. f st = (None, s) \<and> run_h3 fs s = (None, st'))"
  by (cases "f st") (auto split: option.splits)

definition h3_auth_passed :: "('h, 'm) env \<Rightarrow> moment \<Rightarrow> 'h RequestHeader \<Rightarrow> EdgePolicy \<Rightarrow> bool" where
  "h3_auth_passed env t req edge = (case ep_auth edge of None \<Rightarrow> True | Some auth \<Rightarrow> h3_auth_ok env t req auth)"

definition h3_geoip_decision :: "('h, 'm) env \<Rightarrow> string \<Rightarrow> 'h RequestHeader \<Rightarrow> GeoIpPolicy \<Rightarrow> Decision" where
  "h3_geoip_decision env remote req geoip =
     (if geoip_is_active geoip
      then evaluate_ip (ev_mm_country env) (ev_mm_asn env) (ev_engine env) geoip (h3_client_ip env remote req) else Allow)"

definition h3_security_verdict :: "('h, 'm) env \<Rightarrow> moment \<Rightarrow> string \<Rightarrow> 'h RequestHeader \<Rightarrow> SecurityPolicy \<Rightarrow> gw_state \<Rightarrow> SecurityAction" where
  "h3_security_verdict env t remote req security st =
     (if security_is_active security
      then sd_action (fst (security_evaluate (ev_mac env) (mo_bot t) (mo_cookie t) security (h3_view env remote req) (gs_rates st)))
      else SecAllow)"

lemma h3_x4xx_pass:
  "h3_x4xx env t remote host edge st = (None, st') \<Longrightarrow> st' = st \<and>
     \<not> x4xx_blocked (mo_x4xx t) remote host (ep_x4xx_limit_rps edge) (gs_windows st)"
  by (auto simp: h3_x4xx_def x4xx_blocked_def word_gt_0 split: if_splits)

lemma h3_rate_eq:
  "h3_rate env t remote host edge st =
     (case rate_limited (mo_rate t) (''rps|'' @ remote @ ''|'' @ host) (ep_rate_limit_rps edge) (gs_windows st) of
        (limited, w) \<Rightarrow>
          (if limited then Some (plain_response (ev_ingress env) 429 (as_bytes ''too many requests'')) else None, st\<lparr>gs_windows := w\<rparr>))"
  by (cases "ep_rate_limit_rps edge = 0") (simp_all add: h3_rate_def rate_limited_zero word_gt_0)

lemma h3_rate_pass:
  assumes "h3_rate env t remote host edge st = (None, st')"
  shows "gs_rates st' = gs_rates st \<and>
    \<not> fst (rate_limited (mo_rate t) (''rps|'' @ remote @ ''|'' @ host) (ep_rate_limit_rps edge) (gs_windows st))"
  using assms by (auto simp: h3_rate_eq split: prod.splits if_splits)

lemma h3_auth_pass: "h3_auth env t req edge st = (None, st') \<Longrightarrow> st' = st \<and> h3_auth_passed env t req edge"
  by (auto simp: h3_auth_def h3_auth_passed_def split: option.splits if_splits)

lemma h3_file_pass: "h3_file env req root st = (None, st') \<Longrightarrow> st' = st \<and> root = None"
  by (auto simp: h3_file_def split: option.splits)

lemma h3_geoip_pass: "h3_geoip env remote req geoip st = (None, st') \<Longrightarrow> st' = st \<and> h3_geoip_decision env remote req geoip = Allow"
  by (auto simp: h3_geoip_def h3_geoip_decision_def Let_def split: if_splits)

lemma h3_captcha_pass: "h3_captcha env t remote req security st = (None, st') \<Longrightarrow> st' = st \<and> \<not> is_captcha_path (ur_path (rq_uri req))"
  by (auto simp: h3_captcha_def Let_def split: if_splits sum.splits)

lemma h3_security_pass:
  "h3_security env t remote req security st = (None, st') \<Longrightarrow> h3_security_verdict env t remote req security st \<in> {SecAllow, SecLog}"
  by (cases "security_is_active security")
    (auto simp: h3_security_def h3_security_verdict_def Let_def split: prod.splits SecurityAction.splits)

text \<open>Everything the server demands of a request under the policies of its plan, given the tables with
  which it started.\<close>
definition h3_vetted :: "('h, 'm) env \<Rightarrow> moment \<Rightarrow> string \<Rightarrow> 'h RequestHeader \<Rightarrow> MiddlewareAction \<Rightarrow> gw_state \<Rightarrow> bool" where
  "h3_vetted env t remote req mw st \<longleftrightarrow>
     (let host = h3_request_host env req in
      \<not> x4xx_blocked (mo_x4xx t) remote host (ep_x4xx_limit_rps (ma_edge mw)) (gs_windows st) \<and>
      \<not> fst (rate_limited (mo_rate t) (''rps|'' @ remote @ ''|'' @ host) (ep_rate_limit_rps (ma_edge mw)) (gs_windows st)) \<and>
      h3_auth_passed env t req (ma_edge mw) \<and> ma_file_root mw = None \<and>
      h3_geoip_decision env remote req (ma_geoip mw) = Allow \<and> \<not> is_captcha_path (ur_path (rq_uri req)) \<and>
      h3_security_verdict env t remote req (ma_security mw) st \<in> {SecAllow, SecLog})"

lemma h3_vetted_cong:
  "gs_windows st = gs_windows st' \<Longrightarrow> gs_rates st = gs_rates st' \<Longrightarrow>
     h3_vetted env t remote req mw st = h3_vetted env t remote req mw st'"
  by (simp add: h3_vetted_def h3_security_verdict_def)

lemma h3_policies_vetted:
  assumes "h3_policies env t remote req mw st = (None, st')"
  shows "h3_vetted env t remote req mw st"
proof -
  let ?host = "h3_request_host env req"
  obtain s1 s2 s3 s4 s5 s6 where f:
    "h3_x4xx env t remote ?host (ma_edge mw) st = (None, s1)" "h3_rate env t remote ?host (ma_edge mw) s1 = (None, s2)"
    "h3_auth env t req (ma_edge mw) s2 = (None, s3)" "h3_file env req (ma_file_root mw) s3 = (None, s4)"
    "h3_geoip env remote req (ma_geoip mw) s4 = (None, s5)" "h3_captcha env t remote req (ma_security mw) s5 = (None, s6)"
    "h3_security env t remote req (ma_security mw) s6 = (None, st')"
    using assms unfolding h3_policies_def run_h3_None run_h3.simps(1) by blast
  note p = h3_x4xx_pass [OF f(1)] h3_rate_pass [OF f(2)] h3_auth_pass [OF f(3)] h3_file_pass [OF f(4)]
    h3_geoip_pass [OF f(5)] h3_captcha_pass [OF f(6)] h3_security_pass [OF f(7)]
  then have "gs_rates s6 = gs_rates st" by simp
  then have "h3_security_verdict env t remote req (ma_security mw) s6 = h3_security_verdict env t remote req (ma_security mw) st"
    by (simp add: h3_security_verdict_def)
  with p show ?thesis by (simp add: h3_vetted_def)
qed

section \<open>The upstream is consulted for vetted requests only\<close>

lemma h3_admit_forward:
  assumes "h3_admit env t table remote req st = (Inr plan, st')"
  obtains fs where "resolve_forward (ev_tcp env) (mo_probe_start t) (mo_probe_end t) table (h3_request_host env req)
      (uri_path_q (rq_uri req)) (gs_forward st) = (Inr plan, fs)"
    and "\<not> is_h3_incompatible_request (ev_headers env) (rq_headers req) (rq_method req) (ur_path (rq_uri req))"
    and "h3_vetted env t remote req (fp_middleware plan) st"
proof -
  obtain r fs where r: "resolve_forward (ev_tcp env) (mo_probe_start t) (mo_probe_end t) table (h3_request_host env req)
      (uri_path_q (rq_uri req)) (gs_forward st) = (r, fs)" by fastforce
  from assms have c: "\<not> is_h3_incompatible_request (ev_headers env) (rq_headers req) (rq_method req) (ur_path (rq_uri req))"
    "r = Inr plan" "h3_policies env t remote req (fp_middleware plan) (st\<lparr>gs_forward := fs\<rparr>) = (None, st')"
    by (auto simp: h3_admit_def Let_def r split: if_splits sum.splits prod.splits option.splits)
  have "h3_vetted env t remote req (fp_middleware plan) st"
    using h3_policies_vetted [OF c(3)] by (subst h3_vetted_cong [of _ "st\<lparr>gs_forward := fs\<rparr>"]) simp_all
  with c r show thesis using that by simp
qed

lemma try_serve_health_None: "try_serve_health env req stream st = (None, st') \<Longrightarrow> st' = st"
  by (auto simp: try_serve_health_def split: if_splits sum.splits)

lemma h3_client_matters:
  assumes "handle_request_inner env t iter client table remote req stream st \<noteq>
      handle_request_inner env t iter client' table remote req stream st"
  obtains plan st' where "h3_admit env t table remote req st = (Inr plan, st')"
  using assms try_serve_health_None [of env req stream st]
  by (fastforce simp: handle_request_inner_def split: prod.splits option.splits sum.splits)

text \<open>C3: HTTP/3 skips no policy.  If the answer of the upstream makes any difference to what an HTTP/3
  request gets or to the shared tables, then the request is no long-lived stream, its host and path
  match a route, and under the GeoIP, security and edge policies of exactly that route it is within
  the 4xx and the rate limit of the connection's address, authenticated, allowed by GeoIP, neither
  blocked nor challenged, no captcha request and no static file.  Unlike the pipeline for the other
  protocols there is no unvetted path for a route that cannot be resolved.\<close>
theorem h3_forwarded_vetted:
  assumes "handle_request env t iter client table remote req stream st \<noteq>
      handle_request env t iter client' table remote req stream st"
  shows "\<exists>route mw. match_route_entry table (h3_request_host env req) (before CHR ''?'' (uri_path_q (rq_uri req))) = Some route \<and>
    ma_geoip mw = rt_geoip route \<and> ma_security mw = rt_security route \<and>
    ma_edge mw = edge_for table (h3_request_host env req) (rt_path route) \<and> h3_vetted env t remote req mw st \<and>
    \<not> is_h3_incompatible_request (ev_headers env) (rq_headers req) (rq_method req) (ur_path (rq_uri req))"
proof -
  let ?st = "with_metrics inc_active_connections st"
  have "handle_request_inner env t iter client table remote req stream ?st \<noteq>
      handle_request_inner env t iter client' table remote req stream ?st"
    using assms by (auto simp: handle_request_def)
  then obtain plan st' where "h3_admit env t table remote req ?st = (Inr plan, st')" by (rule h3_client_matters)
  then obtain fs where fs: "resolve_forward (ev_tcp env) (mo_probe_start t) (mo_probe_end t) table (h3_request_host env req)
      (uri_path_q (rq_uri req)) (gs_forward ?st) = (Inr plan, fs)"
    and inc: "\<not> is_h3_incompatible_request (ev_headers env) (rq_headers req) (rq_method req) (ur_path (rq_uri req))"
    and v: "h3_vetted env t remote req (fp_middleware plan) ?st" by (rule h3_admit_forward)
  from v have "h3_vetted env t remote req (fp_middleware plan) st"
    by (subst h3_vetted_cong [of _ ?st]) (simp_all add: with_metrics_def)
  with inc resolve_forward_route [OF fs] show ?thesis by metis
qed

text \<open>The sample gateway over HTTP/3.\<close>
definition demo_stream :: "header_list h3_stream" where
  "demo_stream = \<lparr>hs_recv = Inr [], hs_send = (\<lambda>_. None)\<rparr>"

abbreviation demo_h3 :: "header_list http_client \<Rightarrow> header_list h3_result \<times> gw_state" where
  "demo_h3 client \<equiv> handle_request demo_env demo_moment id client (gw_router (demo_gateway False)) ''8.8.8.8'' (sn_req demo_request)
     demo_stream demo_state"

lemma demo_stream_io: "read_h3_request_body demo_stream b = Inr []" "send_h3_response demo_stream r = Inr r"
  by (simp_all add: demo_stream_def read_h3_request_body_def send_h3_response_def)

lemma demo_h3_host: "h3_request_host demo_env (sn_req (demo_session h)) = ''ex.org''"
  using demo_host [of h] by (simp add: h3_request_host_def request_host_def)

lemma demo_h3_admit:
  assumes "gs_forward s = gs_forward demo_state" and "gs_windows s = []"
  obtains plan s' where "h3_admit demo_env demo_moment (gw_router (demo_gateway False)) ''8.8.8.8'' (sn_req demo_request) s = (Inr plan, s')"
proof -
  have "\<not> is_h3_incompatible_request (ev_headers demo_env) (rq_headers (sn_req demo_request)) ''GET'' ''/x''"
    by (simp add: demo_fields demo_env_def run)
  then have "\<exists>plan s'. h3_admit demo_env demo_moment (gw_router (demo_gateway False)) ''8.8.8.8'' (sn_req demo_request) s = (Inr plan, s')"
    using assms by (simp add: h3_admit_def demo_fields demo_h3_host demo_has_host demo_plan uri_path_q_def h3_policies_def demo_edge
      h3_x4xx_def x4xx_blocked_def h3_rate_eq rate_limited_def h3_auth_def h3_auth_ok_def auth_header_ok_def demo_key
      h3_file_def h3_geoip_def h3_captcha_def h3_security_def inactive_defaults Let_def)
  then show thesis using that by blast
qed

theorem h3_forwarded_vetted_witness:
  "demo_h3 (\<lambda>_. Inl ''down'') \<noteq> demo_h3 (\<lambda>_. Inr \<lparr>ua_status = 200, ua_headers = [], ua_body = None\<rparr>) \<and>
   (\<exists>route mw. match_route_entry (gw_router (demo_gateway False)) ''ex.org'' ''/x'' = Some route \<and> ma_geoip mw = rt_geoip route \<and>
     h3_vetted demo_env demo_moment ''8.8.8.8'' (sn_req demo_request) mw demo_state)"
proof -
  let ?s = "with_metrics inc_active_connections demo_state"
  have h: "try_serve_health demo_env (sn_req demo_request) demo_stream ?s = (None, ?s)"
    by (simp add: try_serve_health_def demo_fields is_health_path_def)
  obtain plan s' where "h3_admit demo_env demo_moment (gw_router (demo_gateway False)) ''8.8.8.8'' (sn_req demo_request) ?s = (Inr plan, s')"
    by (rule demo_h3_admit [of ?s]) (simp_all add: with_metrics_def demo_fields)
  then have "fst (demo_h3 (\<lambda>_. Inl ''down'')) \<noteq> fst (demo_h3 (\<lambda>_. Inr \<lparr>ua_status = 200, ua_headers = [], ua_body = None\<rparr>))"
    by (simp add: handle_request_def handle_request_inner_def h h3_forward_def demo_stream_io Let_def)
  then have ne: "demo_h3 (\<lambda>_. Inl ''down'') \<noteq> demo_h3 (\<lambda>_. Inr \<lparr>ua_status = 200, ua_headers = [], ua_body = None\<rparr>)" by metis
  from h3_forwarded_vetted [OF this] ne show ?thesis
    by (simp add: demo_h3_host demo_fields uri_path_q_def before_def) blast
qed

section \<open>The gauge of active connections\<close>

definition gauge :: "gw_state \<Rightarrow> u64" where
  "gauge st = active_connections (gs_metrics st)"

definition keeps_gauge :: "h3_stage \<Rightarrow> bool" where
  "keeps_gauge f \<longleftrightarrow> (\<forall>st. gauge (snd (f st)) = gauge st)"

lemma gauge_update [simp]: "gauge (st\<lparr>gs_forward := f\<rparr>) = gauge st" "gauge (st\<lparr>gs_windows := w\<rparr>) = gauge st"
  "gauge (st\<lparr>gs_rates := r\<rparr>) = gauge st"
  by (simp_all add: gauge_def)

lemma gauge_counters [simp]:
  "gauge (with_metrics inc_geoip_blocked st) = gauge st" "gauge (with_metrics inc_captcha_passed st) = gauge st"
  "gauge (with_metrics inc_captcha_failed st) = gauge st" "gauge (with_metrics inc_waf_logged st) = gauge st"
  "gauge (with_metrics inc_waf_blocked st) = gauge st" "gauge (with_metrics inc_bot_challenged st) = gauge st"
  "gauge (with_metrics inc_bot_blocked st) = gauge st"
  "gauge (with_metrics (record_h3_request env host r s e g) st) = gauge st"
  by (simp_all add: gauge_def with_metrics_def record_h3_request_def counter_defs Let_def)

lemma run_h3_gauge: "list_all keeps_gauge fs \<Longrightarrow> gauge (snd (run_h3 fs st)) = gauge st"
proof (induction fs arbitrary: st)
  case (Cons f fs)
  obtain r s where f: "f st = (r, s)" by fastforce
  from Cons.prems have "gauge (snd (f st)) = gauge st" by (simp add: keeps_gauge_def)
  with f Cons show ?case by (cases r) simp_all
qed simp

lemma h3_security_gauge: "keeps_gauge (h3_security env t remote req security)"
  unfolding keeps_gauge_def
proof
  fix st :: gw_state
  obtain d rates where "security_evaluate (ev_mac env) (mo_bot t) (mo_cookie t) security (h3_view env remote req) (gs_rates st) = (d, rates)"
    by fastforce
  then show "gauge (snd (h3_security env t remote req security st)) = gauge st"
    by (cases "sd_action d") (simp_all add: h3_security_def Let_def)
qed

lemma h3_stages_gauge:
  "keeps_gauge (h3_x4xx env t remote host edge)" "keeps_gauge (h3_rate env t remote host edge)"
  "keeps_gauge (h3_auth env t req edge)" "keeps_gauge (h3_file env req root)" "keeps_gauge (h3_geoip env remote req geoip)"
  "keeps_gauge (h3_captcha env t remote req security)"
  by (simp_all add: keeps_gauge_def h3_x4xx_def h3_rate_eq h3_auth_def h3_file_def h3_geoip_def h3_captcha_def Let_def
      split: prod.split option.split sum.split)

lemma h3_policies_gauge: "gauge (snd (h3_policies env t remote req mw st)) = gauge st"
  unfolding h3_policies_def by (rule run_h3_gauge) (simp only: list.pred_inject h3_stages_gauge h3_security_gauge simp_thms)

lemma h3_admit_gauge: "gauge (snd (h3_admit env t table remote req st)) = gauge st"
proof -
  obtain r fs where r: "resolve_forward (ev_tcp env) (mo_probe_start t) (mo_probe_end t) table (h3_request_host env req)
      (uri_path_q (rq_uri req)) (gs_forward st) = (r, fs)" by fastforce
  show ?thesis
  proof (cases r)
    case (Inr plan)
    obtain q s where q: "h3_policies env t remote req (fp_middleware plan) (st\<lparr>gs_forward := fs\<rparr>) = (q, s)" by fastforce
    with h3_policies_gauge [of env t remote req "fp_middleware plan" "st\<lparr>gs_forward := fs\<rparr>"] have "gauge s = gauge st" by simp
    with r Inr q show ?thesis by (cases q) (simp_all add: h3_admit_def Let_def)
  qed (simp add: h3_admit_def r Let_def)
qed

lemma h3_forward_gauge: "gauge (snd (h3_forward env iter client remote req stream plan st)) = gauge st"
  by (simp add: h3_forward_def Let_def split: sum.split)

lemma handle_request_inner_gauge: "gauge (snd (handle_request_inner env t iter client table remote req stream st)) = gauge st"
proof -
  obtain h s where h: "try_serve_health env req stream st = (h, s)" by fastforce
  have "gauge (snd (try_serve_health env req stream st)) = gauge st"
    by (simp add: try_serve_health_def split: sum.split)
  with h have s: "gauge s = gauge st" by simp
  obtain a s' where a: "h3_admit env t table remote req s = (a, s')" by fastforce
  with h3_admit_gauge [of env t table remote req s] have "gauge s' = gauge s" by simp
  with h s a show ?thesis
    by (cases h; cases a) (simp_all add: handle_request_inner_def h3_forward_gauge)
qed

text \<open>C31: The gauge is balanced.  Whatever an HTTP/3 request meets (a refusal, an upstream error, a stream
  that fails while it is read or written, a relayed answer), the gauge of active connections is
  afterwards what it was before, also when the counter is at its maximum.\<close>
theorem h3_gauge_balanced:
  "active_connections (gs_metrics (snd (handle_request env t iter client table remote req stream st))) =
     active_connections (gs_metrics st)"
proof -
  obtain r st' where i: "handle_request_inner env t iter client table remote req stream (with_metrics inc_active_connections st) = (r, st')"
    by fastforce
  then have "gauge st' = gauge (with_metrics inc_active_connections st)"
    using handle_request_inner_gauge [of env t iter client table remote req stream "with_metrics inc_active_connections st"] by simp
  then show ?thesis unfolding handle_request_def i prod.case snd_conv
    by (simp add: gauge_def with_metrics_def inc_active_connections_def dec_active_connections_def)
qed

section \<open>Transport settings\<close>

text \<open>Transport settings.  The idle timeout and the keep-alive interval are never zero.  The stream
  limit and the windows are positive unless the environment names a positive multiple of 2 to the
  32: then the cast to 32 bits leaves zero, and the server accepts no request stream or no data.\<close>
lemma transport_settings_positive:
  "0 < qt_idle_timeout_secs (effective_transport_config var) \<and> 0 < qt_keepalive_secs (effective_transport_config var) \<and>
   (qt_max_streams_bidi (effective_transport_config var) = 0 \<longleftrightarrow>
      (\<exists>v n. var ''PERTISK_HTTP3_MAX_STREAMS'' = Some v \<and> parse_word (trim v) = Some (n :: u64) \<and> 0 < n \<and> 2 ^ 32 dvd unat n)) \<and>
   (qt_stream_receive_window (effective_transport_config var) = 0 \<longleftrightarrow>
      (\<exists>v n. var ''PERTISK_HTTP3_STREAM_RECEIVE_WINDOW'' = Some v \<and> parse_word (trim v) = Some (n :: u64) \<and> 0 < n \<and> 2 ^ 32 dvd unat n)) \<and>
   (qt_conn_receive_window (effective_transport_config var) = 0 \<longleftrightarrow>
      (\<exists>v n. var ''PERTISK_HTTP3_CONN_RECEIVE_WINDOW'' = Some v \<and> parse_word (trim v) = Some (n :: u64) \<and> 0 < n \<and> 2 ^ 32 dvd unat n))"
proof -
  have pos: "0 < env_u64 var name d" if "0 < d" for name and d
    using that by (auto simp: env_u64_def get_or_def filter_opt_def split: option.splits)
  have cast: "(ucast (n :: u64) :: u32) = 0 \<longleftrightarrow> 2 ^ 32 dvd unat n" for n
    by (simp add: unat_eq_zero [symmetric] unsigned_ucast_eq take_bit_eq_mod dvd_eq_mod_eq_0 del: unsigned_eq_0_iff unat_eq_zero)
  have zero: "(ucast (env_u64 var name d) :: u32) = 0 \<longleftrightarrow>
      (\<exists>v n. var name = Some v \<and> parse_word (trim v) = Some (n :: u64) \<and> 0 < n \<and> 2 ^ 32 dvd unat n)"
    if "\<not> 2 ^ 32 dvd unat d" for name and d
    using that by (auto simp: cast env_u64_def get_or_def filter_opt_def bind_eq_Some_conv split: option.splits)
  show ?thesis
    by (simp add: effective_transport_config_def pos zero)
qed

end
