(* ===== verification/Apply.thy ===== *)
theory Apply
  imports Forward_Plan
begin

text \<open>
  From the stored configuration to the routing table, after src/src/proxy/apply.rs: each site
  contributes its routes under its host, an unknown backend or an unreadable upstream is an
  error, edge policies are filed by host and path, and the live router is replaced only by a
  complete table.  The parameter \<^verbatim>\<open>u\<close> lower-cases text outside ASCII.
\<close>

section \<open>Operations\<close>

datatype apply_error =
    UnknownBackend string
  | NoUpstreams string
  | InvalidUpstream string

definition looks_like_upstream_url :: "string \<Rightarrow> bool" where
  "looks_like_upstream_url value =
     (let lower = to_ascii_lowercase value in
      starts_with lower ''http://'' \<or> starts_with lower ''https://'' \<or> starts_with lower ''localhost:'' \<or>
      starts_with lower ''127.0.0.1:'' \<or> starts_with lower ''[::1]:'')"

definition path_only_rewrite :: "string option \<Rightarrow> string option" where
  "path_only_rewrite rewrite = filter_opt (\<lambda>s. \<not> looks_like_upstream_url (trim s)) rewrite"

definition or_error :: "'e \<Rightarrow> 'a option \<Rightarrow> 'e + 'a" where
  "or_error e m = (case m of Some v \<Rightarrow> Inr v | None \<Rightarrow> Inl e)"

definition resolve_route_target :: "(string \<Rightarrow> url option) \<Rightarrow> PathRewrite \<Rightarrow> Backend \<Rightarrow> apply_error + Backend" where
  "resolve_route_target url_parse route default_target =
     (case filter_opt (\<lambda>s. s \<noteq> []) (map_option trim (pr_upstream route)) of
        Some raw \<Rightarrow> or_error (InvalidUpstream raw) (parse_upstream url_parse raw)
      | None \<Rightarrow>
          (case filter_opt looks_like_upstream_url (map_option trim (pr_rewrite route)) of
             Some raw \<Rightarrow> or_error (InvalidUpstream raw) (parse_upstream url_parse raw)
           | None \<Rightarrow> Inr default_target))"

fun route_path_type :: "ConfigPathMatchType \<Rightarrow> PathMatchType" where
  "route_path_type CExact = Exact"
| "route_path_type CPrefix = Prefix"
| "route_path_type CImplementationSpecific = ImplementationSpecific"

definition site_route :: "string \<Rightarrow> ConfigPathMatchType \<Rightarrow> string option \<Rightarrow> Backend \<Rightarrow> bool \<Rightarrow> GeoIpPolicy \<Rightarrow>
    SecurityPolicy \<Rightarrow> Route" where
  "site_route path path_type rewrite target forward_client_ip geoip security =
     \<lparr>rt_path = path, rt_path_type = route_path_type path_type, rt_backend = target,
      rt_middlewares =
        (case filter_opt (\<lambda>s. s \<noteq> []) (map_option trim rewrite) of
           Some rw \<Rightarrow> if rw = ''/'' \<and> path \<noteq> ''/'' then [StripPrefix (trim_end_matches CHR ''/'' path)] else []
         | None \<Rightarrow> []),
      rt_forward_client_ip = forward_client_ip, rt_geoip = geoip_normalized geoip,
      rt_security = security_normalized security\<rparr>"

fun build_routes :: "(string \<Rightarrow> url option) \<Rightarrow> Backend \<Rightarrow> bool \<Rightarrow> GeoIpPolicy \<Rightarrow> SecurityPolicy \<Rightarrow> PathRewrite list \<Rightarrow>
    apply_error + Route list" where
  "build_routes url_parse default_target fwd geoip security [] = Inr []"
| "build_routes url_parse default_target fwd geoip security (r # rs) =
     (case resolve_route_target url_parse r default_target of
        Inl e \<Rightarrow> Inl e
      | Inr target \<Rightarrow>
          map_sum id (\<lambda>built. site_route (pr_path r) (pr_path_type r) (path_only_rewrite (pr_rewrite r)) target fwd geoip security # built)
            (build_routes url_parse default_target fwd geoip security rs))"

definition site_target :: "(string \<Rightarrow> url option) \<Rightarrow> (string, ConfigBackend) hmap \<Rightarrow> Site \<Rightarrow> apply_error + Backend" where
  "site_target url_parse backends site =
     (case map_of backends (si_backend site) of
        None \<Rightarrow> Inl (UnknownBackend (si_backend site))
      | Some backend \<Rightarrow>
          (case cb_upstreams backend of
             [] \<Rightarrow> Inl (NoUpstreams (si_backend site))
           | upstream # _ \<Rightarrow> or_error (InvalidUpstream (us_addr upstream)) (parse_upstream url_parse (us_addr upstream))))"

definition site_routes :: "(string \<Rightarrow> url option) \<Rightarrow> Config \<Rightarrow> (string, ConfigBackend) hmap \<Rightarrow> Site \<Rightarrow> apply_error + Route list" where
  "site_routes url_parse cfg backends site =
     (case site_target url_parse backends site of
        Inl e \<Rightarrow> Inl e
      | Inr default_target \<Rightarrow>
          (let geoip = resolve_site_geoip cfg site; security = resolve_site_security cfg site in
           if si_routes site = []
           then Inr [site_route ''/'' CPrefix None default_target (si_forward_client_ip site) geoip security]
           else build_routes url_parse default_target (si_forward_client_ip site) geoip security (si_routes site)))"

definition site_host :: "(string \<Rightarrow> string) \<Rightarrow> Site \<Rightarrow> string" where
  "site_host u site = to_lowercase u (trim (si_host site))"

fun add_sites :: "(string \<Rightarrow> string) \<Rightarrow> (string \<Rightarrow> url option) \<Rightarrow> Config \<Rightarrow> (string, ConfigBackend) hmap \<Rightarrow> Site list \<Rightarrow>
    (string, Route list) hmap \<Rightarrow> apply_error + (string, Route list) hmap" where
  "add_sites u url_parse cfg backends [] by_host = Inr by_host"
| "add_sites u url_parse cfg backends (site # sites) by_host =
     (let host = site_host u site in
      if host = [] then add_sites u url_parse cfg backends sites by_host
      else case site_routes url_parse cfg backends site of
          Inl e \<Rightarrow> Inl e
        | Inr routes \<Rightarrow> add_sites u url_parse cfg backends sites (hm_extend host routes by_host))"

definition edge_routes :: "Site \<Rightarrow> PathRewrite list" where
  "edge_routes site =
     (if si_routes site = [] then [path_rewrite_default\<lparr>pr_path := ''/''\<rparr>] else si_routes site)"

definition edge_policy_of :: "PathRewrite \<Rightarrow> EdgePolicy" where
  "edge_policy_of route = \<lparr>ep_auth = pr_auth route, ep_rate_limit_rps = pr_rate_limit_rps route,
     ep_x4xx_limit_rps = pr_x4xx_limit_rps route, ep_cache = pr_cache route\<rparr>"

definition add_site_edges :: "(string \<Rightarrow> string) \<Rightarrow> Site \<Rightarrow> RouteTable \<Rightarrow> RouteTable" where
  "add_site_edges u site table =
     (let host = site_host u site in
      if host = [] then table
      else fold (\<lambda>route. insert_edge host (pr_path route) (edge_policy_of route)) (edge_routes site) table)"

definition config_globals :: "Config \<Rightarrow> EdgeGlobals" where
  "config_globals cfg = \<lparr>eg_tls_grade = cf_tls_grade cfg, eg_cache_size_mb = cf_cache_size_mb cfg,
     eg_cache_ttl_secs = cf_cache_ttl_secs cfg, eg_consul = cf_consul cfg, eg_jwt_secret = cf_jwt_secret cfg\<rparr>"

definition backend_index :: "ConfigBackend list \<Rightarrow> (string, ConfigBackend) hmap" where
  "backend_index bs = fold (\<lambda>b. AList.update (cb_name b) b) bs []"

definition config_to_route_table :: "(string \<Rightarrow> string) \<Rightarrow> (string \<Rightarrow> url option) \<Rightarrow> Config \<Rightarrow> apply_error + RouteTable" where
  "config_to_route_table u url_parse cfg =
     map_sum id (\<lambda>by_host. set_globals (config_globals cfg) (fold (add_site_edges u) (cf_sites cfg) (from_routes by_host)))
       (add_sites u url_parse cfg (backend_index (cf_backends cfg)) (cf_sites cfg) [])"

definition apply_config :: "(string \<Rightarrow> string) \<Rightarrow> (string \<Rightarrow> url option) \<Rightarrow> Config \<Rightarrow> Router \<Rightarrow> (apply_error + unit) \<times> Router" where
  "apply_config u url_parse cfg router =
     (case config_to_route_table u url_parse cfg of
        Inl e \<Rightarrow> (Inl e, router)
      | Inr table \<Rightarrow> (Inr (), replace_all table (cf_http3 cfg) router))"

section \<open>Migration of flat route files\<close>

fun config_path_type :: "PathMatchType \<Rightarrow> ConfigPathMatchType" where
  "config_path_type Exact = CExact"
| "config_path_type Prefix = CPrefix"
| "config_path_type ImplementationSpecific = CImplementationSpecific"

definition migrated_upstream :: "Route \<Rightarrow> string" where
  "migrated_upstream route =
     ''http://'' @ be_address (rt_backend route) @ '':'' @ show_word (be_port (rt_backend route))"

definition migrated_backend_name :: "Route \<Rightarrow> string" where
  "migrated_backend_name route = ''backend-'' @ replace_char CHR '':'' CHR ''-'' (be_address (rt_backend route))"

definition migrated_site :: "string \<Rightarrow> Route \<Rightarrow> Site" where
  "migrated_site host route =
     \<lparr>si_host = host,
      si_routes = [path_rewrite_default\<lparr>pr_path_type := config_path_type (rt_path_type route), pr_path := rt_path route,
        pr_rewrite := None, pr_upstream := None\<rparr>],
      si_backend = migrated_backend_name route, si_security_headers = None, si_ingress_namespace = None,
      si_ingress_name = None, si_k8s_resource_kind = None, si_http3_alt_svc_enabled = True,
      si_forward_client_ip = False, si_access_list_id = None, si_waf_policy_id = None,
      si_geoip = geoip_default, si_security = security_default\<rparr>"

definition migrated_backends :: "(string \<times> Route) list \<Rightarrow> (string, string) hmap" where
  "migrated_backends routes =
     fold (\<lambda>(_, route) m. if map_of m (migrated_backend_name route) = None
        then AList.update (migrated_backend_name route) (migrated_upstream route) m else m) routes []"

definition migrate_from_routes_yaml :: "RouteTable \<Rightarrow> TlsConfig list \<Rightarrow> Http3Options \<Rightarrow> Config" where
  "migrate_from_routes_yaml table tls http3 =
     config_default\<lparr>
       cf_sites := map (\<lambda>(host, route). migrated_site host route) (all_routes table),
       cf_backends := map (\<lambda>(name, addr). \<lparr>cb_name = name, cb_upstreams = [\<lparr>us_addr = addr, us_weight = 1\<rparr>],
         cb_algorithm = RoundRobin, cb_health_path = None, cb_health_interval_secs = 0\<rparr>)
         (migrated_backends (all_routes table)),
       cf_tls := tls, cf_http3 := http3\<rparr>"

lemmas apply_defs [run] = looks_like_upstream_url_def path_only_rewrite_def or_error_def resolve_route_target_def
  site_route_def site_target_def site_routes_def site_host_def edge_routes_def edge_policy_of_def
  add_site_edges_def config_globals_def backend_index_def config_to_route_table_def apply_config_def
  migrated_upstream_def migrated_backend_name_def migrated_site_def migrated_backends_def
  migrate_from_routes_yaml_def

section \<open>The routes of a configuration\<close>

lemma build_routes_member:
  assumes "build_routes url_parse d fwd g s rs = Inr built" and "r \<in> set built"
  shows "\<exists>p \<in> set rs. rt_path r = pr_path p \<and> rt_path_type r = route_path_type (pr_path_type p) \<and>
    rt_geoip r = geoip_normalized g \<and> rt_security r = security_normalized s"
  using assms
proof (induction rs arbitrary: built)
  case (Cons p rs)
  then obtain target rest where "build_routes url_parse d fwd g s rs = Inr rest"
    "built = site_route (pr_path p) (pr_path_type p) (path_only_rewrite (pr_rewrite p)) target fwd g s # rest"
    by (cases "build_routes url_parse d fwd g s rs") (auto split: sum.splits)
  with Cons show ?case
    by (auto simp: site_route_def)
qed simp

lemma resolve_site_normal [simp]:
  "geoip_normalized (resolve_site_geoip cfg site) = resolve_site_geoip cfg site"
  "security_normalized (resolve_site_security cfg site) = resolve_site_security cfg site"
  by (simp_all add: resolve_site_geoip_def resolve_site_security_def split: option.split)

lemma site_routes_member:
  assumes "site_routes url_parse cfg backends site = Inr rs" and "r \<in> set rs"
  shows "\<exists>p \<in> set (edge_routes site). rt_path r = pr_path p \<and> rt_path_type r = route_path_type (pr_path_type p) \<and>
    rt_geoip r = resolve_site_geoip cfg site \<and> rt_security r = resolve_site_security cfg site"
proof -
  obtain d where d: "site_target url_parse backends site = Inr d"
    using assms(1) by (auto simp: site_routes_def split: sum.splits)
  show ?thesis
  proof (cases "si_routes site = []")
    case True
    then show ?thesis
      using assms d by (auto simp: site_routes_def edge_routes_def site_route_def path_rewrite_default_def)
  next
    case False
    then show ?thesis
      using assms d build_routes_member [of url_parse d "si_forward_client_ip site" "resolve_site_geoip cfg site"
        "resolve_site_security cfg site" "si_routes site" rs r]
      by (simp add: site_routes_def edge_routes_def)
  qed
qed

definition live_sites :: "(string \<Rightarrow> string) \<Rightarrow> Site list \<Rightarrow> Site list" where
  "live_sites u sites = filter (\<lambda>site. site_host u site \<noteq> []) sites"

lemma live_sites_simps [simp]:
  "live_sites u [] = []"
  "live_sites u (s # ss) = (if site_host u s = [] then live_sites u ss else s # live_sites u ss)"
  by (simp_all add: live_sites_def)

lemma add_sites_Inr:
  "add_sites u url_parse cfg backends sites m = Inr m' \<longleftrightarrow>
     (\<forall>site \<in> set (live_sites u sites). \<exists>rs. site_routes url_parse cfg backends site = Inr rs) \<and>
     m' = fold (\<lambda>site. hm_extend (site_host u site) (projr (site_routes url_parse cfg backends site))) (live_sites u sites) m"
  by (induction sites arbitrary: m) (auto simp: Let_def split: sum.splits)

lemma add_sites_Inl:
  "add_sites u url_parse cfg backends sites m = Inl e \<Longrightarrow>
     \<exists>site \<in> set (live_sites u sites). site_routes url_parse cfg backends site = Inl e"
  by (induction sites arbitrary: m) (auto simp: Let_def split: sum.splits if_splits)

lemma fold_extend_at:
  "get_or [] (map_of (fold (\<lambda>x. hm_extend (f x) (g x)) xs m) k) =
     get_or [] (map_of m k) @ concat (map g (filter (\<lambda>x. f x = k) xs))"
  by (induction xs arbitrary: m) (auto simp: map_of_hm_extend)

lemma fold_extend_keys: "fst ` set (fold (\<lambda>x. hm_extend (f x) (g x)) xs m) = f ` set xs \<union> fst ` set m"
  by (induction xs arbitrary: m) (auto simp: fst_set_hm_extend)

lemma fold_extend_distinct:
  "distinct (map fst m) \<Longrightarrow> distinct (map fst (fold (\<lambda>x. hm_extend (f x) (g x)) xs m))"
  by (induction xs arbitrary: m) (simp_all add: distinct_hm_extend)

section \<open>The edge policies of a configuration\<close>

definition edge_at :: "RouteTable \<Rightarrow> string \<Rightarrow> string \<Rightarrow> EdgePolicy option" where
  "edge_at t k path = Option.bind (map_of (tb_edge t) k) (\<lambda>paths. map_of paths path)"

lemma insert_edge_at:
  "edge_at (insert_edge host path policy t) k p =
     (if k = normalize_host host \<and> p = path then Some policy else edge_at t k p)"
  by (cases "map_of (tb_edge t) (normalize_host host)") (auto simp: edge_at_def insert_edge_def Let_def update_conv')

lemma insert_edge_keys: "fst ` set (tb_edge (insert_edge host path policy t)) = insert (normalize_host host) (fst ` set (tb_edge t))"
  by (simp add: insert_edge_def Let_def dom_update)

lemma insert_edge_routes [simp]: "tb_routes (insert_edge host path policy t) = tb_routes t"
  by (simp add: insert_edge_def Let_def)

definition edge_entries :: "(string \<Rightarrow> string) \<Rightarrow> Site list \<Rightarrow> (string \<times> PathRewrite) list" where
  "edge_entries u sites = concat (map (\<lambda>site. map (Pair (site_host u site)) (edge_routes site)) (live_sites u sites))"

lemma add_site_edges_entries:
  "fold (add_site_edges u) sites t =
     fold (\<lambda>(host, route). insert_edge host (pr_path route) (edge_policy_of route)) (edge_entries u sites) t"
proof (induction sites arbitrary: t)
  case (Cons site sites)
  have "fold (\<lambda>route. insert_edge h (pr_path route) (edge_policy_of route)) rs t =
      fold (\<lambda>(host, route). insert_edge host (pr_path route) (edge_policy_of route)) (map (Pair h) rs) t" for h rs t
    by (induction rs arbitrary: t) simp_all
  with Cons show ?case
    by (simp add: edge_entries_def add_site_edges_def Let_def)
qed (simp add: edge_entries_def)

lemma insert_edges_at:
  assumes "edge_at (fold (\<lambda>(host, route). insert_edge host (pr_path route) (edge_policy_of route)) es t) k p = Some policy"
  shows "edge_at t k p = Some policy \<or>
    (\<exists>(host, route) \<in> set es. normalize_host host = k \<and> pr_path route = p \<and> policy = edge_policy_of route)"
  using assms
proof (induction es arbitrary: t)
  case (Cons e es)
  obtain host route where e: "e = (host, route)" by (cases e)
  from Cons.IH [of "insert_edge host (pr_path route) (edge_policy_of route) t"] Cons.prems e
  show ?case by (auto simp: insert_edge_at split: if_splits)
qed simp

lemma insert_edges_defined:
  assumes "(host, route) \<in> set es \<or> edge_at t (normalize_host host) (pr_path route) \<noteq> None"
  shows "edge_at (fold (\<lambda>(host, route). insert_edge host (pr_path route) (edge_policy_of route)) es t)
    (normalize_host host) (pr_path route) \<noteq> None"
  using assms
proof (induction es arbitrary: t)
  case (Cons e es)
  obtain h r where e: "e = (h, r)" by (cases e)
  have "(host, route) \<in> set es \<or>
      edge_at (insert_edge h (pr_path r) (edge_policy_of r) t) (normalize_host host) (pr_path route) \<noteq> None"
    using Cons.prems e by (auto simp: insert_edge_at)
  from Cons.IH [OF this] show ?case by (simp add: e)
qed simp

lemma insert_edges_keys:
  "fst ` set (tb_edge (fold (\<lambda>(host, route). insert_edge host (pr_path route) (edge_policy_of route)) es t)) =
     normalize_host ` fst ` set es \<union> fst ` set (tb_edge t)"
proof (induction es arbitrary: t)
  case (Cons e es)
  obtain h r where e: "e = (h, r)" by (cases e)
  show ?case
    using Cons.IH [of "insert_edge h (pr_path r) (edge_policy_of r) t"] by (simp add: e insert_edge_keys)
qed simp

lemma insert_edges_routes:
  "tb_routes (fold (\<lambda>(host, route). insert_edge host (pr_path route) (edge_policy_of route)) es t) = tb_routes t"
  by (induction es arbitrary: t) auto

section \<open>Hosts of a configuration\<close>

definition plain_hosts :: "Config \<Rightarrow> bool" where
  "plain_hosts cfg \<longleftrightarrow> list_all (\<lambda>site. is_ascii (si_host site) \<and> CHR '':'' \<notin> set (si_host site)) (cf_sites cfg)"

lemma colon_lower: "CHR '':'' \<in> set (to_ascii_lowercase s) \<longleftrightarrow> CHR '':'' \<in> set s"
proof -
  have "lower_char c = CHR '':'' \<longleftrightarrow> c = CHR '':''" for c
    by (rule lower_char_eq_iff) (simp_all add: is_lower_def is_upper_def)
  then show ?thesis
    unfolding to_ascii_lowercase_def set_map image_iff by metis
qed

lemma trim_subset: "set (trim s) \<subseteq> set s"
  using sublist_trim by (metis set_mono_sublist)

lemma plain_site_host:
  assumes "plain_hosts cfg" and "site \<in> set (cf_sites cfg)"
  shows "normalize_host (site_host u site) = site_host u site" and "trimmed_key (site_host u site)"
proof -
  have site: "is_ascii (trim (si_host site))" "CHR '':'' \<notin> set (trim (si_host site))"
    using assms trim_subset [of "si_host site"] by (auto simp: plain_hosts_def list_all_iff is_ascii_trim)
  then have h: "site_host u site = to_ascii_lowercase (trim (si_host site))"
    by (simp add: site_host_def)
  show "normalize_host (site_host u site) = site_host u site"
    using site(2) by (simp add: normalize_host_def h before_none colon_lower)
  show "trimmed_key (site_host u site)"
    by (simp add: trimmed_key_def h)
qed

definition table_ok :: "RouteTable \<Rightarrow> bool" where
  "table_ok t \<longleftrightarrow> wf_routes (tb_routes t) \<and> fst ` set (tb_edge t) = fst ` set (tb_routes t)"

lemma map_of_keys: "map_of m k \<noteq> None \<longleftrightarrow> k \<in> fst ` set m"
  by (metis map_of_eq_None_iff)

lemma matched_key_wildcard:
  assumes "table_ok t" and "map_of (tb_routes t) (normalize_host host) = None"
  shows "matched_host_key t host =
    (case filter_opt (\<lambda>k. k \<in> fst ` set (tb_routes t)) (parent_wildcard (normalize_host host)) of
       Some k \<Rightarrow> k
     | None \<Rightarrow> if map_of (tb_routes t) ''*'' \<noteq> None then ''*'' else normalize_host host)"
proof -
  let ?h = "normalize_host host"
  let ?ks = "map (\<lambda>k. (k, k)) (map fst (tb_routes t) @ map fst (tb_edge t))"
  have keys: "fst ` set ?ks = fst ` set (tb_routes t)"
    using assms(1) by (force simp: table_ok_def)
  have wild: "wild_key k ?h \<longleftrightarrow> parent_wildcard ?h = Some k" if "k \<in> fst ` set (tb_routes t)" for k
    using assms(1) that by (auto simp: table_ok_def intro!: wild_key_parent wf_routesD)
  have edge: "map_of (tb_edge t) ?h = None"
    using assms map_of_keys by (metis table_ok_def)
  show ?thesis
  proof (cases "best_scan (\<lambda>k. wild_key k ?h) length ?ks")
    case None
    then have "filter_opt (\<lambda>k. k \<in> fst ` set (tb_routes t)) (parent_wildcard ?h) = None"
      using wild unfolding edge_index.scan_None keys by (cases "parent_wildcard ?h") auto
    then show ?thesis
      using None edge assms(2) by (simp add: matched_host_key_def Let_def)
  next
    case (Some p)
    then obtain s k where p: "best_scan (\<lambda>k. wild_key k ?h) length ?ks = Some (s, k)"
      by (cases p) auto
    from best_scan_Some [OF p] obtain k' where k': "(k', k) \<in> set ?ks" "wild_key k' ?h"
      by blast
    then have eq: "k' = k"
      by auto
    have "k' \<in> fst ` set ?ks"
      using k'(1) by (rule image_eqI [rotated]) simp
    then have kin: "k \<in> fst ` set (tb_routes t)"
      unfolding keys eq .
    with eq have "parent_wildcard ?h = Some k"
      using wild k'(2) by blast
    then show ?thesis
      using p kin edge assms(2) by (simp add: matched_host_key_def Let_def)
  qed
qed

text \<open>The key whose edge policies are used is the key whose routes are used.\<close>

lemma routes_at_matched_key:
  assumes "table_ok t" and "routes_for_host t host = Some rs"
  shows "map_of (tb_routes t) (matched_host_key t host) = Some rs \<and>
    (matched_host_key t host \<in> {normalize_host host, ''*''} \<or>
     parent_wildcard (normalize_host host) = Some (matched_host_key t host))"
proof (cases "map_of (tb_routes t) (normalize_host host)")
  case (Some r)
  then show ?thesis
    using assms(2) by (auto simp: routes_for_host_def matched_host_key_def Let_def split: if_splits)
next
  case None
  let ?h = "normalize_host host"
  have look: "routes_for_host t host =
      (if ?h = [] then None else or_else (Option.bind (parent_wildcard ?h) (map_of (tb_routes t))) (map_of (tb_routes t) ''*''))"
    using scan_is_lookup [of "tb_routes t" ?h, symmetric] assms(1) None
    by (simp add: table_ok_def routes_for_host_def Let_def or_else_def split: option.split)
  show ?thesis
  proof (cases "Option.bind (parent_wildcard ?h) (map_of (tb_routes t))")
    case None
    then have "filter_opt (\<lambda>k. k \<in> fst ` set (tb_routes t)) (parent_wildcard ?h) = None"
      using map_of_keys [of "tb_routes t"] by (cases "parent_wildcard ?h") (simp_all add: map_of_eq_None_iff)
    then show ?thesis
      using assms(2) matched_key_wildcard [OF assms(1) \<open>map_of (tb_routes t) ?h = None\<close>] None look
      by (simp split: if_splits)
  next
    case (Some v)
    then obtain k where k: "parent_wildcard ?h = Some k" "map_of (tb_routes t) k = Some v"
      by (auto simp: bind_eq_Some_conv)
    then have "k \<in> fst ` set (tb_routes t)"
      using map_of_keys [of "tb_routes t" k] by simp
    then show ?thesis
      using assms(2) matched_key_wildcard [OF assms(1) \<open>map_of (tb_routes t) ?h = None\<close>] Some look k
      by (simp split: if_splits)
  qed
qed

section \<open>Tables of configurations\<close>

lemma config_table_parts:
  assumes "config_to_route_table u url_parse cfg = Inr t"
  defines "sr \<equiv> \<lambda>site. projr (site_routes url_parse cfg (backend_index (cf_backends cfg)) site)"
  shows "\<forall>site \<in> set (live_sites u (cf_sites cfg)). site_routes url_parse cfg (backend_index (cf_backends cfg)) site = Inr (sr site)"
    and "get_or [] (map_of (tb_routes t) k) =
      sort_routes (concat (map sr (filter (\<lambda>site. site_host u site = k) (live_sites u (cf_sites cfg)))))"
    and "fst ` set (tb_routes t) = site_host u ` set (live_sites u (cf_sites cfg))"
    and "distinct (map fst (tb_routes t))"
    and "\<exists>m. tb_edge t = tb_edge (fold (\<lambda>(host, route). insert_edge host (pr_path route) (edge_policy_of route))
      (edge_entries u (cf_sites cfg)) (from_routes m))"
proof -
  obtain m where m: "add_sites u url_parse cfg (backend_index (cf_backends cfg)) (cf_sites cfg) [] = Inr m"
    and t: "t = set_globals (config_globals cfg) (fold (add_site_edges u) (cf_sites cfg) (from_routes m))"
    using assms(1) by (cases "add_sites u url_parse cfg (backend_index (cf_backends cfg)) (cf_sites cfg) []")
      (auto simp: config_to_route_table_def)
  have mf: "m = fold (\<lambda>site. hm_extend (site_host u site) (sr site)) (live_sites u (cf_sites cfg)) []"
    and ok: "\<forall>site \<in> set (live_sites u (cf_sites cfg)). \<exists>rs. site_routes url_parse cfg (backend_index (cf_backends cfg)) site = Inr rs"
    using m unfolding add_sites_Inr sr_def by blast+
  have r: "tb_routes t = map (\<lambda>(host, routes). (host, sort_routes routes)) m"
    by (simp add: t set_globals_def add_site_edges_entries insert_edges_routes from_routes_def)
  show "\<forall>site \<in> set (live_sites u (cf_sites cfg)). site_routes url_parse cfg (backend_index (cf_backends cfg)) site = Inr (sr site)"
    using ok unfolding sr_def by (metis sum.sel(2))
  show "get_or [] (map_of (tb_routes t) k) =
      sort_routes (concat (map sr (filter (\<lambda>site. site_host u site = k) (live_sites u (cf_sites cfg)))))"
    unfolding r map_of_map_values
    unfolding fold_extend_at [of "site_host u" sr "live_sites u (cf_sites cfg)" "[]" k, folded mf, simplified map_of.simps get_or_simps append_Nil, symmetric]
    by (cases "map_of m k") (simp_all add: sort_routes_def)
  show "fst ` set (tb_routes t) = site_host u ` set (live_sites u (cf_sites cfg))"
    using fold_extend_keys [of "site_host u" sr "live_sites u (cf_sites cfg)" "[]", folded mf]
    by (simp add: r image_image case_prod_unfold)
  show "distinct (map fst (tb_routes t))"
    using fold_extend_distinct [of "[]" "site_host u" sr "live_sites u (cf_sites cfg)"]
    by (simp add: r mf [symmetric] o_def case_prod_unfold)
  show "\<exists>m. tb_edge t = tb_edge (fold (\<lambda>(host, route). insert_edge host (pr_path route) (edge_policy_of route))
      (edge_entries u (cf_sites cfg)) (from_routes m))"
    by (rule exI [of _ m]) (simp add: t set_globals_def add_site_edges_entries)
qed

lemma live_sites_subset: "site \<in> set (live_sites u sites) \<Longrightarrow> site \<in> set sites"
  by (simp add: live_sites_def)

lemma edge_routes_not_Nil [simp]: "edge_routes site \<noteq> []"
  by (simp add: edge_routes_def)

lemma edge_entries_member:
  "(h, route) \<in> set (edge_entries u sites) \<longleftrightarrow>
     (\<exists>site \<in> set (live_sites u sites). h = site_host u site \<and> route \<in> set (edge_routes site))"
  by (auto simp: edge_entries_def)

lemma edge_entries_hosts: "fst ` set (edge_entries u sites) = site_host u ` set (live_sites u sites)"
proof (intro equalityI subsetI)
  fix h
  assume "h \<in> site_host u ` set (live_sites u sites)"
  then obtain site where site: "site \<in> set (live_sites u sites)" "h = site_host u site"
    by blast
  have "(h, hd (edge_routes site)) \<in> set (edge_entries u sites)"
    using site by (auto simp: edge_entries_member)
  then show "h \<in> fst ` set (edge_entries u sites)"
    by (rule image_eqI [rotated]) simp
qed (auto simp: edge_entries_member)

lemma normalize_host_live:
  assumes "plain_hosts cfg"
  shows "normalize_host ` site_host u ` set (live_sites u (cf_sites cfg)) = site_host u ` set (live_sites u (cf_sites cfg))"
  using plain_site_host(1) [OF assms] by (simp add: image_image live_sites_subset cong: image_cong)

lemma config_table_ok:
  assumes "config_to_route_table u url_parse cfg = Inr t" and "plain_hosts cfg"
  shows "table_ok t"
proof -
  obtain m where m: "tb_edge t = tb_edge (fold (\<lambda>(host, route). insert_edge host (pr_path route) (edge_policy_of route))
      (edge_entries u (cf_sites cfg)) (from_routes m))"
    using config_table_parts(5) [OF assms(1)] by blast
  have "fst ` set (tb_edge t) = site_host u ` set (live_sites u (cf_sites cfg))"
    by (simp add: m insert_edges_keys edge_entries_hosts normalize_host_live [OF assms(2)] from_routes_def)
  moreover have "trimmed_key k" if "k \<in> fst ` set (tb_routes t)" for k
    using that plain_site_host(2) [OF assms(2)] live_sites_subset
    unfolding config_table_parts(3) [OF assms(1)] by blast
  ultimately show ?thesis
    using config_table_parts(3,4) [OF assms(1)] by (auto simp: table_ok_def wf_routes_def list_all_iff)
qed

lemma config_route_origin:
  assumes "config_to_route_table u url_parse cfg = Inr t" and "map_of (tb_routes t) k = Some rs" and "r \<in> set rs"
  obtains site p where "site \<in> set (live_sites u (cf_sites cfg))" and "site_host u site = k" and "p \<in> set (edge_routes site)"
    and "rt_path r = pr_path p" and "rt_path_type r = route_path_type (pr_path_type p)"
    and "rt_geoip r = resolve_site_geoip cfg site" and "rt_security r = resolve_site_security cfg site"
proof -
  have "r \<in> set (get_or [] (map_of (tb_routes t) k))"
    using assms(2,3) by simp
  then obtain site where site: "site \<in> set (live_sites u (cf_sites cfg))" "site_host u site = k"
    and r: "r \<in> set (projr (site_routes url_parse cfg (backend_index (cf_backends cfg)) site))"
    unfolding config_table_parts(2) [OF assms(1)] by (auto simp: sort_routes_def)
  have "site_routes url_parse cfg (backend_index (cf_backends cfg)) site =
      Inr (projr (site_routes url_parse cfg (backend_index (cf_backends cfg)) site))"
    using config_table_parts(1) [OF assms(1)] site(1) by blast
  from site_routes_member [OF this r] obtain p where "p \<in> set (edge_routes site)" "rt_path r = pr_path p"
    "rt_path_type r = route_path_type (pr_path_type p)" "rt_geoip r = resolve_site_geoip cfg site"
    "rt_security r = resolve_site_security cfg site"
    by blast
  with that site show thesis by blast
qed

lemma config_edge_origin:
  assumes "config_to_route_table u url_parse cfg = Inr t" and "plain_hosts cfg"
    and "site \<in> set (live_sites u (cf_sites cfg))" and "p \<in> set (edge_routes site)"
    and "matched_host_key t host = site_host u site"
  shows "\<exists>site' \<in> set (cf_sites cfg). \<exists>p' \<in> set (edge_routes site'). site_host u site' = site_host u site \<and>
    pr_path p' = pr_path p \<and> edge_for t host (pr_path p) = edge_policy_of p'"
proof -
  let ?k = "site_host u site"
  obtain m where m: "tb_edge t = tb_edge (fold (\<lambda>(host, route). insert_edge host (pr_path route) (edge_policy_of route))
      (edge_entries u (cf_sites cfg)) (from_routes m))" (is "_ = tb_edge ?t")
    using config_table_parts(5) [OF assms(1)] by blast
  have norm: "normalize_host (site_host u s) = site_host u s" if "s \<in> set (live_sites u (cf_sites cfg))" for s
    using plain_site_host(1) [OF assms(2) live_sites_subset [OF that]] .
  have "(?k, p) \<in> set (edge_entries u (cf_sites cfg))"
    using assms(3,4) by (auto simp: edge_entries_member)
  then have "edge_at ?t (normalize_host ?k) (pr_path p) \<noteq> None"
    by (intro insert_edges_defined) simp
  then obtain policy where pol: "edge_at ?t ?k (pr_path p) = Some policy"
    using norm [OF assms(3)] by auto
  then have ef: "edge_for t host (pr_path p) = policy"
    by (simp add: edge_for_def assms(5) edge_at_def m)
  have "edge_at (from_routes m) ?k (pr_path p) = None"
    by (simp add: edge_at_def from_routes_def)
  with insert_edges_at [OF pol] obtain h p' where "(h, p') \<in> set (edge_entries u (cf_sites cfg))"
    "normalize_host h = ?k" "pr_path p' = pr_path p" "policy = edge_policy_of p'"
    by auto
  then show ?thesis
    using norm live_sites_subset ef unfolding edge_entries_member by metis
qed

section \<open>Properties\<close>

text \<open>C2: Configured policies are enforced end to end.  When a configuration (host names in ASCII,
  without ports) has become the routing table and a request is forwarded, some site with a route
  that matches the path serves the host, exactly, as its parent wildcard or as catch-all; the
  plan carries that site's effective GeoIP and security policies, and the authentication, rate
  and cache settings that the configuration gives to that host and path.\<close>
theorem config_policies_enforced:
  assumes "config_to_route_table u url_parse cfg = Inr table" and "plain_hosts cfg"
    and "resolve_forward tcp now finish table host path_and_query st = (Inr plan, st')"
  shows "\<exists>site \<in> set (cf_sites cfg). \<exists>p \<in> set (edge_routes site).
    (site_host u site \<in> {normalize_host host, ''*''} \<or> parent_wildcard (normalize_host host) = Some (site_host u site)) \<and>
    path_matches (route_path_type (pr_path_type p)) (pr_path p) (before CHR ''?'' path_and_query) \<and>
    ma_geoip (fp_middleware plan) = resolve_site_geoip cfg site \<and>
    ma_security (fp_middleware plan) = resolve_site_security cfg site \<and>
    (\<exists>site' \<in> set (cf_sites cfg). \<exists>p' \<in> set (edge_routes site'). site_host u site' = site_host u site \<and>
       pr_path p' = pr_path p \<and> ma_edge (fp_middleware plan) = edge_policy_of p')"
proof -
  obtain route where route: "match_route_entry table host (before CHR ''?'' path_and_query) = Some route"
    and pol: "ma_geoip (fp_middleware plan) = rt_geoip route" "ma_security (fp_middleware plan) = rt_security route"
      "ma_edge (fp_middleware plan) = edge_for table host (rt_path route)"
    using assms(3) by (rule resolve_forward_route)
  obtain rs where rs: "routes_for_host table host = Some rs" and find: "find_route rs (before CHR ''?'' path_and_query) = Some route"
    using route by (auto simp: match_route_entry_def bind_eq_Some_conv)
  have mem: "route \<in> set rs" and pm: "path_matches (rt_path_type route) (rt_path route) (before CHR ''?'' path_and_query)"
    using find by (auto simp: find_route_find find_Some_iff)
  note key = routes_at_matched_key [OF config_table_ok [OF assms(1,2)] rs]
  obtain site p where site: "site \<in> set (live_sites u (cf_sites cfg))" "site_host u site = matched_host_key table host"
    "p \<in> set (edge_routes site)" and p: "rt_path route = pr_path p" "rt_path_type route = route_path_type (pr_path_type p)"
    "rt_geoip route = resolve_site_geoip cfg site" "rt_security route = resolve_site_security cfg site"
    using config_route_origin [OF assms(1) conjunct1 [OF key] mem] by metis
  have "\<exists>site' \<in> set (cf_sites cfg). \<exists>p' \<in> set (edge_routes site'). site_host u site' = site_host u site \<and>
       pr_path p' = pr_path p \<and> ma_edge (fp_middleware plan) = edge_policy_of p'"
    using config_edge_origin [OF assms(1,2) site(1,3) site(2) [symmetric]] pol(3) p(1) by simp
  then show ?thesis
    using live_sites_subset [OF site(1)] site(2,3) conjunct2 [OF key] pm pol(1,2) p
    by (intro bexI [of _ site] bexI [of _ p]) simp_all
qed

definition sample_config :: Config where
  "sample_config = config_default\<lparr>
     cf_backends := [\<lparr>cb_name = ''b'', cb_upstreams = [\<lparr>us_addr = ''10.0.0.1:80'', us_weight = 1\<rparr>],
       cb_algorithm = RoundRobin, cb_health_path = None, cb_health_interval_secs = 0\<rparr>],
     cf_sites := [\<lparr>si_host = ''Ex.org'', si_routes = [path_rewrite_default\<lparr>pr_auth := Some (ApiKey ''k'')\<rparr>],
       si_backend = ''b'', si_security_headers = None, si_ingress_namespace = None,
       si_ingress_name = None, si_k8s_resource_kind = None, si_http3_alt_svc_enabled = True,
       si_forward_client_ip = False, si_access_list_id = None, si_waf_policy_id = None,
       si_geoip = geoip_default, si_security = security_default\<rparr>]\<rparr>"

definition sample_state :: forward_state where
  "sample_state = \<lparr>fs_consul = consul_init, fs_probes = []\<rparr>"

lemma sample_table_eval:
  "config_to_route_table id (\<lambda>_. None) sample_config = Inr
     \<lparr>tb_routes = [(''ex.org'', [site_route ''/'' CPrefix None \<lparr>be_address = ''10.0.0.1:80'', be_port = 80, be_use_tls = False\<rparr>
         False geoip_default security_default])],
      tb_edge = [(''ex.org'', [(''/'', \<lparr>ep_auth = Some (ApiKey ''k''), ep_rate_limit_rps = 0, ep_x4xx_limit_rps = 0, ep_cache = None\<rparr>)])],
      tb_globals = edge_globals_default\<rparr>"
  by (simp add: sample_config_def config_default_def run edge_globals_default_def default_cache_ttl_def hm_extend_def
      del: geoip_normalized_def security_normalized_def)

theorem config_policies_enforced_witness:
  "\<exists>table plan st'. config_to_route_table id (\<lambda>_. None) sample_config = Inr table \<and>
     resolve_forward (\<lambda>_ _ _. NoAddress) 0 0 table ''ex.org'' ''/x'' sample_state = (Inr plan, st') \<and>
     ep_auth (ma_edge (fp_middleware plan)) = Some (ApiKey ''k'')"
proof -
  obtain table where t: "config_to_route_table id (\<lambda>_. None) sample_config = Inr table"
    using sample_table_eval by blast
  have plain: "plain_hosts sample_config"
    by (simp add: plain_hosts_def sample_config_def run is_ascii_def)
  obtain plan st' where f: "resolve_forward (\<lambda>_ _ _. NoAddress) 0 0 table ''ex.org'' ''/x'' sample_state = (Inr plan, st')"
    using t unfolding sample_table_eval by (auto simp: run sample_state_def)
  from config_policies_enforced [OF t plain f] have "ep_auth (ma_edge (fp_middleware plan)) = Some (ApiKey ''k'')"
    by (auto simp: sample_config_def edge_routes_def edge_policy_of_def)
  with t f show ?thesis by blast
qed

text \<open>C33: A configuration is applied as a whole or not at all.  On an error the live router is
  unchanged and the error is that of some site; otherwise every site with a host has its
  routes in the new table, each host has no other routes than those of its sites, and the
  HTTP/3 options are those of the configuration.\<close>
theorem apply_config_atomic:
  "case apply_config u url_parse cfg router of
     (Inl e, router') \<Rightarrow> router' = router \<and>
       (\<exists>site. site \<in> set (live_sites u (cf_sites cfg)) \<and>
          site_routes url_parse cfg (backend_index (cf_backends cfg)) site = Inl e)
   | (Inr _, router') \<Rightarrow> ro_http3 router' = cf_http3 cfg \<and>
       tb_globals (ro_table router') = config_globals cfg \<and>
       list_all (\<lambda>site. \<not> isl (site_routes url_parse cfg (backend_index (cf_backends cfg)) site)) (live_sites u (cf_sites cfg)) \<and>
       (\<forall>host. mset (get_or [] (map_of (tb_routes (ro_table router')) host)) =
          mset (concat (map (\<lambda>site. projr (site_routes url_parse cfg (backend_index (cf_backends cfg)) site))
            (filter (\<lambda>site. site_host u site = host) (live_sites u (cf_sites cfg))))))"
proof (cases "config_to_route_table u url_parse cfg")
  case (Inl e)
  then have "add_sites u url_parse cfg (backend_index (cf_backends cfg)) (cf_sites cfg) [] = Inl e"
    by (cases "add_sites u url_parse cfg (backend_index (cf_backends cfg)) (cf_sites cfg) []")
      (simp_all add: config_to_route_table_def)
  then show ?thesis
    using add_sites_Inl Inl by (fastforce simp: apply_config_def)
next
  case (Inr table)
  note parts = config_table_parts [OF Inr]
  have "tb_globals table = config_globals cfg"
    using Inr by (cases "add_sites u url_parse cfg (backend_index (cf_backends cfg)) (cf_sites cfg) []")
      (auto simp: config_to_route_table_def set_globals_def)
  moreover have "list_all (\<lambda>site. \<not> isl (site_routes url_parse cfg (backend_index (cf_backends cfg)) site)) (live_sites u (cf_sites cfg))"
    using parts(1) unfolding list_all_iff by (metis sum.disc(2))
  ultimately show ?thesis
    by (simp add: Inr apply_config_def replace_all_def replace_http3_def replace_table_def parts(2) sort_routes_def)
qed

section \<open>The path sent upstream\<close>

lemma trim_end_split: "\<exists>k. s = trim_end_matches c s @ replicate k c"
proof -
  have "rev s = takeWhile (\<lambda>d. d = c) (rev s) @ dropWhile (\<lambda>d. d = c) (rev s)"
    by simp
  then have "s = trim_end_matches c s @ rev (takeWhile (\<lambda>d. d = c) (rev s))"
    unfolding trim_end_matches_def by (metis rev_append rev_rev_ident)
  moreover have "takeWhile (\<lambda>d. d = c) xs = replicate (length (takeWhile (\<lambda>d. d = c) xs)) c" for xs
    by (induction xs) auto
  ultimately show ?thesis
    by (metis rev_replicate)
qed

lemma trim_end_clean_char: "\<not> ends_with (trim_end_matches c s) [c]"
proof
  assume "ends_with (trim_end_matches c s) [c]"
  then obtain zs where "rev (dropWhile (\<lambda>d. d = c) (rev s)) = zs @ [c]"
    by (auto simp: trim_end_matches_def ends_with_suffix suffix_def)
  then have "dropWhile (\<lambda>d. d = c) (rev s) = c # rev zs"
    by (metis rev_eq_append_conv rev.simps(2) rev_rev_ident rev_append append_Nil append_Cons)
  then show False
    by (simp add: dropWhile_eq_Cons_conv)
qed

lemma strip_rooted:
  assumes "path_matches path_type rule path" and "path_type \<noteq> ImplementationSpecific" and "starts_with path ''/''"
  shows "case strip_prefix (trim_end_matches CHR ''/'' rule) path of Some [] \<Rightarrow> True | Some s \<Rightarrow> hd s = CHR ''/'' | None \<Rightarrow> True"
proof -
  obtain k where k: "rule = trim_end_matches CHR ''/'' rule @ replicate k CHR ''/''"
    using trim_end_split by blast
  define pre where "pre = trim_end_matches CHR ''/'' rule"
  have cases: "path = rule \<or> (\<exists>t. path = rule @ t \<and> 0 < k) \<or> (\<exists>t. path = rule @ CHR ''/'' # t)"
  proof (cases "ends_with rule ''/''")
    case True
    have "0 < k"
    proof (rule ccontr)
      assume "\<not> 0 < k"
      then have "rule = pre" using k by (simp add: pre_def)
      with True trim_end_clean_char show False
        by (metis pre_def)
    qed
    with True assms(1,2) show ?thesis
      by (cases path_type) (auto simp: path_matches_def starts_with_prefix prefix_def)
  next
    case False
    with assms(1,2) show ?thesis
      by (cases path_type) (auto simp: path_matches_def starts_with_prefix prefix_def)
  qed
  then obtain t where t: "path = pre @ t" "t = [] \<or> hd t = CHR ''/''"
  proof (elim disjE exE conjE)
    assume "path = rule"
    with k show thesis
      by (intro that [of "replicate k CHR ''/''"]) (cases k; simp add: pre_def)+
  next
    fix t assume "path = rule @ t" "0 < k"
    with k show thesis
      by (intro that [of "replicate k CHR ''/'' @ t"]) (cases k; simp add: pre_def)+
  next
    fix t assume "path = rule @ CHR ''/'' # t"
    with k show thesis
      by (intro that [of "replicate k CHR ''/'' @ CHR ''/'' # t"]) (cases k; simp add: pre_def)+
  qed
  then have "strip_prefix pre path = Some t"
    by simp
  with t show ?thesis
    by (cases t) (simp_all add: pre_def [symmetric])
qed

text \<open>For exact and prefix routes the rewritten path stays a path: the prefix that a rewrite to
  the root strips off always ends at a segment boundary, so what is sent upstream starts with a
  slash, and the query is kept unchanged.\<close>
lemma stripped_path_rooted:
  assumes "path_matches path_type rule path" and "path_type \<noteq> ImplementationSpecific"
    and "starts_with path ''/''" and "CHR ''?'' \<notin> set path"
  shows "starts_with (strip_path_prefix path (trim_end_matches CHR ''/'' rule)) ''/'' \<and>
    strip_path_prefix (path @ ''?'' @ query) (trim_end_matches CHR ''/'' rule) =
      strip_path_prefix path (trim_end_matches CHR ''/'' rule) @ ''?'' @ query"
proof -
  have "split_once CHR ''?'' path = None" "split_once CHR ''?'' (path @ CHR ''?'' # query) = Some (path, query)"
    using assms(4) by (simp_all add: split_once_None split_once_Some)
  moreover obtain t where "path = CHR ''/'' # t"
    using assms(3) by (auto simp: starts_with_prefix prefix_def)
  ultimately show ?thesis
    using strip_rooted [OF assms(1-3)]
    by (cases "strip_prefix (trim_end_matches CHR ''/'' rule) path")
      (auto simp: strip_path_prefix_def Let_def starts_with_prefix split: list.splits)
qed

lemma stripped_path_rooted_example:
  "strip_path_prefix ''/api/x'' ''/api'' = ''/x'' \<and> strip_path_prefix ''/api/x?q=1'' ''/api'' = ''/x?q=1''"
  using stripped_path_rooted [of Prefix "''/api/''" "''/api/x''" "''q=1''"] by (simp add: run)

text \<open>
  An implementation-specific route (the default path type) has no such boundary: the part of the
  path after the match is glued to the authority, and a request can choose another host for the
  upstream connection.
\<close>

lemma stripped_path_leaves_authority:
  "path_matches ImplementationSpecific ''/api'' ''/api@evil.org/x'' \<and>
   build_upstream_url \<lparr>be_address = ''10.0.0.1:80'', be_port = 80, be_use_tls = False\<rparr>
     (strip_path_prefix ''/api@evil.org/x'' ''/api'') = ''http://10.0.0.1:80@evil.org/x''"
  by (simp add: run)

text \<open>
  A migrated route file repeats the port in its upstream address, which is not a URL, and the
  text is not read as host and port either.
\<close>

lemma migrated_upstream_unreadable:
  assumes "rt_backend route = \<lparr>be_address = ''10.0.0.1:80'', be_port = 80, be_use_tls = False\<rparr>"
    and "url_parse ''http://10.0.0.1:80:80'' = None"
  shows "parse_upstream url_parse (migrated_upstream route) = None"
  using assms by (simp add: run)

end
