(* ===== verification/Tunnel.thy ===== *)
theory Tunnel
  imports Rust_Str "HOL-Library.AList"
begin

text \<open>
  The reverse tunnel: the length-prefixed wire protocol of src/tunnel/proto/src/lib.rs and the
  session handling of src/tunnel/server/src/main.rs.  JSON coding (serde) is a pair of
  parameters \<^verbatim>\<open>ser\<close> and \<^verbatim>\<open>de\<close>.  A reader is the bytes that will arrive and whether
  the stream then breaks or ends.  A QUIC connection is a number; events arrive one at a time,
  as the write lock on the session orders them.  Sockets, QUIC and TLS setup are not modelled.
\<close>

unbundle bit_operations_syntax

section \<open>Wire protocol\<close>

datatype ProtoError = Io | FrameTooLarge nat | Json | UnexpectedEof

record TunnelGranted =
  tg_name :: string
  tg_remote_port :: u16

datatype ClientControl = Hello (hello_token: string) (hello_tunnels: "string list") | Ping

datatype ServerControl = HelloOk "TunnelGranted list" | HelloErr string | Pong

record OpenConn =
  oc_tunnel :: string

record TunnelStatusEntry =
  te_name :: string
  te_remote_port :: u16
  te_connected :: bool
  te_client_addr :: "string option"
  te_bytes_to_client :: u64
  te_bytes_from_client :: u64
  te_streams :: u64

record TunnelStatus =
  tl_online :: bool
  tl_bytes_to_client :: u64
  tl_bytes_from_client :: u64
  tl_tunnels :: "TunnelStatusEntry list"

definition MAX_FRAME :: nat where
  "MAX_FRAME = 64 * 1024"

definition put_u32 :: "u32 \<Rightarrow> bytes" where
  "put_u32 n = [ucast (drop_bit 24 n), ucast (drop_bit 16 n), ucast (drop_bit 8 n), ucast n]"

fun get_u32 :: "bytes \<Rightarrow> u32" where
  "get_u32 [a, b, c, d] = push_bit 24 (ucast a) OR push_bit 16 (ucast b) OR push_bit 8 (ucast c) OR ucast d"
| "get_u32 _ = 0"

definition write_frame :: "('a \<Rightarrow> bytes option) \<Rightarrow> 'a \<Rightarrow> bytes \<Rightarrow> ProtoError + bytes" where
  "write_frame ser value out =
     (case ser value of
        None \<Rightarrow> Inl Json
      | Some body \<Rightarrow>
          if MAX_FRAME < length body then Inl (FrameTooLarge (length body))
          else Inr (out @ put_u32 (of_nat (length body)) @ body))"

record reader =
  rd_bytes :: bytes
  rd_broken :: bool

definition read_exact :: "nat \<Rightarrow> reader \<Rightarrow> (bool + bytes) \<times> reader" where
  "read_exact n r =
     (if n \<le> length (rd_bytes r) then (Inr (take n (rd_bytes r)), r\<lparr>rd_bytes := drop n (rd_bytes r)\<rparr>)
      else (Inl (rd_broken r), r\<lparr>rd_bytes := []\<rparr>))"

definition read_frame :: "(bytes \<Rightarrow> 'a option) \<Rightarrow> reader \<Rightarrow> (ProtoError + 'a) \<times> reader" where
  "read_frame de r =
     (case read_exact 4 r of
        (Inl broken, r1) \<Rightarrow> (Inl (if broken then Io else UnexpectedEof), r1)
      | (Inr hdr, r1) \<Rightarrow>
          (let len = unat (get_u32 hdr) in
           if MAX_FRAME < len then (Inl (FrameTooLarge len), r1)
           else case read_exact len r1 of
               (Inl _, r2) \<Rightarrow> (Inl Io, r2)
             | (Inr body, r2) \<Rightarrow> (case de body of None \<Rightarrow> (Inl Json, r2) | Some v \<Rightarrow> (Inr v, r2))))"

section \<open>Server\<close>

record TunnelDef =
  td_name :: string
  td_remote_port :: u16

record ClientSession =
  se_conn :: nat
  se_tunnels :: "string list"
  se_addr :: string

record TunnelCounters =
  ct_bytes_to_client :: u64
  ct_bytes_from_client :: u64
  ct_streams :: u64

record AppState =
  ap_token :: string
  ap_tunnels :: "(string, u16) hmap"
  ap_counters :: "(string, TunnelCounters) hmap"
  ap_session :: "ClientSession option"

datatype config_error = NoTunnels | EmptyName | ZeroPort string | DuplicatePort u16 | DuplicateName string

fun check_tunnels :: "TunnelDef list \<Rightarrow> u16 list \<Rightarrow> (string, u16) hmap \<Rightarrow> config_error + (string, u16) hmap" where
  "check_tunnels [] seen m = Inr m"
| "check_tunnels (t # ts) seen m =
     (if trim (td_name t) = [] then Inl EmptyName
      else if td_remote_port t = 0 then Inl (ZeroPort (td_name t))
      else if td_remote_port t \<in> set seen then Inl (DuplicatePort (td_remote_port t))
      else if map_of m (td_name t) \<noteq> None then Inl (DuplicateName (td_name t))
      else check_tunnels ts (td_remote_port t # seen) (AList.update (td_name t) (td_remote_port t) m))"

definition counters_zero :: TunnelCounters where
  "counters_zero = \<lparr>ct_bytes_to_client = 0, ct_bytes_from_client = 0, ct_streams = 0\<rparr>"

definition server_start :: "string \<Rightarrow> TunnelDef list \<Rightarrow> config_error + AppState" where
  "server_start token tunnels =
     (if tunnels = [] then Inl NoTunnels
      else map_sum id (\<lambda>m. \<lparr>ap_token = token, ap_tunnels = m, ap_counters = map (\<lambda>(name, _). (name, counters_zero)) m,
          ap_session = None\<rparr>) (check_tunnels tunnels [] []))"

definition constant_time_eq :: "bytes \<Rightarrow> bytes \<Rightarrow> bool" where
  "constant_time_eq a b =
     (if length a \<noteq> length b then False
      else foldl (\<lambda>diff (x, y). diff OR (x XOR y)) 0 (zip a b) = 0)"

fun grant :: "(string, u16) hmap \<Rightarrow> string list \<Rightarrow> string + TunnelGranted list" where
  "grant tunnels [] = Inr []"
| "grant tunnels (name # wanted) =
     (case map_of tunnels name of
        None \<Rightarrow> Inl name
      | Some port \<Rightarrow> map_sum id (\<lambda>gs. \<lparr>tg_name = name, tg_remote_port = port\<rparr> # gs) (grant tunnels wanted))"

definition unknown_message :: "string \<Rightarrow> (string, u16) hmap \<Rightarrow> string" where
  "unknown_message name tunnels =
     ''unknown tunnel `'' @ name @ ''` (server has: '' @
     (if tunnels = [] then ''(none)'' else join '', '' (map fst tunnels)) @ '')''"

text \<open>The part of a connection up to the reply to its hello: the reply, the connection closed with
  it, and the new state.  \<^verbatim>\<open>None\<close> as message is a failed read.\<close>

record hello_outcome =
  ho_reply :: "ServerControl option"
  ho_closed :: "nat list"

definition rejected :: "nat \<Rightarrow> string \<Rightarrow> hello_outcome" where
  "rejected conn message = \<lparr>ho_reply = Some (HelloErr message), ho_closed = [conn]\<rparr>"

definition handle_hello :: "nat \<Rightarrow> string \<Rightarrow> ClientControl option \<Rightarrow> AppState \<Rightarrow> hello_outcome \<times> AppState" where
  "handle_hello conn remote msg st =
     (case msg of
        Some (Hello token wanted) \<Rightarrow>
          (if \<not> constant_time_eq (as_bytes token) (as_bytes (ap_token st)) then (rejected conn ''invalid token'', st)
           else case grant (ap_tunnels st) wanted of
               Inl name \<Rightarrow> (rejected conn (unknown_message name (ap_tunnels st)), st)
             | Inr granted \<Rightarrow>
                 if granted = [] then (rejected conn ''no tunnels requested'', st)
                 else (\<lparr>ho_reply = Some (HelloOk granted),
                        ho_closed = (case ap_session st of Some old \<Rightarrow> [se_conn old] | None \<Rightarrow> [])\<rparr>,
                       st\<lparr>ap_session := Some \<lparr>se_conn = conn, se_tunnels = remdups wanted, se_addr = remote\<rparr>\<rparr>))
      | _ \<Rightarrow> (\<lparr>ho_reply = None, ho_closed = []\<rparr>, st))"

fun control_loop :: "ClientControl option list \<Rightarrow> ServerControl list" where
  "control_loop (Some Ping # ms) = Pong # control_loop ms"
| "control_loop _ = []"

definition end_session :: "string \<Rightarrow> AppState \<Rightarrow> AppState" where
  "end_session remote st =
     (if get_or False (map_option (\<lambda>s. se_addr s = remote) (ap_session st)) then st\<lparr>ap_session := None\<rparr> else st)"

definition forward_target :: "string \<Rightarrow> AppState \<Rightarrow> nat option" where
  "forward_target name st =
     (case ap_session st of
        None \<Rightarrow> None
      | Some sess \<Rightarrow> if name \<in> set (se_tunnels sess) then Some (se_conn sess) else None)"

definition count_stream :: "string \<Rightarrow> u64 \<Rightarrow> u64 \<Rightarrow> AppState \<Rightarrow> AppState" where
  "count_stream name to_client from_client st =
     (case map_of (ap_counters st) name of
        None \<Rightarrow> st
      | Some c \<Rightarrow> st\<lparr>ap_counters := AList.update name
          \<lparr>ct_bytes_to_client = ct_bytes_to_client c + to_client,
           ct_bytes_from_client = ct_bytes_from_client c + from_client, ct_streams = ct_streams c + 1\<rparr> (ap_counters st)\<rparr>)"

definition status_entry :: "AppState \<Rightarrow> string \<times> u16 \<Rightarrow> TunnelStatusEntry" where
  "status_entry st np =
     (let active = get_or [] (map_option se_tunnels (ap_session st));
          c = get_or counters_zero (map_of (ap_counters st) (fst np))
      in \<lparr>te_name = fst np, te_remote_port = snd np, te_connected = (ap_session st \<noteq> None \<and> fst np \<in> set active),
          te_client_addr = (if fst np \<in> set active then map_option se_addr (ap_session st) else None),
          te_bytes_to_client = ct_bytes_to_client c, te_bytes_from_client = ct_bytes_from_client c,
          te_streams = ct_streams c\<rparr>)"

definition status_handler :: "AppState \<Rightarrow> TunnelStatus" where
  "status_handler st =
     (let tunnels = map (status_entry st) (ap_tunnels st)
      in \<lparr>tl_online = (ap_session st \<noteq> None), tl_bytes_to_client = sum_list (map te_bytes_to_client tunnels),
          tl_bytes_from_client = sum_list (map te_bytes_from_client tunnels), tl_tunnels = tunnels\<rparr>)"

lemmas tunnel_defs [run] = MAX_FRAME_def put_u32_def write_frame_def read_exact_def read_frame_def counters_zero_def
  server_start_def constant_time_eq_def unknown_message_def rejected_def handle_hello_def end_session_def
  forward_target_def count_stream_def status_entry_def status_handler_def

section \<open>Frames\<close>

lemma get_put_u32: "get_u32 (put_u32 n) = n"
proof -
  have "push_bit 24 (ucast (ucast (drop_bit 24 n) :: 8 word)) OR push_bit 16 (ucast (ucast (drop_bit 16 n) :: 8 word)) OR
      push_bit 8 (ucast (ucast (drop_bit 8 n) :: 8 word)) OR ucast (ucast n :: 8 word) = n" (is "?w = n")
  proof (rule bit_word_eqI)
    fix k
    assume "k < LENGTH(32)"
    then consider "k < 8" | "8 \<le> k" "k < 16" | "16 \<le> k" "k < 24" | "24 \<le> k" "k < 32"
      by (simp, linarith)
    then show "bit ?w k \<longleftrightarrow> bit n k"
      by cases (auto simp: bit_simps less_diff_conv2)
  qed
  then show ?thesis
    by (simp add: put_u32_def)
qed

lemma length_put_u32 [simp]: "length (put_u32 n) = 4"
  by (simp add: put_u32_def)

lemma read_exact_append: "length a = n \<Longrightarrow> read_exact n \<lparr>rd_bytes = a @ b, rd_broken = e\<rparr> = (Inr a, \<lparr>rd_bytes = b, rd_broken = e\<rparr>)"
  by (auto simp: read_exact_def)

lemma unat_frame_length: "n \<le> MAX_FRAME \<Longrightarrow> unat (of_nat n :: u32) = n"
  by (simp add: MAX_FRAME_def unat_of_nat take_bit_nat_eq_self)

lemma read_frame_body:
  assumes "length body \<le> MAX_FRAME"
  shows "read_frame de \<lparr>rd_bytes = put_u32 (of_nat (length body)) @ body @ rest, rd_broken = e\<rparr> =
    ((case de body of None \<Rightarrow> Inl Json | Some v \<Rightarrow> Inr v), \<lparr>rd_bytes = rest, rd_broken = e\<rparr>)"
  using assms by (simp add: read_frame_def read_exact_append get_put_u32 unat_frame_length split: option.split)

lemma constant_time_eq_iff: "constant_time_eq a b \<longleftrightarrow> a = b"
proof -
  have or0: "x OR y = 0 \<longleftrightarrow> x = 0 \<and> y = 0" for x y :: u8
    by (auto simp: bit_eq_iff bit_or_iff)
  have xor0: "x XOR y = 0 \<longleftrightarrow> x = y" for x y :: u8
    by (auto simp: bit_eq_iff bit_xor_iff)
  have fold: "foldl (\<lambda>diff (x, y). diff OR (x XOR y)) d (zip a b) = 0 \<longleftrightarrow> d = 0 \<and> a = b"
    if "length a = length b" for a b and d :: u8
    using that by (induction a b arbitrary: d rule: list_induct2) (auto simp: or0 xor0)
  show ?thesis
    using fold [of a b 0] by (auto simp: constant_time_eq_def)
qed

fun write_frames :: "('a \<Rightarrow> bytes option) \<Rightarrow> 'a list \<Rightarrow> bytes \<Rightarrow> ProtoError + bytes" where
  "write_frames ser [] out = Inr out"
| "write_frames ser (v # vs) out =
     (case write_frame ser v out of Inl e \<Rightarrow> Inl e | Inr out' \<Rightarrow> write_frames ser vs out')"

fun read_frames :: "(bytes \<Rightarrow> 'a option) \<Rightarrow> nat \<Rightarrow> reader \<Rightarrow> (ProtoError + 'a list) \<times> reader" where
  "read_frames de 0 r = (Inr [], r)"
| "read_frames de (Suc n) r =
     (case read_frame de r of
        (Inl e, r1) \<Rightarrow> (Inl e, r1)
      | (Inr v, r1) \<Rightarrow> (case read_frames de n r1 of (Inl e, r2) \<Rightarrow> (Inl e, r2) | (Inr vs, r2) \<Rightarrow> (Inr (v # vs), r2)))"

lemma write_frame_Inr:
  "write_frame ser v out = Inr out' \<longleftrightarrow>
     (\<exists>body. ser v = Some body \<and> length body \<le> MAX_FRAME \<and> out' = out @ put_u32 (of_nat (length body)) @ body)"
  by (auto simp: write_frame_def split: option.splits)

lemma write_frames_Cons:
  assumes "write_frames ser (v # vs) out = Inr out'"
  obtains body rest where "ser v = Some body" and "length body \<le> MAX_FRAME"
    and "write_frames ser vs (out @ put_u32 (of_nat (length body)) @ body) = Inr out'"
  using assms by (auto simp: write_frame_Inr split: sum.splits)

lemma write_frames_append:
  "write_frames ser vs out = Inr out' \<Longrightarrow> \<exists>bs. out' = out @ bs \<and> (\<forall>pre. write_frames ser vs pre = Inr (pre @ bs))"
proof (induction vs arbitrary: out)
  case (Cons v vs)
  then obtain body where body: "ser v = Some body" "length body \<le> MAX_FRAME"
    "write_frames ser vs (out @ put_u32 (of_nat (length body)) @ body) = Inr out'"
    by (elim write_frames_Cons)
  from Cons.IH [OF body(3)] obtain bs where "out' = (out @ put_u32 (of_nat (length body)) @ body) @ bs"
    "\<forall>pre. write_frames ser vs pre = Inr (pre @ bs)"
    by blast
  with body(1,2) show ?case
    by (intro exI [of _ "put_u32 (of_nat (length body)) @ body @ bs"]) (simp add: write_frame_def)
qed simp

lemma read_frame_cut:
  assumes "length body \<le> MAX_FRAME" and "k < 4 + length body"
  shows "isl (fst (read_frame de \<lparr>rd_bytes = take k (put_u32 (of_nat (length body)) @ body), rd_broken = e\<rparr>))"
proof (cases "k < 4")
  case True
  then show ?thesis by (simp add: read_frame_def read_exact_def)
next
  case False
  then have "take k (put_u32 (of_nat (length body)) @ body) = put_u32 (of_nat (length body)) @ take (k - 4) body"
    by simp
  moreover have "read_exact (length body) \<lparr>rd_bytes = take (k - 4) body, rd_broken = e\<rparr> = (Inl e, \<lparr>rd_bytes = [], rd_broken = e\<rparr>)"
    using assms(2) False by (auto simp: read_exact_def)
  ultimately show ?thesis
    using assms(1) by (simp add: read_frame_def read_exact_append get_put_u32 unat_frame_length)
qed

section \<open>Sessions\<close>

datatype tunnel_event =
    Connect nat string "ClientControl option"
  | Close string
  | Relay string u64 u64

fun tunnel_step :: "AppState \<Rightarrow> tunnel_event \<Rightarrow> AppState" where
  "tunnel_step st (Connect conn remote msg) = snd (handle_hello conn remote msg st)"
| "tunnel_step st (Close remote) = end_session remote st"
| "tunnel_step st (Relay name to_client from_client) = count_stream name to_client from_client st"

lemma grant_Inr: "grant tunnels wanted = Inr gs \<Longrightarrow> set wanted \<subseteq> dom (map_of tunnels) \<and> map tg_name gs = wanted"
proof (induction wanted arbitrary: gs)
  case (Cons name wanted)
  then show ?case
    by (cases "grant tunnels wanted") (auto split: option.splits)
qed simp

lemma step_config [simp]:
  "ap_token (tunnel_step st ev) = ap_token st" "ap_tunnels (tunnel_step st ev) = ap_tunnels st"
  by (cases ev; simp add: handle_hello_def end_session_def count_stream_def
      split: option.splits ClientControl.splits sum.splits)+

lemma run_config [simp]:
  "ap_token (foldl tunnel_step st evs) = ap_token st" "ap_tunnels (foldl tunnel_step st evs) = ap_tunnels st"
  by (induction evs arbitrary: st) simp_all

lemma handle_hello_session:
  assumes "ap_session (snd (handle_hello conn remote msg st)) = Some s"
  shows "ap_session st = Some s \<or>
    (\<exists>wanted. msg = Some (Hello (ap_token st) wanted) \<and> se_conn s = conn \<and> set (se_tunnels s) = set wanted \<and>
       set wanted \<subseteq> dom (map_of (ap_tunnels st)))"
proof (cases msg)
  case (Some m)
  show ?thesis
  proof (cases m)
    case (Hello token wanted)
    then show ?thesis
      using assms Some grant_Inr [of "ap_tunnels st" wanted]
      by (auto simp: handle_hello_def constant_time_eq_iff as_bytes_inj split: if_splits sum.splits)
  next
    case Ping
    then show ?thesis
      using assms Some by (simp add: handle_hello_def)
  qed
qed (use assms in \<open>simp add: handle_hello_def\<close>)

lemma session_origin:
  assumes "ap_session st = None" and "ap_session (foldl tunnel_step st evs) = Some s"
  shows "\<exists>remote wanted. Connect (se_conn s) remote (Some (Hello (ap_token st) wanted)) \<in> set evs \<and>
    set (se_tunnels s) = set wanted \<and> set wanted \<subseteq> dom (map_of (ap_tunnels st))"
  using assms(2)
proof (induction evs arbitrary: s rule: rev_induct)
  case Nil
  then show ?case using assms(1) by simp
next
  case (snoc ev evs)
  let ?st = "foldl tunnel_step st evs"
  have "ap_session ?st = Some s \<or> (\<exists>remote wanted. ev = Connect (se_conn s) remote (Some (Hello (ap_token st) wanted)) \<and>
      set (se_tunnels s) = set wanted \<and> set wanted \<subseteq> dom (map_of (ap_tunnels st)))"
  proof (cases ev)
    case (Connect conn remote msg)
    then show ?thesis
      using snoc.prems handle_hello_session [of conn remote msg ?st s] by (simp, blast)
  qed (use snoc.prems in \<open>auto simp: end_session_def count_stream_def split: if_splits option.splits\<close>)
  then show ?case
  proof
    assume "ap_session ?st = Some s"
    from snoc.IH [OF this] show ?case by (simp, blast)
  next
    assume "\<exists>remote wanted. ev = Connect (se_conn s) remote (Some (Hello (ap_token st) wanted)) \<and>
      set (se_tunnels s) = set wanted \<and> set wanted \<subseteq> dom (map_of (ap_tunnels st))"
    then show ?case by (simp, blast)
  qed
qed

lemma check_tunnels_names:
  "check_tunnels ts seen m = Inr m' \<Longrightarrow> fst ` set m' = td_name ` set ts \<union> fst ` set m"
  by (induction ts seen m rule: check_tunnels.induct) (auto simp: dom_update split: if_splits)

section \<open>Properties\<close>

text \<open>C40: The wire protocol is lossless and unambiguous: messages written one after the other are read
  back in order and leave whatever follows untouched, and a stream cut at any earlier byte gives
  an error instead of messages.  JSON decoding is only assumed to invert encoding.\<close>
theorem frame_stream_roundtrip:
  assumes "\<And>v body. ser v = Some body \<Longrightarrow> de body = Some v" and "write_frames ser vs [] = Inr bs"
  shows "read_frames de (length vs) \<lparr>rd_bytes = bs @ rest, rd_broken = e\<rparr> = (Inr vs, \<lparr>rd_bytes = rest, rd_broken = e\<rparr>) \<and>
    (\<forall>k < length bs. isl (fst (read_frames de (length vs) \<lparr>rd_bytes = take k bs, rd_broken = e\<rparr>)))"
  using assms(2)
proof (induction vs arbitrary: bs)
  case (Cons v vs)
  obtain body where body: "ser v = Some body" "length body \<le> MAX_FRAME"
    "write_frames ser vs ([] @ put_u32 (of_nat (length body)) @ body) = Inr bs"
    using Cons.prems by (elim write_frames_Cons)
  let ?f = "put_u32 (of_nat (length body)) @ body"
  obtain bs' where bs': "bs = ?f @ bs'" "write_frames ser vs [] = Inr bs'"
    using write_frames_append [OF body(3)] by auto
  note IH = Cons.IH [OF bs'(2)]
  have de: "de body = Some v"
    using assms(1) body(1) .
  have "isl (fst (read_frames de (length (v # vs)) \<lparr>rd_bytes = take k bs, rd_broken = e\<rparr>))" if "k < length bs" for k
  proof (cases "k < 4 + length body")
    case True
    then have "take k bs = take k ?f"
      by (simp add: bs'(1))
    then show ?thesis
      using read_frame_cut [OF body(2) True, of de e]
      by (auto simp: isl_def split: prod.splits sum.splits)
  next
    case False
    then have "take k bs = put_u32 (of_nat (length body)) @ body @ take (k - (4 + length body)) bs'"
      by (simp add: bs'(1))
    moreover have "k - (4 + length body) < length bs'"
      using that False by (simp add: bs'(1))
    ultimately show ?thesis
      using IH read_frame_body [OF body(2), of de] de
      by (auto simp: isl_def split: prod.splits sum.splits)
  qed
  then show ?case
    using IH read_frame_body [OF body(2), of de] de by (simp add: bs'(1))
qed simp

theorem frame_stream_roundtrip_witness:
  "read_frames (\<lambda>b. Some b) (length [[7], [8, 9 :: u8]]) \<lparr>rd_bytes = [0, 0, 0, 1, 7, 0, 0, 0, 2, 8, 9] @ [5], rd_broken = False\<rparr> =
     (Inr [[7], [8, 9]], \<lparr>rd_bytes = [5], rd_broken = False\<rparr>)"
proof -
  have "write_frames (\<lambda>b. Some b) [[7], [8, 9]] [] = Inr [0, 0, 0, 1, 7, 0, 0, 0, 2, 8, 9]"
    by (simp add: run)
  from frame_stream_roundtrip [OF _ this, of "\<lambda>b. Some b" "[5]" False] show ?thesis
    by blast
qed

text \<open>C5: Traffic only reaches authorised clients: in every history of connections, disconnections and
  relayed streams, the connection over which a tunnel is served has opened with the configured
  token and asked for that tunnel, which is one of the configured ones.\<close>
theorem tunnel_relay_authorized:
  assumes "server_start token tunnels = Inr st"
    and "forward_target name (foldl tunnel_step st events) = Some conn"
  shows "name \<in> td_name ` set tunnels \<and>
    (\<exists>remote wanted. Connect conn remote (Some (Hello token wanted)) \<in> set events \<and> name \<in> set wanted)"
proof -
  obtain m where m: "check_tunnels tunnels [] [] = Inr m"
    and st: "ap_token st = token" "ap_session st = None" "ap_tunnels st = m"
    using assms(1) by (cases "check_tunnels tunnels [] []") (auto simp: server_start_def split: if_splits)
  obtain s where s: "ap_session (foldl tunnel_step st events) = Some s" "name \<in> set (se_tunnels s)" "conn = se_conn s"
    using assms(2) by (auto simp: forward_target_def split: option.splits if_splits)
  from session_origin [OF st(2) s(1)] obtain remote wanted where
    o: "Connect conn remote (Some (Hello token wanted)) \<in> set events" "name \<in> set wanted" "set wanted \<subseteq> dom (map_of m)"
    using s st by auto
  then have "name \<in> td_name ` set tunnels"
    using check_tunnels_names [OF m] by (auto simp: dom_map_of_conv_image_fst)
  with o show ?thesis by blast
qed

theorem tunnel_relay_authorized_witness:
  "forward_target ''a'' (foldl tunnel_step \<lparr>ap_token = ''t'', ap_tunnels = [(''a'', 80)], ap_counters = [(''a'', counters_zero)],
     ap_session = None\<rparr> [Connect 7 ''x'' (Some (Hello ''t'' [''a'']))]) = Some 7 \<and> ''a'' \<in> td_name ` {\<lparr>td_name = ''a'', td_remote_port = 80\<rparr>}"
proof -
  let ?st = "\<lparr>ap_token = ''t'', ap_tunnels = [(''a'', 80)], ap_counters = [(''a'', counters_zero)], ap_session = None\<rparr>"
  have 1: "server_start ''t'' [\<lparr>td_name = ''a'', td_remote_port = 80\<rparr>] = Inr ?st"
    by (simp add: run)
  have 2: "forward_target ''a'' (foldl tunnel_step ?st [Connect 7 ''x'' (Some (Hello ''t'' [''a'']))]) = Some 7"
    by (simp add: run constant_time_eq_iff)
  from tunnel_relay_authorized [OF 1 2] 2 show ?thesis by simp
qed

text \<open>
  A session is cleared by the remote address of the connection that ends.  When a client
  reconnects from the same address, the end of the replaced connection therefore removes the
  session of the new one, which stays connected but is no longer used.
\<close>

lemma stale_close_clears_new_session:
  fixes st :: AppState
  defines "st \<equiv> \<lparr>ap_token = ''t'', ap_tunnels = [(''a'', 80)], ap_counters = [(''a'', counters_zero)], ap_session = None\<rparr>"
    and "first \<equiv> Connect 1 ''x'' (Some (Hello ''t'' [''a'']))" and "second \<equiv> Connect 2 ''x'' (Some (Hello ''t'' [''a'']))"
  shows "forward_target ''a'' (foldl tunnel_step st [first, second]) = Some 2 \<and>
    forward_target ''a'' (foldl tunnel_step st [first, second, Close ''x'']) = None"
  by (simp add: assms handle_hello_def end_session_def forward_target_def constant_time_eq_iff)

end
