(* ===== verification/Leader_Election.thy ===== *)
theory Leader_Election
  imports Rust_Str "HOL-Library.AList"
begin

text \<open>
  Leader election over a Kubernetes Lease, after src/src/ingress/leader_election.rs.  Time is a
  number of nanoseconds on one clock shared by the replicas; \<^verbatim>\<open>lo\<close> and \<^verbatim>\<open>hi\<close> bound the
  representable timestamps.  The API server is the shared lease with its resource version:
  \<^verbatim>\<open>get\<close> copies it, \<^verbatim>\<open>create\<close> succeeds when there is none, \<^verbatim>\<open>replace\<close>
  succeeds when the version is the one that was read and answers 409 otherwise.  A request may
  also fail, with or without having taken effect.  Replicas interleave between reading the
  clock, reading the lease and writing it.
\<close>

section \<open>Configuration\<close>

definition DEFAULT_LEASE_DURATION_SECONDS :: i32 where
  "DEFAULT_LEASE_DURATION_SECONDS = 15"

definition DEFAULT_RENEW_INTERVAL_SECONDS :: u64 where
  "DEFAULT_RENEW_INTERVAL_SECONDS = 5"

record LeaderElectionConfig =
  lc_namespace :: string
  lc_lease_name :: string
  lc_holder_id :: string
  lc_lease_duration_seconds :: i32
  lc_renew_interval_seconds :: u64

type_synonym env = "string \<Rightarrow> string option"

definition env_flag :: "env \<Rightarrow> string \<Rightarrow> bool \<Rightarrow> bool" where
  "env_flag env key dflt =
     get_or dflt (map_option (\<lambda>v. v \<in> {''1'', ''true'', ''TRUE'', ''yes'', ''YES''}) (env key))"

definition visible :: "string \<Rightarrow> bool" where
  "visible s \<longleftrightarrow> trim s \<noteq> []"

definition resolve_namespace :: "env \<Rightarrow> (string \<Rightarrow> string option) \<Rightarrow> string" where
  "resolve_namespace env fs_read =
     (case filter_opt visible (env ''PERTISK_LEADER_ELECTION_NAMESPACE'') of
        Some ns \<Rightarrow> ns
      | None \<Rightarrow>
     (case filter_opt visible (env ''POD_NAMESPACE'') of
        Some ns \<Rightarrow> ns
      | None \<Rightarrow>
     (case filter_opt visible (fs_read ''/var/run/secrets/kubernetes.io/serviceaccount/namespace'') of
        Some ns \<Rightarrow> trim ns
      | None \<Rightarrow> ''default'')))"

fun first_visible :: "env \<Rightarrow> string list \<Rightarrow> string option" where
  "first_visible env [] = None"
| "first_visible env (key # keys) =
     (case filter_opt visible (env key) of Some value \<Rightarrow> Some value | None \<Rightarrow> first_visible env keys)"

definition resolve_holder_id :: "env \<Rightarrow> string \<Rightarrow> string" where
  "resolve_holder_id env uuid =
     get_or (''pertisk-'' @ uuid) (first_visible env [''PERTISK_POD_NAME'', ''POD_NAME'', ''HOSTNAME''])"

definition resolve_lease_name :: "env \<Rightarrow> string \<Rightarrow> string" where
  "resolve_lease_name env default_name = get_or default_name (filter_opt visible (env ''PERTISK_LEADER_ELECTION_NAME''))"

definition parse_i32 :: "string \<Rightarrow> i32 option" where
  "parse_i32 s =
     (case s of
        c # t \<Rightarrow>
          if c = CHR ''-'' then map_option (\<lambda>n. - of_nat n) (filter_opt (\<lambda>n. n \<le> 2 ^ 31) (parse_digits t))
          else map_option of_nat (parse_bounded (2 ^ 31) s)
      | [] \<Rightarrow> None)"

definition resolve_lease_duration_seconds :: "env \<Rightarrow> i32" where
  "resolve_lease_duration_seconds env =
     get_or DEFAULT_LEASE_DURATION_SECONDS
       (filter_opt (\<lambda>v. 0 < sint v) (Option.bind (env ''PERTISK_LEADER_ELECTION_LEASE_DURATION_SECONDS'') parse_i32))"

definition resolve_renew_interval_seconds :: "env \<Rightarrow> u64" where
  "resolve_renew_interval_seconds env =
     get_or DEFAULT_RENEW_INTERVAL_SECONDS
       (filter_opt (\<lambda>v. 0 < v) (Option.bind (env ''PERTISK_LEADER_ELECTION_RENEW_INTERVAL_SECONDS'') parse_word))"

section \<open>The lease\<close>

record LeaseSpec =
  ls_holder_identity :: "string option"
  ls_lease_duration_seconds :: "i32 option"
  ls_acquire_time :: "int option"
  ls_renew_time :: "int option"

record Lease =
  le_resource_version :: nat
  le_spec :: "LeaseSpec option"

definition new_lease_spec :: "LeaderElectionConfig \<Rightarrow> int \<Rightarrow> bool \<Rightarrow> LeaseSpec" where
  "new_lease_spec config now acquired =
     \<lparr>ls_holder_identity = Some (lc_holder_id config), ls_lease_duration_seconds = Some (lc_lease_duration_seconds config),
      ls_acquire_time = (if acquired then Some now else None), ls_renew_time = Some now\<rparr>"

definition current_lease_state :: "Lease \<Rightarrow> string option \<times> int option \<times> i32" where
  "current_lease_state lease =
     (Option.bind (le_spec lease) ls_holder_identity, Option.bind (le_spec lease) ls_renew_time,
      get_or DEFAULT_LEASE_DURATION_SECONDS (Option.bind (le_spec lease) ls_lease_duration_seconds))"

definition checked :: "int \<Rightarrow> int \<Rightarrow> int \<Rightarrow> int option" where
  "checked lo hi t = (if lo \<le> t \<and> t \<le> hi then Some t else None)"

definition is_expired :: "int \<Rightarrow> int \<Rightarrow> int option \<Rightarrow> i32 \<Rightarrow> int \<Rightarrow> bool" where
  "is_expired lo hi renew_time lease_duration now =
     (let secs = scast lease_duration :: u64;
          renew = (case renew_time of
              Some t \<Rightarrow> t
            | None \<Rightarrow> get_or now (checked lo hi (now - uint (secs * 2) * 1000000000)));
          expiry = get_or now (checked lo hi (renew + uint secs * 1000000000))
      in expiry < now)"

definition next_lease_spec :: "LeaderElectionConfig \<Rightarrow> int \<Rightarrow> bool \<Rightarrow> int option \<Rightarrow> LeaseSpec" where
  "next_lease_spec config now is_owner renew_time =
     \<lparr>ls_holder_identity = Some (lc_holder_id config), ls_lease_duration_seconds = Some (lc_lease_duration_seconds config),
      ls_acquire_time = (if is_owner then renew_time else Some now), ls_renew_time = Some now\<rparr>"

datatype attempt = Skip | CreateLease LeaseSpec | ReplaceLease nat LeaseSpec

definition try_acquire_or_renew :: "int \<Rightarrow> int \<Rightarrow> LeaderElectionConfig \<Rightarrow> int \<Rightarrow> Lease option \<Rightarrow> attempt" where
  "try_acquire_or_renew lo hi config now lease =
     (case lease of
        None \<Rightarrow> CreateLease (new_lease_spec config now True)
      | Some current \<Rightarrow>
          (let (current_holder, renew_time, lease_duration) = current_lease_state current;
               expired = is_expired lo hi renew_time lease_duration now;
               is_owner = (current_holder = Some (lc_holder_id config))
           in if \<not> expired \<and> \<not> is_owner then Skip
              else ReplaceLease (le_resource_version current) (next_lease_spec config now is_owner renew_time)))"

text \<open>The API server: a write that takes effect gives the lease a fresh version.\<close>

definition api_write :: "attempt \<Rightarrow> Lease option \<Rightarrow> Lease option" where
  "api_write a lease =
     (case (a, lease) of
        (CreateLease spec, None) \<Rightarrow> Some \<lparr>le_resource_version = 1, le_spec = Some spec\<rparr>
      | (ReplaceLease v spec, Some current) \<Rightarrow>
          if le_resource_version current = v then Some \<lparr>le_resource_version = Suc v, le_spec = Some spec\<rparr> else None
      | _ \<Rightarrow> None)"

section \<open>Replicas\<close>

record replica =
  rp_leader :: bool
  rp_renewed :: int
  rp_started :: "int option"
  rp_seen :: "Lease option option"

record cluster =
  cl_clock :: int
  cl_lease :: "Lease option"
  cl_replicas :: "string \<Rightarrow> replica"

abbreviation replica_of :: "cluster \<Rightarrow> string \<Rightarrow> replica" where
  "replica_of c n \<equiv> cl_replicas c n"

definition set_replica :: "string \<Rightarrow> replica \<Rightarrow> cluster \<Rightarrow> cluster" where
  "set_replica n r c = c\<lparr>cl_replicas := (cl_replicas c)(n := r)\<rparr>"

definition finish :: "bool \<Rightarrow> replica \<Rightarrow> replica" where
  "finish leader r =
     r\<lparr>rp_leader := leader, rp_renewed := (if leader then get_or 0 (rp_started r) else rp_renewed r),
       rp_started := None, rp_seen := None\<rparr>"

inductive step :: "int \<Rightarrow> int \<Rightarrow> (string \<Rightarrow> LeaderElectionConfig) \<Rightarrow> cluster \<Rightarrow> cluster \<Rightarrow> bool"
  for lo hi :: int and config :: "string \<Rightarrow> LeaderElectionConfig" where
  Tick: "cl_clock c \<le> t \<Longrightarrow> step lo hi config c (c\<lparr>cl_clock := t\<rparr>)"
| Start: "rp_started (replica_of c n) = None \<Longrightarrow>
    step lo hi config c (set_replica n ((replica_of c n)\<lparr>rp_started := Some (cl_clock c)\<rparr>) c)"
| Read: "rp_started (replica_of c n) = Some now \<Longrightarrow> rp_seen (replica_of c n) = None \<Longrightarrow>
    step lo hi config c (set_replica n ((replica_of c n)\<lparr>rp_seen := Some (cl_lease c)\<rparr>) c)"
| Skipped: "rp_started (replica_of c n) = Some now \<Longrightarrow> rp_seen (replica_of c n) = Some seen \<Longrightarrow>
    try_acquire_or_renew lo hi (config n) now seen = Skip \<Longrightarrow>
    step lo hi config c (set_replica n (finish False (replica_of c n)) c)"
| Written: "rp_started (replica_of c n) = Some now \<Longrightarrow> rp_seen (replica_of c n) = Some seen \<Longrightarrow>
    api_write (try_acquire_or_renew lo hi (config n) now seen) (cl_lease c) = Some lease \<Longrightarrow>
    step lo hi config c (set_replica n (finish True (replica_of c n)) (c\<lparr>cl_lease := Some lease\<rparr>))"
| Conflict: "rp_started (replica_of c n) = Some now \<Longrightarrow> rp_seen (replica_of c n) = Some seen \<Longrightarrow>
    api_write (try_acquire_or_renew lo hi (config n) now seen) (cl_lease c) = None \<Longrightarrow>
    step lo hi config c (set_replica n (finish False (replica_of c n)) c)"
| Lost: "rp_started (replica_of c n) = Some now \<Longrightarrow> rp_seen (replica_of c n) = Some seen \<Longrightarrow>
    api_write (try_acquire_or_renew lo hi (config n) now seen) (cl_lease c) = Some lease \<Longrightarrow>
    step lo hi config c (set_replica n (finish False (replica_of c n)) (c\<lparr>cl_lease := Some lease\<rparr>))"
| Failed: "rp_started (replica_of c n) = Some now \<Longrightarrow>
    step lo hi config c (set_replica n (finish False (replica_of c n)) c)"

definition cluster_init :: "int \<Rightarrow> cluster" where
  "cluster_init t = \<lparr>cl_clock = t, cl_lease = None,
     cl_replicas = (\<lambda>_. \<lparr>rp_leader = False, rp_renewed = 0, rp_started = None, rp_seen = None\<rparr>)\<rparr>"

inductive reachable :: "int \<Rightarrow> int \<Rightarrow> (string \<Rightarrow> LeaderElectionConfig) \<Rightarrow> cluster \<Rightarrow> bool"
  for lo hi :: int and config :: "string \<Rightarrow> LeaderElectionConfig" where
  Init: "reachable lo hi config (cluster_init t)"
| Step: "reachable lo hi config c \<Longrightarrow> step lo hi config c c' \<Longrightarrow> reachable lo hi config c'"

inductive_cases stepE: "step lo hi config c c'"

section \<open>The lease protects its holder\<close>

definition dur :: "i32 \<Rightarrow> int" where
  "dur D = sint D * 1000000000"

lemma uint_scast_pos: "0 < sint D \<Longrightarrow> uint (scast D :: u64) = sint D" for D :: i32
proof -
  assume "0 < sint D"
  moreover have "sint D < 2 ^ 31"
    using sint_lt [of D] by simp
  ultimately have "sint D mod 2 ^ 64 = sint D"
    by (intro mod_pos_pos_trivial) simp_all
  then show ?thesis
    by (simp only: scast_eq uint_word_of_int) simp
qed

lemma expired_after: "0 < sint D \<Longrightarrow> is_expired lo hi (Some r) D now \<Longrightarrow> r + dur D < now"
  by (auto simp: is_expired_def checked_def dur_def uint_scast_pos Let_def split: if_splits)

text \<open>The lease names a holder and its last renewal; every other replica that still believes to lead
  renewed so long before that its own lease had run out.\<close>

definition holder_inv :: "i32 \<Rightarrow> cluster \<Rightarrow> string \<Rightarrow> int \<Rightarrow> bool" where
  "holder_inv D c h r \<longleftrightarrow>
     (\<forall>n. rp_leader (replica_of c n) \<longrightarrow>
        (if n = h then rp_renewed (replica_of c n) \<le> r else rp_renewed (replica_of c n) + dur D < r)) \<and>
     (\<forall>now. rp_started (replica_of c h) = Some now \<longrightarrow> r \<le> now) \<and> r \<le> cl_clock c"

definition held :: "i32 \<Rightarrow> string \<Rightarrow> int \<Rightarrow> Lease \<Rightarrow> bool" where
  "held D h r l \<longleftrightarrow> (\<exists>a. le_spec l = Some \<lparr>ls_holder_identity = Some h, ls_lease_duration_seconds = Some D,
     ls_acquire_time = a, ls_renew_time = Some r\<rparr>)"

definition lease_inv :: "i32 \<Rightarrow> cluster \<Rightarrow> bool" where
  "lease_inv D c \<longleftrightarrow>
     (case cl_lease c of
        None \<Rightarrow> \<forall>n. \<not> rp_leader (replica_of c n)
      | Some l \<Rightarrow> \<exists>h r. held D h r l \<and> holder_inv D c h r)"

lemma lease_inv_keep:
  assumes "lease_inv D c" and "cl_lease c' = cl_lease c"
    and "\<And>h r. holder_inv D c h r \<Longrightarrow> holder_inv D c' h r" and "\<And>n. rp_leader (replica_of c' n) \<Longrightarrow> rp_leader (replica_of c n)"
  shows "lease_inv D c'"
proof (cases "cl_lease c")
  case None
  then show ?thesis
    using assms(1,2,4) by (auto simp: lease_inv_def)
next
  case (Some l)
  then obtain h r where "held D h r l" "holder_inv D c h r"
    using assms(1) by (auto simp: lease_inv_def)
  with Some assms(2,3) show ?thesis
    by (auto simp: lease_inv_def)
qed

definition seen_inv :: "cluster \<Rightarrow> bool" where
  "seen_inv c \<longleftrightarrow>
     (\<forall>n l. rp_seen (replica_of c n) = Some (Some l) \<longrightarrow>
        (\<exists>l'. cl_lease c = Some l' \<and> le_resource_version l \<le> le_resource_version l' \<and>
           (le_resource_version l = le_resource_version l' \<longrightarrow> l = l')))"

definition clock_inv :: "cluster \<Rightarrow> bool" where
  "clock_inv c \<longleftrightarrow> (\<forall>n now. rp_started (replica_of c n) = Some now \<longrightarrow> now \<le> cl_clock c)"

definition well_configured :: "i32 \<Rightarrow> (string \<Rightarrow> LeaderElectionConfig) \<Rightarrow> bool" where
  "well_configured D config \<longleftrightarrow>
     0 < sint D \<and> (\<forall>n. lc_holder_id (config n) = n \<and> lc_lease_duration_seconds (config n) = D)"

lemmas cluster_simps = set_replica_def finish_def

lemma api_write_cases:
  assumes "api_write (try_acquire_or_renew lo hi cfg now seen) lease = Some lease'"
  obtains
    (created) "lease = None" and "seen = None" and "lease' = \<lparr>le_resource_version = 1, le_spec = Some (new_lease_spec cfg now True)\<rparr>"
  | (replaced) current holder renew d owner where "lease = Some current" and "seen = Some \<lparr>le_resource_version = le_resource_version current, le_spec = le_spec (the seen)\<rparr>"
      and "current_lease_state (the seen) = (holder, renew, d)" and "owner = (holder = Some (lc_holder_id cfg))"
      and "is_expired lo hi renew d now \<or> owner"
      and "lease' = \<lparr>le_resource_version = Suc (le_resource_version current), le_spec = Some (next_lease_spec cfg now owner renew)\<rparr>"
proof (cases seen)
  case None
  then show thesis
    using assms created by (auto simp: try_acquire_or_renew_def api_write_def split: option.splits)
next
  case (Some s)
  obtain holder renew d where st: "current_lease_state s = (holder, renew, d)"
    by (cases "current_lease_state s") auto
  show thesis
  proof (cases lease)
    case None
    then show thesis
      using assms Some by (auto simp: try_acquire_or_renew_def api_write_def Let_def split: prod.splits if_splits)
  next
    case cur: (Some current)
    then show thesis
      using assms Some st
      by (intro replaced [of current holder renew d "holder = Some (lc_holder_id cfg)"])
        (auto simp: try_acquire_or_renew_def api_write_def Let_def split: if_splits)
  qed
qed

lemma write_inv:
  assumes wc: "well_configured D config" and inv: "lease_inv D c" "seen_inv c" "clock_inv c"
    and n: "rp_started (replica_of c n) = Some now" "rp_seen (replica_of c n) = Some seen"
    and w: "api_write (try_acquire_or_renew lo hi (config n) now seen) (cl_lease c) = Some lease"
  shows "lease_inv D (set_replica n (finish b (replica_of c n)) (c\<lparr>cl_lease := Some lease\<rparr>))"
    and "seen_inv (set_replica n (finish b (replica_of c n)) (c\<lparr>cl_lease := Some lease\<rparr>))"
proof -
  let ?c = "set_replica n (finish b (replica_of c n)) (c\<lparr>cl_lease := Some lease\<rparr>)"
  have cfg: "lc_holder_id (config n) = n" "lc_lease_duration_seconds (config n) = D" "0 < sint D"
    using wc by (auto simp: well_configured_def)
  have now: "now \<le> cl_clock c"
    using inv(3) n(1) by (auto simp: clock_inv_def)
  have "lease_inv D ?c \<and> seen_inv ?c"
    using w
  proof (cases rule: api_write_cases)
    case created
    then have "\<not> rp_leader (replica_of c m)" for m
      using inv(1) by (simp add: lease_inv_def)
    moreover have "rp_seen (replica_of c m) \<noteq> Some (Some l)" for m l
      using inv(2) created(1) by (auto simp: seen_inv_def)
    ultimately show ?thesis
      using created(3) now n(1) cfg
      by (auto simp: lease_inv_def held_def holder_inv_def seen_inv_def cluster_simps new_lease_spec_def)
  next
    case (replaced current holder renew d owner)
    obtain s where s: "seen = Some s" "le_resource_version s = le_resource_version current"
      using replaced(2) by (cases seen) (auto dest: arg_cong [where f = le_resource_version])
    then have "s = current"
      using inv(2) n(2) replaced(1) unfolding seen_inv_def by (metis option.inject)
    then have state: "current_lease_state current = (holder, renew, d)"
      using replaced(3) s(1) by simp
    obtain h r a where l: "le_spec current = Some \<lparr>ls_holder_identity = Some h, ls_lease_duration_seconds = Some D,
            ls_acquire_time = a, ls_renew_time = Some r\<rparr>"
      and lead: "\<And>m. rp_leader (replica_of c m) \<Longrightarrow> (if m = h then rp_renewed (replica_of c m) \<le> r else rp_renewed (replica_of c m) + dur D < r)"
      and started: "\<And>now. rp_started (replica_of c h) = Some now \<Longrightarrow> r \<le> now"
      using inv(1) replaced(1) by (auto simp: lease_inv_def held_def holder_inv_def)
    have hd: "holder = Some h" "renew = Some r" "d = D"
      using state l by (auto simp: current_lease_state_def)
    have dpos: "0 < dur D"
      using cfg(3) by (simp add: dur_def)
    have new: "r \<le> now" "h \<noteq> n \<Longrightarrow> r + dur D < now"
      using replaced(4,5) hd cfg expired_after [OF cfg(3), of lo hi r now] started n(1) dpos by fastforce+
    have "rp_renewed (replica_of c m) + dur D < now" if "rp_leader (replica_of c m)" "m \<noteq> n" for m
      using lead [OF that(1)] new that(2) by (cases "m = h") auto
    then have "lease_inv D ?c"
      using replaced(6) now n(1) cfg
      by (auto simp: lease_inv_def held_def holder_inv_def cluster_simps next_lease_spec_def)
    moreover have "seen_inv ?c"
      using inv(2) replaced(1,6) by (fastforce simp: seen_inv_def cluster_simps)
    ultimately show ?thesis by blast
  qed
  then show "lease_inv D ?c" "seen_inv ?c" by blast+
qed

lemma finish_inv:
  assumes "lease_inv D c" and "seen_inv c"
  shows "lease_inv D (set_replica n (finish False (replica_of c n)) c)" and "seen_inv (set_replica n (finish False (replica_of c n)) c)"
proof -
  show "lease_inv D (set_replica n (finish False (replica_of c n)) c)"
    by (rule lease_inv_keep [OF assms(1)]) (auto simp: holder_inv_def cluster_simps split: if_splits)
  show "seen_inv (set_replica n (finish False (replica_of c n)) c)"
    using assms(2) by (auto simp: seen_inv_def cluster_simps)
qed

lemma finish_clock:
  "clock_inv c \<Longrightarrow> clock_inv (set_replica n (finish b (replica_of c n)) (c\<lparr>cl_lease := l\<rparr>))"
  "clock_inv c \<Longrightarrow> clock_inv (set_replica n (finish b (replica_of c n)) c)"
  by (auto simp: clock_inv_def cluster_simps)

lemma step_inv:
  assumes wc: "well_configured D config" and s: "step lo hi config c c'" and inv: "lease_inv D c" "seen_inv c" "clock_inv c"
  shows "lease_inv D c' \<and> seen_inv c' \<and> clock_inv c'"
  using s
proof cases
  case (Tick t)
  have "lease_inv D c'"
    unfolding Tick by (rule lease_inv_keep [OF inv(1)]) (use Tick(2) in \<open>auto simp: holder_inv_def\<close>)
  then show ?thesis
    using inv(2,3) Tick by (simp add: seen_inv_def clock_inv_def) (meson order_trans)
next
  case (Start n)
  have "lease_inv D c'"
    unfolding Start by (rule lease_inv_keep [OF inv(1)]) (auto simp: holder_inv_def set_replica_def split: if_splits)
  then show ?thesis
    using inv(2,3) Start by (auto simp: seen_inv_def clock_inv_def set_replica_def)
next
  case (Read n now)
  have "lease_inv D c'"
    unfolding Read by (rule lease_inv_keep [OF inv(1)]) (auto simp: holder_inv_def set_replica_def split: if_splits)
  moreover have "clock_inv c'"
    using inv(3) Read(1) by (auto simp: clock_inv_def set_replica_def)
  moreover have "seen_inv c'"
    using inv(2) Read(1) by (auto simp: seen_inv_def set_replica_def)
  ultimately show ?thesis by blast
next
  case (Written n now seen lease)
  then show ?thesis
    using write_inv [OF wc inv, of n now seen lo hi lease True] finish_clock(1) [OF inv(3)] by simp
next
  case (Lost n now seen lease)
  then show ?thesis
    using write_inv [OF wc inv, of n now seen lo hi lease False] finish_clock(1) [OF inv(3)] by simp
qed (use finish_inv [OF inv(1,2)] finish_clock(2) [OF inv(3)] in auto)

lemma reachable_inv:
  assumes "well_configured D config" and "reachable lo hi config c"
  shows "lease_inv D c \<and> seen_inv c \<and> clock_inv c"
  using assms(2)
proof induction
  case (Init t)
  then show ?case
    by (simp add: cluster_init_def lease_inv_def seen_inv_def clock_inv_def)
next
  case (Step c c')
  then show ?case
    using step_inv [OF assms(1)] by blast
qed

text \<open>A replica leads with a valid lease while it believes to lead and its own last renewal, plus the
  lease duration, is not in the past.\<close>

definition leads :: "i32 \<Rightarrow> cluster \<Rightarrow> string \<Rightarrow> bool" where
  "leads D c n \<longleftrightarrow> rp_leader (replica_of c n) \<and> cl_clock c \<le> rp_renewed (replica_of c n) + dur D"

section \<open>Properties\<close>

text \<open>C4: Leadership is exclusive: in every reachable state of any interleaving of replicas, with
  conflicting, failing and lost writes, at most one replica leads with a valid lease, and it is
  the holder named in the Lease object.  The replicas have distinct identities, the same lease
  duration and one clock.\<close>
theorem leader_exclusive:
  assumes "well_configured D config" and "reachable lo hi config c" and "leads D c n"
  shows "(leads D c m \<longleftrightarrow> m = n) \<and> map_option (\<lambda>l. Option.bind (le_spec l) ls_holder_identity) (cl_lease c) = Some (Some n)"
proof -
  have inv: "lease_inv D c"
    using reachable_inv [OF assms(1,2)] by blast
  then obtain l where l: "cl_lease c = Some l"
    using assms(3) by (cases "cl_lease c") (auto simp: lease_inv_def leads_def)
  obtain h r a where spec: "le_spec l = Some \<lparr>ls_holder_identity = Some h, ls_lease_duration_seconds = Some D,
            ls_acquire_time = a, ls_renew_time = Some r\<rparr>"
    and lead: "\<And>m. rp_leader (replica_of c m) \<Longrightarrow> m \<noteq> h \<Longrightarrow> rp_renewed (replica_of c m) + dur D < r" and "r \<le> cl_clock c"
    using inv l by (auto simp: lease_inv_def held_def holder_inv_def)
  have only: "m = h" if "leads D c m" for m
    using that lead [of m] \<open>r \<le> cl_clock c\<close> by (auto simp: leads_def)
  with assms(3) l spec show ?thesis by auto
qed

definition sample_election :: "string \<Rightarrow> LeaderElectionConfig" where
  "sample_election n = \<lparr>lc_namespace = ''ns'', lc_lease_name = ''lease'', lc_holder_id = n, lc_lease_duration_seconds = 15,
     lc_renew_interval_seconds = 5\<rparr>"

theorem leader_exclusive_witness:
  "\<exists>c. reachable 0 100 sample_election c \<and> leads 15 c ''a'' \<and> \<not> leads 15 c ''b''"
proof -
  define c0 where "c0 = cluster_init 7"
  define c1 where "c1 = set_replica ''a'' ((replica_of c0 ''a'')\<lparr>rp_started := Some (cl_clock c0)\<rparr>) c0"
  define c2 where "c2 = set_replica ''a'' ((replica_of c1 ''a'')\<lparr>rp_seen := Some (cl_lease c1)\<rparr>) c1"
  define l where "l = \<lparr>le_resource_version = 1, le_spec = Some (new_lease_spec (sample_election ''a'') 7 True)\<rparr>"
  define c3 where "c3 = set_replica ''a'' (finish True (replica_of c2 ''a'')) (c2\<lparr>cl_lease := Some l\<rparr>)"
  note defs = c0_def c1_def c2_def c3_def cluster_init_def cluster_simps
  have "reachable 0 100 sample_election c0"
    unfolding c0_def by (rule reachable.Init)
  moreover have "step 0 100 sample_election c0 c1"
    unfolding c1_def by (rule step.Start) (simp add: defs)
  moreover have "step 0 100 sample_election c1 c2"
    unfolding c2_def by (rule step.Read [where now = 7]) (simp_all add: defs)
  moreover have "step 0 100 sample_election c2 c3"
    unfolding c3_def by (rule step.Written [where now = 7 and seen = None])
      (simp_all add: defs l_def try_acquire_or_renew_def api_write_def)
  ultimately have r: "reachable 0 100 sample_election c3"
    by (blast intro: reachable.Step)
  have a: "leads 15 c3 ''a''"
    by (simp add: leads_def dur_def defs)
  have "well_configured 15 sample_election"
    by (simp add: well_configured_def sample_election_def)
  from leader_exclusive [OF this r a, of "''b''"] r a show ?thesis by auto
qed

end
