(* ===== verification/Spec2Isabelle.thy ===== *)
theory Spec2Isabelle
  imports Admin_Auth Auto_Ssl Acme H3_Safety H3_Server Gateway_Safety Gateway Respond Grpc Telemetry Security Edge_Auth Apply Cert_Store Tunnel Leader_Election Http_Msg
begin

text \<open>
  A verification development for the reverse proxy under src/.
\<close>

end
